(* ===== verification/Subject.thy ===== *)
theory Subject
  imports Prelude
begin

text \<open>
  Subjects (src/server/sublist.go): the token loop that Insert, Match and Remove share, the
  two validity checks, the byte-level matcher \<^verbatim>\<open>matchLiteral\<close> of the cache layer, and
  the token-level matching relation it is compared with.
\<close>

section \<open>Tokens\<close>

abbreviation pwc :: char where "pwc \<equiv> CHR ''*''"
abbreviation fwc :: char where "fwc \<equiv> CHR ''>''"
abbreviation btsep :: char where "btsep \<equiv> CHR ''.''"

text \<open>
  The loop over the bytes of a subject: \<open>cur\<close> is \<^verbatim>\<open>subject[start:i]\<close>, the
  token read so far; a separator appends it to the tokens, the end appends what is left.
\<close>

fun tokens_from :: "bytes \<Rightarrow> bytes \<Rightarrow> bytes list" where
  "tokens_from cur [] = [cur]"
| "tokens_from cur (c # cs) =
     (if c = btsep then cur # tokens_from [] cs else tokens_from (cur @ [c]) cs)"

definition tokens :: "bytes \<Rightarrow> bytes list" where
  "tokens subject = tokens_from [] subject"

section \<open>Validity of subjects\<close>

fun valid_tokens :: "bool \<Rightarrow> bytes list \<Rightarrow> bool" where
  "valid_tokens sfwc [] = True"
| "valid_tokens sfwc (t # ts) =
     (if length t = 0 \<or> sfwc then False
      else if length t > 1 then valid_tokens sfwc ts
      else valid_tokens (if hd t = fwc then True else sfwc) ts)"

definition IsValidSubject :: "bytes \<Rightarrow> bool" where
  "IsValidSubject subject = (if subject = '''' then False else valid_tokens False (tokens subject))"

fun valid_literal_tokens :: "bytes list \<Rightarrow> bool" where
  "valid_literal_tokens [] = True"
| "valid_literal_tokens (t # ts) =
     (if length t = 0 then False
      else if length t > 1 then valid_literal_tokens ts
      else if hd t = pwc \<or> hd t = fwc then False
      else valid_literal_tokens ts)"

definition IsValidLiteralSubject :: "bytes \<Rightarrow> bool" where
  "IsValidLiteralSubject subject = valid_literal_tokens (tokens subject)"

section \<open>The byte-level matcher of the cache layer\<close>

text \<open>
  The inner loop of the \<^verbatim>\<open>pwc\<close> case: advance \<open>li\<close> to the end of the literal's token,
  then step back by one (the outer loop adds one again).
\<close>

function skip_token :: "bytes \<Rightarrow> int \<Rightarrow> int" where
  "skip_token literal li =
     (if li \<ge> int (length literal) \<or> literal ! nat li = btsep then li - 1
      else skip_token literal (li + 1))"
  by pat_completeness auto
termination
  by (relation "measure (\<lambda>(literal, li). nat (int (length literal) - li))") auto

declare skip_token.simps [simp del]

fun matchLiteral_loop :: "bytes \<Rightarrow> bytes \<Rightarrow> int \<Rightarrow> bool" where
  "matchLiteral_loop literal [] li = (li \<ge> int (length literal))"
| "matchLiteral_loop literal (b # bs) li =
     (if li \<ge> int (length literal) then False
      else if b = pwc then matchLiteral_loop literal bs (skip_token literal li + 1)
      else if b = fwc then True
      else if b \<noteq> literal ! nat li then False
      else matchLiteral_loop literal bs (li + 1))"

definition matchLiteral :: "bytes \<Rightarrow> bytes \<Rightarrow> bool" where
  "matchLiteral literal subject = matchLiteral_loop literal subject 0"

section \<open>Token-level matching\<close>

text \<open>
  What one step of the trie descent looks at: the switch on \<^verbatim>\<open>t[0]\<close> in Insert and Remove
  sends a token to the partial wildcard, the full wildcard or the literal map.
\<close>

datatype key = Lit bytes | PWC | FWC

definition key_of :: "bytes \<Rightarrow> key" where
  "key_of t = (if t \<noteq> [] \<and> hd t = pwc then PWC else if t \<noteq> [] \<and> hd t = fwc then FWC else Lit t)"

definition path_of :: "bytes \<Rightarrow> key list" where
  "path_of subject = map key_of (tokens subject)"

text \<open>
  The intended meaning of a subscription path against the tokens of a published subject: a
  partial wildcard stands for exactly one token, a full wildcard for one or more.
\<close>

fun path_matches :: "key list \<Rightarrow> bytes list \<Rightarrow> bool" where
  "path_matches [] [] = True"
| "path_matches [] (t # ts) = False"
| "path_matches (k # ks) [] = False"
| "path_matches (Lit u # ks) (t # ts) = (u = t \<and> path_matches ks ts)"
| "path_matches (PWC # ks) (t # ts) = path_matches ks ts"
| "path_matches (FWC # ks) (t # ts) = (ks = [])"

definition subject_matches :: "bytes \<Rightarrow> bytes \<Rightarrow> bool" where
  "subject_matches pattern literal = path_matches (path_of pattern) (tokens literal)"

text \<open>
  A canonical subject is valid and uses the wildcard bytes only as whole tokens; a proper
  literal does not end in an empty token.
\<close>

definition canonical_subject :: "bytes \<Rightarrow> bool" where
  "canonical_subject s \<longleftrightarrow> IsValidSubject s \<and>
     (\<forall>t \<in> set (tokens s). length t > 1 \<longrightarrow> pwc \<notin> set t \<and> fwc \<notin> set t)"

definition proper_literal :: "bytes \<Rightarrow> bool" where
  "proper_literal s \<longleftrightarrow> last (tokens s) \<noteq> []"

lemma path_matches_Nil [simp]: "path_matches [] ts \<longleftrightarrow> ts = []"
  by (cases ts) auto

lemma path_matches_Nil2 [simp]: "path_matches ks [] \<longleftrightarrow> ks = []"
  by (cases ks) auto

section \<open>Tokens and joining\<close>

fun join :: "bytes list \<Rightarrow> bytes" where
  "join [] = []"
| "join [t] = t"
| "join (t # u # ts) = t @ btsep # join (u # ts)"

lemma tokens_from_ne [simp]: "tokens_from cur s \<noteq> []"
  by (induction cur s rule: tokens_from.induct) auto

lemma tokens_ne [simp]: "tokens s \<noteq> []"
  by (simp add: tokens_def)

lemma join_Cons: "ts \<noteq> [] \<Longrightarrow> join (t # ts) = t @ btsep # join ts"
  by (cases ts) auto

lemma join_tokens_from: "join (tokens_from cur s) = cur @ s"
  by (induction cur s rule: tokens_from.induct) (auto simp: join_Cons)

lemma join_tokens [simp]: "join (tokens s) = s"
  by (simp add: tokens_def join_tokens_from)

lemma tokens_from_no_sep:
  "btsep \<notin> set cur \<Longrightarrow> t \<in> set (tokens_from cur s) \<Longrightarrow> btsep \<notin> set t"
  by (induction cur s rule: tokens_from.induct) (auto split: if_splits)

lemma tokens_no_sep: "t \<in> set (tokens s) \<Longrightarrow> btsep \<notin> set t"
  by (auto simp: tokens_def dest: tokens_from_no_sep [rotated])

lemma tokens_from_append_sep:
  "btsep \<notin> set u \<Longrightarrow> tokens_from cur (u @ btsep # s) = (cur @ u) # tokens_from [] s"
  by (induction u arbitrary: cur) auto

lemma tokens_from_plain: "btsep \<notin> set u \<Longrightarrow> tokens_from cur u = [cur @ u]"
  by (induction u arbitrary: cur) auto

lemma tokens_append_sep [simp]:
  "btsep \<notin> set u \<Longrightarrow> tokens (u @ btsep # s) = u # tokens s"
  by (simp add: tokens_def tokens_from_append_sep)

lemma tokens_plain [simp]: "btsep \<notin> set u \<Longrightarrow> tokens u = [u]"
  by (simp add: tokens_def tokens_from_plain)

lemma tokens_join:
  "ts \<noteq> [] \<Longrightarrow> (\<And>t. t \<in> set ts \<Longrightarrow> btsep \<notin> set t) \<Longrightarrow> tokens (join ts) = ts"
  by (induction ts rule: join.induct) auto

text \<open>Every byte string is one token, or a token, a separator and the rest.\<close>

lemma tokens_cases:
  obtains (last) "tokens s = [s]" "btsep \<notin> set s"
  | (more) t r where "s = t @ btsep # r" "btsep \<notin> set t" "tokens s = t # tokens r"
proof (cases "btsep \<in> set s")
  case True
  then obtain t r where "s = t @ btsep # r" "btsep \<notin> set t"
    by (meson split_list_first)
  then show ?thesis by (intro more [of t r]) auto
next
  case False
  then show ?thesis by (intro last) auto
qed

section \<open>The byte-level matcher decides token-level matching\<close>

text \<open>The matcher over the unread suffix of the literal, with no indices.\<close>

fun ml :: "bytes \<Rightarrow> bytes \<Rightarrow> bool" where
  "ml [] lit = (lit = [])"
| "ml (b # bs) lit =
     (if lit = [] then False
      else if b = pwc then ml bs (dropWhile (\<lambda>c. c \<noteq> btsep) lit)
      else if b = fwc then True
      else if b \<noteq> hd lit then False
      else ml bs (tl lit))"

lemma drop_skip_token:
  assumes "0 \<le> li" "li \<le> int (length literal)"
  shows "li \<le> skip_token literal li + 1 \<and> skip_token literal li + 1 \<le> int (length literal) \<and>
     drop (nat (skip_token literal li + 1)) literal =
       dropWhile (\<lambda>c. c \<noteq> btsep) (drop (nat li) literal)"
  using assms
proof (induction literal li rule: skip_token.induct)
  case (1 literal li)
  let ?stop = "li \<ge> int (length literal) \<or> literal ! nat li = btsep"
  show ?case
  proof (cases ?stop)
    case True
    then have "skip_token literal li = li - 1"
      by (simp add: skip_token.simps [of literal li])
    moreover have "drop (nat li) literal = dropWhile (\<lambda>c. c \<noteq> btsep) (drop (nat li) literal)"
    proof (cases "li \<ge> int (length literal)")
      case True
      then show ?thesis by simp
    next
      case False
      with \<open>?stop\<close> \<open>0 \<le> li\<close> have "drop (nat li) literal = btsep # drop (Suc (nat li)) literal"
        by (metis Cons_nth_drop_Suc nat_less_iff not_le)
      then show ?thesis by simp
    qed
    ultimately show ?thesis using "1.prems" by simp
  next
    case False
    then have step: "skip_token literal li = skip_token literal (li + 1)"
      by (simp add: skip_token.simps [of literal li])
    from False "1.prems" have "nat li < length literal" by linarith
    then have "drop (nat li) literal = literal ! nat li # drop (Suc (nat li)) literal"
      by (rule Cons_nth_drop_Suc [symmetric])
    with False "1.IH" "1.prems" step show ?thesis
      by (auto simp: nat_add_distrib)
  qed
qed

lemma matchLiteral_loop_ml:
  assumes "0 \<le> li" "li \<le> int (length literal)"
  shows "matchLiteral_loop literal bs li = ml bs (drop (nat li) literal)"
  using assms
proof (induction literal bs li rule: matchLiteral_loop.induct)
  case (1 literal li)
  then show ?case by auto
next
  case (2 literal b bs li)
  show ?case
  proof (cases "li \<ge> int (length literal)")
    case True
    then show ?thesis by simp
  next
    case False
    then have "nat li < length literal" using "2.prems" by simp
    then have d: "drop (nat li) literal = literal ! nat li # drop (Suc (nat li)) literal"
      by (rule Cons_nth_drop_Suc [symmetric])
    have "matchLiteral_loop literal bs (skip_token literal li + 1) =
        ml bs (dropWhile (\<lambda>c. c \<noteq> btsep) (drop (nat li) literal))" if "b = pwc"
      using "2.IH"(1) [OF False that] drop_skip_token [OF "2.prems"] "2.prems"(1) by auto
    with False d "2.IH"(2) "2.prems" show ?thesis
      by (auto simp: nat_add_distrib)
  qed
qed

lemma matchLiteral_ml: "matchLiteral literal subject = ml subject literal"
  by (simp add: matchLiteral_def matchLiteral_loop_ml)

text \<open>A wildcard-free token consumes exactly itself.\<close>

lemma ml_plain_append:
  "pwc \<notin> set u \<Longrightarrow> fwc \<notin> set u \<Longrightarrow> u @ r \<noteq> [] \<Longrightarrow>
   ml (u @ r) lit \<longleftrightarrow> (\<exists>lit'. lit = u @ lit' \<and> ml r lit')"
proof (induction u arbitrary: lit)
  case Nil
  then show ?case by simp
next
  case (Cons b u)
  show ?case
  proof (cases lit)
    case Nil
    then show ?thesis by simp
  next
    case (Cons c cs)
    show ?thesis
    proof (cases "u @ r = []")
      case True
      with Cons.prems Cons show ?thesis by auto
    next
      case False
      with Cons.prems Cons show ?thesis by (auto simp: Cons.IH)
    qed
  qed
qed

definition good_token :: "bytes \<Rightarrow> bool" where
  "good_token t \<longleftrightarrow> t \<noteq> [] \<and> btsep \<notin> set t \<and>
     (t = [pwc] \<or> t = [fwc] \<or> (pwc \<notin> set t \<and> fwc \<notin> set t))"

lemma key_of_good:
  "good_token t \<Longrightarrow>
   key_of t = (if t = [pwc] then PWC else if t = [fwc] then FWC else Lit t)"
  by (cases t) (auto simp: good_token_def key_of_def)

fun good_tokens :: "bytes list \<Rightarrow> bool" where
  "good_tokens [] = True"
| "good_tokens (t # ts) = (good_token t \<and> (t = [fwc] \<longrightarrow> ts = []) \<and> good_tokens ts)"

lemma valid_tokens_True: "valid_tokens True ts \<longleftrightarrow> ts = []"
  by (cases ts) auto

lemma valid_tokens_good:
  "valid_tokens False ts \<Longrightarrow> \<forall>t \<in> set ts. btsep \<notin> set t \<Longrightarrow>
   \<forall>t \<in> set ts. length t > 1 \<longrightarrow> pwc \<notin> set t \<and> fwc \<notin> set t \<Longrightarrow> good_tokens ts"
proof (induction ts)
  case Nil
  then show ?case by simp
next
  case (Cons t ts)
  from Cons.prems(1) have "t \<noteq> []" by (auto split: if_splits)
  moreover have "length t \<le> 1 \<Longrightarrow> \<exists>c. t = [c]"
    using \<open>t \<noteq> []\<close> by (cases t) auto
  ultimately show ?case
    using Cons by (cases "length t > 1")
      (auto simp: good_token_def valid_tokens_True split: if_splits)
qed

lemma canonical_good_tokens: "canonical_subject s \<Longrightarrow> good_tokens (tokens s)"
  by (rule valid_tokens_good)
    (auto simp: canonical_subject_def IsValidSubject_def tokens_no_sep split: if_splits)

lemma ml_join_path:
  "ts \<noteq> [] \<Longrightarrow> good_tokens ts \<Longrightarrow> last (tokens lit) \<noteq> [] \<Longrightarrow>
   ml (join ts) lit = path_matches (map key_of ts) (tokens lit)"
proof (induction ts arbitrary: lit rule: join.induct)
  case 1
  then show ?case by simp
next
  case (2 t)
  then have t: "good_token t" by simp
  show ?case
  proof (cases rule: tokens_cases [of lit])
    case last
    with 2 t show ?thesis
      using ml_plain_append [of t "[]" lit]
      by (auto simp: key_of_good good_token_def)
  next
    case (more u r)
    with t show ?thesis
      using ml_plain_append [of t "[]" lit]
      by (auto simp: key_of_good good_token_def)
  qed
next
  case (3 t u ts)
  then have t: "good_token t" "t \<noteq> [fwc]" and g: "good_tokens (u # ts)" by auto
  have sep: "ml (btsep # join (u # ts)) l \<longleftrightarrow> (\<exists>l'. l = btsep # l' \<and> ml (join (u # ts)) l')" for l
    by (cases l) auto
  consider (star) "t = [pwc]" | (plain) "pwc \<notin> set t" "fwc \<notin> set t" "key_of t = Lit t"
    using t key_of_good [OF t(1)] unfolding good_token_def by metis
  then show ?case
  proof cases
    case star
    have m: "ml (join (t # u # ts)) lit \<longleftrightarrow>
        lit \<noteq> [] \<and> ml (btsep # join (u # ts)) (dropWhile (\<lambda>c. c \<noteq> btsep) lit)"
      by (simp add: star)
    show ?thesis
    proof (cases rule: tokens_cases [of lit])
      case last
      then have "dropWhile (\<lambda>c. c \<noteq> btsep) lit = []" by auto
      with last m star show ?thesis by (simp add: key_of_def)
    next
      case (more v r)
      then have "dropWhile (\<lambda>c. c \<noteq> btsep) lit = btsep # r" "lit \<noteq> []"
        by (auto simp: dropWhile_append3)
      with more m star "3.IH" [OF _ g, of r] "3.prems"(3) show ?thesis
        by (simp add: key_of_def)
    qed
  next
    case plain
    have m: "ml (join (t # u # ts)) lit \<longleftrightarrow>
        (\<exists>r. lit = t @ btsep # r \<and> ml (join (u # ts)) r)"
      using ml_plain_append [OF plain(1,2), of "btsep # join (u # ts)" lit]
      by (auto simp: sep simp del: ml.simps)
    show ?thesis
    proof (cases rule: tokens_cases [of lit])
      case last
      then show ?thesis unfolding m by (auto simp: plain)
    next
      case (more v r)
      have "lit = t @ btsep # l \<longleftrightarrow> v = t \<and> l = r" for l
      proof
        assume l: "lit = t @ btsep # l"
        with t have "tokens lit = t # tokens l" by (simp add: good_token_def)
        with more have "v = t" by simp
        with more l show "v = t \<and> l = r" by simp
      qed (use more in simp)
      then show ?thesis
        unfolding m using more "3.IH" [OF _ g, of r] "3.prems"(3) by (auto simp: plain)
    qed
  qed
qed

text \<open>
  The cache layer relies on this equivalence; it needs both side conditions
  (\<open>matchLiteral_trailing_dot\<close> and \<open>matchLiteral_inner_wildcard\<close> below show what goes wrong
  without them).
\<close>

lemma matchLiteral_subject_matches:
  assumes "canonical_subject s" "proper_literal lit"
  shows "matchLiteral lit s = subject_matches s lit"
  using ml_join_path [of "tokens s" lit] canonical_good_tokens [OF assms(1)] assms(2)
  by (simp add: matchLiteral_ml subject_matches_def path_of_def proper_literal_def)

text \<open>
  The byte-level matcher of the cache layer decides token-level matching, for every
  subject that uses wildcards as whole tokens and every literal without an empty last token.
\<close>

theorem matchLiteral_decides:
  assumes "canonical_subject s" "proper_literal lit"
  shows "matchLiteral lit s \<longleftrightarrow> subject_matches s lit"
  using assms by (simp add: matchLiteral_subject_matches)

theorem matchLiteral_decides_witness:
  "(matchLiteral ''foo.bar.baz'' ''foo.*.>'' \<longleftrightarrow> subject_matches ''foo.*.>'' ''foo.bar.baz'') \<and>
   matchLiteral ''foo.bar.baz'' ''foo.*.>''"
proof
  have "canonical_subject ''foo.*.>''" "proper_literal ''foo.bar.baz''" by code_simp+
  then show "matchLiteral ''foo.bar.baz'' ''foo.*.>'' \<longleftrightarrow> subject_matches ''foo.*.>'' ''foo.bar.baz''"
    by (rule matchLiteral_decides)
  show "matchLiteral ''foo.bar.baz'' ''foo.*.>''" by code_simp
qed

lemma matchLiteral_trailing_dot:
  "\<not> matchLiteral ''foo.'' ''foo.*'' \<and> subject_matches ''foo.*'' ''foo.''"
  by code_simp

lemma matchLiteral_inner_wildcard:
  "matchLiteral ''foo.bar'' ''foo.b*'' \<and> \<not> subject_matches ''foo.b*'' ''foo.bar''"
  by code_simp

end
