(* ===== verification/Sublist_Trie.thy ===== *)
theory Sublist_Trie
  imports Subject
begin

text \<open>
  The subscription trie of src/server/sublist.go: nodes and levels, insertion and removal of
  a subscription along the tokens of its subject, pruning, and the recursive match. The Go
  code mutates nodes in place; no node is shared, so the model returns the updated trie.
  A Go map from tokens to nodes is an association list with distinct keys.
\<close>

section \<open>Subscriptions\<close>

text \<open>
  The immutable part of \<^verbatim>\<open>subscription\<close> (src/server/client.go). \<open>sub_ptr\<close> is the
  object's address: pointer comparison in Go is comparison of \<open>sub_ptr\<close>. \<open>sub_client\<close> is the
  \<^verbatim>\<open>cid\<close> of the owning client, \<^term>\<open>None\<close> for the nil client of a permission entry;
  \<open>sub_queue\<close> is \<^term>\<open>None\<close> for a nil queue. The counters \<^verbatim>\<open>nm\<close> and
  \<^verbatim>\<open>max\<close> change over time and live in the state of the client that owns the object.
\<close>

record subscription =
  sub_ptr :: nat
  sub_client :: "nat option"
  sub_subject :: bytes
  sub_queue :: "bytes option"
  sub_sid :: bytes

text \<open>\<^verbatim>\<open>bytes.Equal\<close> does not distinguish a nil slice from an empty one.\<close>

definition bytes_equal :: "bytes option \<Rightarrow> bytes option \<Rightarrow> bool" where
  "bytes_equal a b = (case_option [] id a = case_option [] id b)"

section \<open>Nodes and levels\<close>

datatype node =
  Node (node_next: "level option") (node_psubs: "subscription list")
    (node_qsubs: "subscription list list")
and level =
  Level (level_nodes: "(bytes \<times> node) list") (level_pwc: "node option") (level_fwc: "node option")

definition newNode :: node where
  "newNode = Node None [] []"

definition newLevel :: level where
  "newLevel = Level [] None None"

text \<open>The three switches on \<^verbatim>\<open>t[0]\<close>: read, write and delete the node of a token.\<close>

fun level_child :: "key \<Rightarrow> level \<Rightarrow> node option" where
  "level_child PWC l = level_pwc l"
| "level_child FWC l = level_fwc l"
| "level_child (Lit t) l = map_of (level_nodes l) t"

fun set_child :: "key \<Rightarrow> node \<Rightarrow> level \<Rightarrow> level" where
  "set_child PWC n (Level ns p f) = Level ns (Some n) f"
| "set_child FWC n (Level ns p f) = Level ns p (Some n)"
| "set_child (Lit t) n (Level ns p f) = Level (AList.update t n ns) p f"

text \<open>
  \<^verbatim>\<open>pruneNode\<close> finds the field to clear by comparing the node with \<^verbatim>\<open>l.fwc\<close>
  and \<^verbatim>\<open>l.pwc\<close>; the node was read from the field that the token selects, so the
  token's key selects the same field.
\<close>

fun pruneNode :: "key \<Rightarrow> level \<Rightarrow> level" where
  "pruneNode FWC (Level ns p f) = Level ns p None"
| "pruneNode PWC (Level ns p f) = Level ns None f"
| "pruneNode (Lit t) (Level ns p f) = Level (AList.delete t ns) p f"

definition numNodes :: "level \<Rightarrow> nat" where
  "numNodes l = length (level_nodes l) + (if level_pwc l \<noteq> None then 1 else 0)
     + (if level_fwc l \<noteq> None then 1 else 0)"

definition isEmpty :: "node \<Rightarrow> bool" where
  "isEmpty n = (if length (node_psubs n) = 0 \<and> length (node_qsubs n) = 0
     then (case node_next n of None \<Rightarrow> True | Some l \<Rightarrow> numNodes l = 0)
     else False)"

section \<open>Insertion\<close>

datatype sl_error = ErrInvalidSubject | ErrNotFound

fun find_qslice :: "bytes option \<Rightarrow> nat \<Rightarrow> subscription list list \<Rightarrow> nat option" where
  "find_qslice q i [] = None"
| "find_qslice q i (qr # qsl) =
     (if length qr > 0 \<and> bytes_equal q (sub_queue (qr ! 0)) then Some i
      else find_qslice q (Suc i) qsl)"

definition findQSliceForSub :: "subscription \<Rightarrow> subscription list list \<Rightarrow> nat option" where
  "findQSliceForSub sub qsl =
     (if sub_queue sub = None then None else find_qslice (sub_queue sub) 0 qsl)"

text \<open>The queue branch shared by Insert and addToCache: extend the group or open one.\<close>

definition add_qsub :: "subscription \<Rightarrow> subscription list list \<Rightarrow> subscription list list" where
  "add_qsub sub qsl =
     (case findQSliceForSub sub qsl of
        Some i \<Rightarrow> qsl[i := qsl ! i @ [sub]]
      | None \<Rightarrow> qsl @ [[sub]])"

definition node_add_sub :: "subscription \<Rightarrow> node \<Rightarrow> node" where
  "node_add_sub sub n =
     (if sub_queue sub = None then Node (node_next n) (node_psubs n @ [sub]) (node_qsubs n)
      else Node (node_next n) (node_psubs n) (add_qsub sub (node_qsubs n)))"

text \<open>
  The token loop of Insert. Nodes and levels created before an invalid token is found stay
  in the trie: the level is returned with the error.
\<close>

fun insert_loop :: "bool \<Rightarrow> subscription \<Rightarrow> bytes list \<Rightarrow> level \<Rightarrow> sl_error option \<times> level" where
  "insert_loop sfwc sub [] l = (None, l)"
| "insert_loop sfwc sub (t # ts) l =
     (if length t = 0 \<or> sfwc then (Some ErrInvalidSubject, l)
      else
        let k = key_of t;
            n = (case level_child k l of None \<Rightarrow> newNode | Some n \<Rightarrow> n);
            l1 = (case node_next n of None \<Rightarrow> newLevel | Some l1 \<Rightarrow> l1)
        in if ts = [] then
             (None, set_child k (node_add_sub sub (Node (Some l1) (node_psubs n) (node_qsubs n))) l)
           else
             let (e, l2) = insert_loop (k = FWC) sub ts l1
             in (e, set_child k (Node (Some l2) (node_psubs n) (node_qsubs n)) l))"

section \<open>Matching\<close>

record SublistResult =
  res_psubs :: "subscription list"
  res_qsubs :: "subscription list list"

definition emptyResult :: SublistResult where
  "emptyResult = \<lparr>res_psubs = [], res_qsubs = []\<rparr>"

fun add_groups :: "subscription list list \<Rightarrow> subscription list list \<Rightarrow> subscription list list" where
  "add_groups rs [] = rs"
| "add_groups rs (qr # qrs) =
     (if length qr = 0 then add_groups rs qrs
      else case findQSliceForSub (qr ! 0) rs of
        Some i \<Rightarrow> add_groups (rs[i := rs ! i @ qr]) qrs
      | None \<Rightarrow> add_groups (rs @ [qr]) qrs)"

definition addNodeToResults :: "node \<Rightarrow> SublistResult \<Rightarrow> SublistResult" where
  "addNodeToResults n r =
     \<lparr>res_psubs = res_psubs r @ node_psubs n, res_qsubs = add_groups (res_qsubs r) (node_qsubs n)\<rparr>"

definition add_opt_node :: "node option \<Rightarrow> SublistResult \<Rightarrow> SublistResult" where
  "add_opt_node no r = (case no of None \<Rightarrow> r | Some n \<Rightarrow> addNodeToResults n r)"

text \<open>
  One iteration per token; \<open>None\<close> is the nil level. After the last token the literal node
  and then the partial wildcard node of the last level are added.
\<close>

fun matchLevel :: "level option \<Rightarrow> bytes list \<Rightarrow> SublistResult \<Rightarrow> SublistResult" where
  "matchLevel lo [] r = r"
| "matchLevel None (t # ts) r = r"
| "matchLevel (Some l) (t # ts) r =
     (let r1 = add_opt_node (level_fwc l) r;
          r2 = (case level_pwc l of None \<Rightarrow> r1 | Some p \<Rightarrow> matchLevel (node_next p) ts r1);
          n = map_of (level_nodes l) t
      in if ts = [] then add_opt_node (level_pwc l) (add_opt_node n r2)
         else matchLevel (case n of None \<Rightarrow> None | Some n \<Rightarrow> node_next n) ts r2)"

section \<open>Removal\<close>

fun find_ptr :: "nat \<Rightarrow> nat \<Rightarrow> subscription list \<Rightarrow> nat option" where
  "find_ptr p i [] = None"
| "find_ptr p i (s # sl) = (if sub_ptr s = p then Some i else find_ptr p (Suc i) sl)"

text \<open>The last element takes the place of the removed one.\<close>

definition removeSubFromList :: "subscription \<Rightarrow> subscription list \<Rightarrow> subscription list \<times> bool" where
  "removeSubFromList sub sl =
     (case find_ptr (sub_ptr sub) 0 sl of
        None \<Rightarrow> (sl, False)
      | Some i \<Rightarrow> (butlast (sl[i := last sl]), True))"

definition removeFromNode :: "subscription \<Rightarrow> node \<Rightarrow> node \<times> bool" where
  "removeFromNode sub n =
     (if sub_queue sub = None then
        let (ps, found) = removeSubFromList sub (node_psubs n)
        in (Node (node_next n) ps (node_qsubs n), found)
      else case findQSliceForSub sub (node_qsubs n) of
        None \<Rightarrow> (n, False)
      | Some i \<Rightarrow>
          let (q, found) = removeSubFromList sub (node_qsubs n ! i);
              qs = (node_qsubs n)[i := q];
              qs' = (if length q = 0 then butlast (qs[i := last qs]) else qs)
          in (Node (node_next n) (node_psubs n) qs', found))"

text \<open>
  The token loop of Remove on a level that may be nil, followed on the way back by the
  pruning loop over the visited levels, which runs only when the subscription was found.
\<close>

fun remove_loop :: "bool \<Rightarrow> subscription \<Rightarrow> bytes list \<Rightarrow> level option \<Rightarrow> sl_error option \<times> level option" where
  "remove_loop sfwc sub [] lo = (Some ErrNotFound, lo)"
| "remove_loop sfwc sub (t # ts) lo =
     (if length t = 0 \<or> sfwc then (Some ErrInvalidSubject, lo)
      else case lo of None \<Rightarrow> (Some ErrNotFound, lo)
      | Some l \<Rightarrow>
          let k = key_of t in
          case level_child k l of
            None \<Rightarrow>
              (if ts = [] then (Some ErrNotFound, lo)
               else (fst (remove_loop (k = FWC) sub ts None), lo))
          | Some n \<Rightarrow>
              let (e, n') =
                (if ts = [] then
                   let (n1, found) = removeFromNode sub n
                   in (if found then None else Some ErrNotFound, n1)
                 else
                   let (e, l1) = remove_loop (k = FWC) sub ts (node_next n)
                   in (e, Node l1 (node_psubs n) (node_qsubs n)))
              in (e, Some (if e = None \<and> isEmpty n' then pruneNode k l else set_child k n' l)))"

section \<open>The entries of a trie\<close>

text \<open>
  The abstract content of a trie: every stored subscription with the path of keys that
  leads to its node, in one list, queue subscriptions included.
\<close>

definition node_subs :: "node \<Rightarrow> subscription list" where
  "node_subs n = node_psubs n @ concat (node_qsubs n)"

fun node_entries :: "node \<Rightarrow> (key list \<times> subscription) list"
and level_entries :: "level \<Rightarrow> (key list \<times> subscription) list" where
  "node_entries (Node nx ps qs) =
     map (Pair []) (ps @ concat qs) @ (case nx of None \<Rightarrow> [] | Some l \<Rightarrow> level_entries l)"
| "level_entries (Level ns p f) =
     concat (map (\<lambda>(t, n). map (apfst (Cons (Lit t))) (node_entries n)) ns) @
     (case p of None \<Rightarrow> [] | Some n \<Rightarrow> map (apfst (Cons PWC)) (node_entries n)) @
     (case f of None \<Rightarrow> [] | Some n \<Rightarrow> map (apfst (Cons FWC)) (node_entries n))"

text \<open>
  The shape invariant: distinct literal keys in every level, plain subscriptions in
  \<open>psubs\<close>, and queue groups that are non-empty, of one queue name each and of different names.
\<close>

definition wf_group :: "subscription list \<Rightarrow> bool" where
  "wf_group g \<longleftrightarrow> g \<noteq> [] \<and> (\<exists>q. \<forall>s \<in> set g. sub_queue s = Some q)"

definition wf_groups :: "subscription list list \<Rightarrow> bool" where
  "wf_groups qs \<longleftrightarrow> (\<forall>g \<in> set qs. wf_group g) \<and> distinct (map (\<lambda>g. sub_queue (hd g)) qs)"

fun wf_node :: "node \<Rightarrow> bool" and wf_level :: "level \<Rightarrow> bool" where
  "wf_node (Node nx ps qs) =
     ((\<forall>s \<in> set ps. sub_queue s = None) \<and> wf_groups qs \<and>
      (case nx of None \<Rightarrow> True | Some l \<Rightarrow> wf_level l))"
| "wf_level (Level ns p f) =
     (distinct (map fst ns) \<and> (\<forall>(t, n) \<in> set ns. wf_node n) \<and>
      (case p of None \<Rightarrow> True | Some n \<Rightarrow> wf_node n) \<and>
      (case f of None \<Rightarrow> True | Some n \<Rightarrow> wf_node n))"

definition opt_entries :: "level option \<Rightarrow> (key list \<times> subscription) list" where
  "opt_entries lo = (case lo of None \<Rightarrow> [] | Some l \<Rightarrow> level_entries l)"

definition child_entries :: "key \<Rightarrow> node option \<Rightarrow> (key list \<times> subscription) list" where
  "child_entries k no = (case no of None \<Rightarrow> [] | Some n \<Rightarrow> map (apfst (Cons k)) (node_entries n))"

lemma node_entries_alt:
  "node_entries n = map (Pair []) (node_subs n) @ opt_entries (node_next n)"
  by (cases n) (simp add: opt_entries_def node_subs_def)

lemma level_entries_newLevel [simp]: "level_entries newLevel = []"
  by (simp add: newLevel_def)

lemma child_entries_None [simp]: "child_entries k None = []"
  by (simp add: child_entries_def)

lemma child_entries_Some: "child_entries k (Some n) = map (apfst (Cons k)) (node_entries n)"
  by (simp add: child_entries_def)

lemma level_entries_alt:
  "level_entries (Level ns p f) =
     concat (map (\<lambda>(t, n). map (apfst (Cons (Lit t))) (node_entries n)) ns) @
     child_entries PWC p @ child_entries FWC f"
  by (simp add: child_entries_def)

lemma alist_update_entries:
  assumes "distinct (map fst ns)"
  shows "mset (concat (map f (AList.update t n ns))) + mset (case map_of ns t of None \<Rightarrow> [] | Some m \<Rightarrow> f (t, m))
    = mset (concat (map f ns)) + mset (f (t, n))"
  using assms
proof (induction ns)
  case Nil
  then show ?case by simp
next
  case (Cons a ns)
  obtain u m where a: "a = (u, m)" by (cases a)
  show ?case
  proof (cases "u = t")
    case True
    with Cons.prems a show ?thesis by simp
  next
    case False
    with Cons a show ?thesis by (simp add: add.assoc)
  qed
qed

lemma alist_delete_entries:
  assumes "distinct (map fst ns)"
  shows "mset (concat (map f (AList.delete t ns))) + mset (case map_of ns t of None \<Rightarrow> [] | Some m \<Rightarrow> f (t, m))
    = mset (concat (map f ns))"
  using assms
proof (induction ns)
  case Nil
  then show ?case by simp
next
  case (Cons a ns)
  obtain u m where a: "a = (u, m)" by (cases a)
  show ?case
  proof (cases "u = t")
    case True
    with Cons.prems have "t \<notin> fst ` set ns" using a by auto
    then have "AList.delete t ns = ns" by (simp add: delete_id)
    with True a show ?thesis by simp
  next
    case False
    with Cons a show ?thesis by (simp add: add.assoc)
  qed
qed

lemma set_child_entries:
  assumes "wf_level l"
  shows "mset (level_entries (set_child k n l)) + mset (child_entries k (level_child k l))
    = mset (level_entries l) + mset (map (apfst (Cons k)) (node_entries n))"
proof (cases l)
  case (Level ns p f)
  show ?thesis
  proof (cases k)
    case (Lit t)
    then show ?thesis
      using assms Level alist_update_entries [of ns "\<lambda>(t, n). map (apfst (Cons (Lit t))) (node_entries n)" t n]
      by (cases "map_of ns t") (simp_all add: level_entries_alt child_entries_def algebra_simps)
  qed (simp_all add: Level child_entries_def algebra_simps)
qed

lemma pruneNode_entries:
  assumes "wf_level l"
  shows "mset (level_entries (pruneNode k l)) + mset (child_entries k (level_child k l))
    = mset (level_entries l)"
proof (cases l)
  case (Level ns p f)
  show ?thesis
  proof (cases k)
    case (Lit t)
    then show ?thesis
      using assms Level alist_delete_entries [of ns "\<lambda>(t, n). map (apfst (Cons (Lit t))) (node_entries n)" t]
      by (cases "map_of ns t") (simp_all add: level_entries_alt child_entries_def algebra_simps)
  qed (simp_all add: Level child_entries_def algebra_simps)
qed

section \<open>Queue groups\<close>

lemma bytes_equal_Some [simp]: "bytes_equal (Some a) (Some b) \<longleftrightarrow> a = b"
  by (simp add: bytes_equal_def)

lemma wf_group_ne: "wf_group g \<Longrightarrow> g \<noteq> []"
  by (simp add: wf_group_def)

lemma wf_group_queue: "wf_group g \<Longrightarrow> \<exists>q. sub_queue (hd g) = Some q"
  by (auto simp: wf_group_def)

lemma wf_group_same: "wf_group g \<Longrightarrow> s \<in> set g \<Longrightarrow> sub_queue s = sub_queue (hd g)"
  by (auto simp: wf_group_def)

lemma wf_group_code [code]:
  "wf_group g \<longleftrightarrow> g \<noteq> [] \<and> sub_queue (hd g) \<noteq> None \<and> (\<forall>s \<in> set g. sub_queue s = sub_queue (hd g))"
proof (cases g)
  case Nil
  then show ?thesis by (simp add: wf_group_def)
next
  case (Cons s g')
  then show ?thesis by (cases "sub_queue s") (auto simp: wf_group_def)
qed

lemma wf_group_single [simp]: "wf_group [s] \<longleftrightarrow> sub_queue s \<noteq> None"
  by (auto simp: wf_group_def)

lemma wf_groups_simps [wf_simps]:
  "wf_groups []"
  "wf_groups (g # gs) \<longleftrightarrow>
     wf_group g \<and> wf_groups gs \<and> sub_queue (hd g) \<notin> (\<lambda>g. sub_queue (hd g)) ` set gs"
  by (auto simp: wf_groups_def)

lemma wf_groups_append [wf_simps]:
  "wf_groups (gs @ [g]) \<longleftrightarrow>
     wf_groups gs \<and> wf_group g \<and> sub_queue (hd g) \<notin> (\<lambda>g. sub_queue (hd g)) ` set gs"
  by (auto simp: wf_groups_def)

lemma find_qslice_Some:
  assumes "find_qslice (Some q) i qs = Some j" "wf_groups qs"
  shows "i \<le> j \<and> j - i < length qs \<and> wf_group (qs ! (j - i)) \<and> sub_queue (hd (qs ! (j - i))) = Some q"
  using assms
proof (induction "Some q" i qs rule: find_qslice.induct)
  case (1 i)
  then show ?case by simp
next
  case (2 i g qs)
  show ?case
  proof (cases "length g > 0 \<and> bytes_equal (Some q) (sub_queue (g ! 0))")
    case True
    with "2.prems" wf_group_queue [of g] show ?thesis
      by (auto simp: wf_simps hd_conv_nth)
  next
    case False
    with 2 have "Suc i \<le> j \<and> j - Suc i < length qs \<and> wf_group (qs ! (j - Suc i)) \<and>
        sub_queue (hd (qs ! (j - Suc i))) = Some q"
      by (auto simp: wf_simps split: if_splits)
    moreover from this have "j - i = Suc (j - Suc i)" by linarith
    ultimately show ?thesis by simp
  qed
qed

lemma find_qslice_None:
  "find_qslice (Some q) i qs = None \<Longrightarrow> wf_groups qs \<Longrightarrow>
   Some q \<notin> (\<lambda>g. sub_queue (hd g)) ` set qs"
proof (induction "Some q" i qs rule: find_qslice.induct)
  case (2 i g qs)
  then have c: "\<not> (length g > 0 \<and> bytes_equal (Some q) (sub_queue (g ! 0)))" by auto
  with 2 have "Some q \<notin> (\<lambda>g. sub_queue (hd g)) ` set qs"
    by (auto simp: wf_simps)
  moreover from c "2.prems" have "sub_queue (hd g) \<noteq> Some q"
    using wf_group_ne [of g] by (auto simp: wf_simps hd_conv_nth)
  ultimately show ?case by auto
qed simp

lemmas findQSlice_Some = find_qslice_Some [where i = 0, simplified]
lemmas findQSlice_None = find_qslice_None [where i = 0]

lemma mset_concat_update:
  "i < length gs \<Longrightarrow> mset (concat (gs[i := gs ! i @ xs])) = mset (concat gs) + mset xs"
proof (induction gs arbitrary: i)
  case Nil
  then show ?case by simp
next
  case (Cons g gs)
  then show ?case by (cases i) (simp_all add: algebra_simps)
qed

lemma wf_groups_update:
  assumes "wf_groups gs" "i < length gs" "wf_group g" "sub_queue (hd g) = sub_queue (hd (gs ! i))"
  shows "wf_groups (gs[i := g])"
proof -
  have "map (\<lambda>g. sub_queue (hd g)) (gs[i := g]) = map (\<lambda>g. sub_queue (hd g)) gs"
    using assms(2,4) by (metis list_update_id map_update nth_map)
  with assms(1,3) show ?thesis
    by (auto simp: wf_groups_def dest: subsetD [OF set_update_subset_insert])
qed

lemma wf_group_append:
  assumes "wf_group g" "\<And>s. s \<in> set xs \<Longrightarrow> sub_queue s = sub_queue (hd g)"
  shows "wf_group (g @ xs)"
proof -
  from assms(1) obtain q where "g \<noteq> []" "\<forall>s \<in> set g. sub_queue s = Some q"
    by (auto simp: wf_group_def)
  then show ?thesis
    using assms(2) unfolding wf_group_def by (intro conjI exI [of _ q]) auto
qed

lemma add_qsub_correct:
  assumes "wf_groups qs" "sub_queue sub = Some q"
  shows "wf_groups (add_qsub sub qs) \<and> mset (concat (add_qsub sub qs)) = mset (concat qs) + {#sub#}"
proof (cases "findQSliceForSub sub qs")
  case None
  with assms findQSlice_None [of q qs] show ?thesis
    by (simp add: add_qsub_def findQSliceForSub_def wf_simps)
next
  case (Some i)
  with assms findQSlice_Some [of q qs i]
  have i: "i < length qs" "wf_group (qs ! i)" "sub_queue (hd (qs ! i)) = Some q"
    by (simp_all add: findQSliceForSub_def)
  have "wf_group (qs ! i @ [sub])"
    using i assms(2) by (intro wf_group_append) simp_all
  moreover have "hd (qs ! i @ [sub]) = hd (qs ! i)"
    using wf_group_ne [OF i(2)] by simp
  ultimately have "wf_groups (qs[i := qs ! i @ [sub]])"
    using i assms(1) by (intro wf_groups_update) simp_all
  with Some i show ?thesis by (simp add: add_qsub_def mset_concat_update)
qed

lemma add_groups_correct:
  assumes "wf_groups rs" "wf_groups qs"
  shows "wf_groups (add_groups rs qs) \<and> mset (concat (add_groups rs qs)) = mset (concat rs) + mset (concat qs)"
  using assms
proof (induction rs qs rule: add_groups.induct)
  case (1 rs)
  then show ?case by simp
next
  case (2 rs g qs)
  then have g: "wf_group g" "wf_groups qs" by (auto simp: wf_simps)
  then obtain q where q: "sub_queue (hd g) = Some q" "g \<noteq> []"
    using wf_group_ne wf_group_queue by blast
  then have q0: "sub_queue (g ! 0) = Some q" by (simp add: hd_conv_nth)
  show ?case
  proof (cases "findQSliceForSub (g ! 0) rs")
    case None
    then have "wf_groups (rs @ [g])"
      using "2.prems" g q q0 findQSlice_None [of q rs]
      by (auto simp: findQSliceForSub_def wf_simps)
    with None g(2) q(2) "2.IH"(2) show ?thesis by (simp add: algebra_simps)
  next
    case (Some i)
    then have i: "i < length rs" "wf_group (rs ! i)" "sub_queue (hd (rs ! i)) = Some q"
      using "2.prems" q0 findQSlice_Some [of q rs i] by (auto simp: findQSliceForSub_def)
    have "wf_group (rs ! i @ g)"
      using i(2,3) q(1) wf_group_same [OF g(1)] by (intro wf_group_append) simp_all
    moreover have "hd (rs ! i @ g) = hd (rs ! i)"
      using wf_group_ne [OF i(2)] by simp
    ultimately have "wf_groups (rs[i := rs ! i @ g])"
      using i(1) "2.prems"(1) by (intro wf_groups_update) simp_all
    with Some i(1) g(2) q(2) "2.IH"(3) show ?thesis
      by (simp add: mset_concat_update algebra_simps)
  qed
qed

section \<open>Match returns exactly the matching entries\<close>

definition matching :: "bytes list \<Rightarrow> (key list \<times> subscription) list \<Rightarrow> subscription list" where
  "matching ts es = map snd (filter (\<lambda>(q, s). path_matches q ts) es)"

definition result_subs :: "SublistResult \<Rightarrow> subscription list" where
  "result_subs r = res_psubs r @ concat (res_qsubs r)"

definition wf_result :: "SublistResult \<Rightarrow> bool" where
  "wf_result r \<longleftrightarrow> (\<forall>s \<in> set (res_psubs r). sub_queue s = None) \<and> wf_groups (res_qsubs r)"

lemma matching_Nil [simp]: "matching ts [] = []"
  by (simp add: matching_def)

lemma matching_append [simp]: "matching ts (xs @ ys) = matching ts xs @ matching ts ys"
  by (simp add: matching_def)

lemma matching_concat: "matching ts (concat xss) = concat (map (matching ts) xss)"
  by (induction xss) simp_all

lemma matching_Cons_key:
  "matching (t # ts) (map (apfst (Cons (Lit u))) es) = (if u = t then matching ts es else [])"
  "matching (t # ts) (map (apfst (Cons PWC)) es) = matching ts es"
  "matching (t # ts) (map (apfst (Cons FWC)) es) = matching [] es"
  by (induction es) (auto simp: matching_def)

lemma matching_here [simp]: "matching ts (map (Pair []) ss) = (if ts = [] then ss else [])"
  by (induction ss) (auto simp: matching_def)

lemma matching_cong_mset: "mset es = mset es' \<Longrightarrow> mset (matching ts es) = mset (matching ts es')"
  by (simp add: matching_def)

lemma level_paths_ne: "(q, s) \<in> set (level_entries l) \<Longrightarrow> q \<noteq> []"
  by (cases l) (auto simp: level_entries_alt child_entries_def split: option.splits)

lemma matching_opt_Nil [simp]: "matching [] (opt_entries lo) = []"
  by (auto simp: matching_def opt_entries_def filter_empty_conv dest: level_paths_ne split: option.splits)

lemma matching_node:
  "matching ts (node_entries n) = (if ts = [] then node_subs n else matching ts (opt_entries (node_next n)))"
  by (simp add: node_entries_alt)

lemma concat_map_of:
  assumes "distinct (map fst ns)"
  shows "concat (map (\<lambda>(u, n). if u = t then f n else []) ns) =
    (case map_of ns t of None \<Rightarrow> [] | Some n \<Rightarrow> f n)"
  using assms
proof (induction ns)
  case Nil
  then show ?case by simp
next
  case (Cons a ns)
  have "map_of ns t = None" if "fst a = t"
    using Cons.prems that by (auto simp: map_of_eq_None_iff)
  with Cons show ?case by (cases a) auto
qed

lemma matching_level:
  assumes "wf_level l"
  shows "matching (t # ts) (level_entries l) =
    (case map_of (level_nodes l) t of None \<Rightarrow> [] | Some n \<Rightarrow> matching ts (node_entries n)) @
    (case level_pwc l of None \<Rightarrow> [] | Some n \<Rightarrow> matching ts (node_entries n)) @
    (case level_fwc l of None \<Rightarrow> [] | Some n \<Rightarrow> node_subs n)"
proof (cases l)
  case (Level ns p f)
  have "matching (t # ts) (concat (map (\<lambda>(u, n). map (apfst (Cons (Lit u))) (node_entries n)) ns)) =
      concat (map (\<lambda>(u, n). if u = t then matching ts (node_entries n) else []) ns)"
    unfolding matching_concat map_map
    by (rule arg_cong [where f = concat], rule map_cong) (auto simp: matching_Cons_key)
  with assms Level show ?thesis
    by (simp add: level_entries_alt child_entries_def concat_map_of matching_Cons_key
        matching_node split: option.split)
qed

lemma wf_children:
  "wf_level l \<Longrightarrow> level_child k l = Some n \<Longrightarrow> wf_node n"
  by (cases l; cases k) (auto dest!: map_of_SomeD)

lemmas wf_literal_child = wf_children [where k = "Lit t" for t, simplified]
lemmas wf_pwc_child = wf_children [where k = PWC, simplified]
lemmas wf_fwc_child = wf_children [where k = FWC, simplified]

definition wf_opt :: "level option \<Rightarrow> bool" where
  "wf_opt lo = (case lo of None \<Rightarrow> True | Some l \<Rightarrow> wf_level l)"

lemma wf_node_next: "wf_node n \<Longrightarrow> wf_opt (node_next n)"
  by (cases n) (auto simp: wf_opt_def)

lemma addNodeToResults_correct:
  assumes "wf_result r" "wf_node n"
  shows "wf_result (addNodeToResults n r)"
    and "mset (result_subs (addNodeToResults n r)) = mset (result_subs r) + mset (node_subs n)"
  using assms add_groups_correct [of "res_qsubs r" "node_qsubs n"]
  by (cases n; auto simp: wf_result_def addNodeToResults_def result_subs_def node_subs_def)+

lemma add_opt_node_correct:
  assumes "wf_result r" "\<And>n. no = Some n \<Longrightarrow> wf_node n"
  shows "wf_result (add_opt_node no r)"
    and "mset (result_subs (add_opt_node no r)) =
      mset (result_subs r) + mset (case no of None \<Rightarrow> [] | Some n \<Rightarrow> node_subs n)"
  using assms addNodeToResults_correct [of r] by (cases no; simp add: add_opt_node_def)+

lemma matchLevel_correct:
  assumes "wf_opt lo" "wf_result r"
  shows "wf_result (matchLevel lo ts r) \<and>
    mset (result_subs (matchLevel lo ts r)) = mset (result_subs r) + mset (matching ts (opt_entries lo))"
  using assms
proof (induction lo ts r rule: matchLevel.induct)
  case (1 lo r)
  then show ?case by simp
next
  case (2 t ts r)
  then show ?case by (simp add: opt_entries_def)
next
  case (3 l t ts r)
  let ?r1 = "add_opt_node (level_fwc l) r"
  let ?r2 = "case level_pwc l of None \<Rightarrow> ?r1 | Some p \<Rightarrow> matchLevel (node_next p) ts ?r1"
  let ?n = "map_of (level_nodes l) t"
  from "3.prems" have wf: "wf_level l" by (simp add: wf_opt_def)
  note r1 = add_opt_node_correct [OF "3.prems"(2) wf_fwc_child [OF wf]]
  have r2: "wf_result ?r2 \<and> mset (result_subs ?r2) = mset (result_subs ?r1) +
      mset (case level_pwc l of None \<Rightarrow> [] | Some p \<Rightarrow> matching ts (opt_entries (node_next p)))"
    using r1(1) "3.IH"(1) [OF refl _ _ r1(1)] wf_node_next [OF wf_pwc_child [OF wf]]
    by (cases "level_pwc l") auto
  then have wf2: "wf_result ?r2" ..
  show ?case
  proof (cases "ts = []")
    case True
    note r3 = add_opt_node_correct [OF wf2 wf_literal_child [OF wf, where t = t]]
    note r4 = add_opt_node_correct [OF r3(1) wf_pwc_child [OF wf]]
    have "?r2 = ?r1" using True by (simp split: option.split)
    with True r1 r3 r4 show ?thesis
      by (simp add: Let_def opt_entries_def matching_level [OF wf] matching_node cong: option.case_cong)
  next
    case False
    let ?lo = "case ?n of None \<Rightarrow> None | Some n \<Rightarrow> node_next n"
    have "wf_opt ?lo" using wf_node_next [OF wf_literal_child [OF wf, of t]]
      by (cases ?n) (auto simp: wf_opt_def)
    then have "wf_result (matchLevel ?lo ts ?r2) \<and>
        mset (result_subs (matchLevel ?lo ts ?r2)) = mset (result_subs ?r2) + mset (matching ts (opt_entries ?lo))"
      using wf2 False by (intro "3.IH"(2) [OF refl refl refl]) simp_all
    moreover have "matching ts (opt_entries ?lo) =
        (case ?n of None \<Rightarrow> [] | Some n \<Rightarrow> matching ts (opt_entries (node_next n)))"
      by (simp add: opt_entries_def split: option.split)
    ultimately show ?thesis
      using False r1 r2
      by (simp add: Let_def opt_entries_def [of "Some l"] matching_level [OF wf] matching_node cong: option.case_cong)
  qed
qed

section \<open>Insert adds one entry\<close>

lemma wf_newNode [simp]: "wf_node newNode"
  by (simp add: newNode_def wf_simps)

lemma wf_newLevel [simp]: "wf_level newLevel"
  by (simp add: newLevel_def)

lemma node_entries_newNode [simp]: "node_entries newNode = []"
  by (simp add: newNode_def)

lemma wf_set_child [wf_intros]: "wf_level l \<Longrightarrow> wf_node n \<Longrightarrow> wf_level (set_child k n l)"
  by (cases l; cases k) (auto simp: distinct_update dest: set_mp [OF alist_update_subset])

lemma wf_pruneNode [wf_intros]: "wf_level l \<Longrightarrow> wf_level (pruneNode k l)"
  by (cases l; cases k) (auto simp: AList.delete_eq distinct_map_filter)

lemma mset_key_cancel:
  assumes "A + mset (map (apfst (Cons k)) es) = B + mset (map (apfst (Cons k)) es')"
    "mset es' = mset es + X"
  shows "A = B + image_mset (apfst (Cons k)) X"
proof -
  have "mset (map (apfst (Cons k)) es') = mset (map (apfst (Cons k)) es) + image_mset (apfst (Cons k)) X"
    using assms(2) by simp
  with assms(1) show ?thesis by (simp add: union_assoc add.commute add.left_commute)
qed

text \<open>The node of a token, created with its next level when missing: no entries change.\<close>

definition child_or_new :: "key \<Rightarrow> level \<Rightarrow> node" where
  "child_or_new k l = (case level_child k l of None \<Rightarrow> newNode | Some n \<Rightarrow> n)"

definition next_or_new :: "node \<Rightarrow> level" where
  "next_or_new n = (case node_next n of None \<Rightarrow> newLevel | Some l \<Rightarrow> l)"

lemma child_or_new_facts:
  assumes "wf_level l"
  shows "wf_node (child_or_new k l)"
    and "child_entries k (level_child k l) = map (apfst (Cons k)) (node_entries (child_or_new k l))"
  using wf_children [OF assms, of k]
  by (auto simp: child_or_new_def child_entries_def split: option.split)

lemma next_or_new_facts:
  assumes "wf_node n"
  shows "wf_level (next_or_new n)" and "opt_entries (node_next n) = level_entries (next_or_new n)"
  using wf_node_next [OF assms]
  by (auto simp: next_or_new_def wf_opt_def opt_entries_def split: option.split)

lemma wf_node_sel: "wf_node n \<longleftrightarrow> (\<forall>s \<in> set (node_psubs n). sub_queue s = None) \<and>
    wf_groups (node_qsubs n) \<and> wf_opt (node_next n)"
  by (cases n) (simp add: wf_opt_def)

lemma node_add_sub_correct:
  assumes "wf_node n"
  shows "wf_node (node_add_sub sub n)"
    and "mset (node_entries (node_add_sub sub n)) = mset (node_entries n) + {#([], sub)#}"
  using assms add_qsub_correct [of "node_qsubs n" sub]
  by (cases "sub_queue sub";
      auto simp: wf_node_sel node_add_sub_def node_entries_alt node_subs_def)+

lemma set_child_adds:
  assumes "wf_level l" "wf_node n'" "mset (node_entries n') = mset (node_entries (child_or_new k l)) + X"
  shows "wf_level (set_child k n' l)"
    and "mset (level_entries (set_child k n' l)) = mset (level_entries l) + image_mset (apfst (Cons k)) X"
  using assms set_child_entries [OF assms(1), of k n'] child_or_new_facts [OF assms(1), of k]
  by (auto intro: wf_intros mset_key_cancel [OF _ assms(3)])

text \<open>The subjects that Insert accepts: no empty token, and nothing after a full wildcard.\<close>

fun insertable :: "bytes list \<Rightarrow> bool" where
  "insertable [] = True"
| "insertable (t # ts) = (t \<noteq> [] \<and> (key_of t = FWC \<longrightarrow> ts = []) \<and> insertable ts)"

lemma insert_loop_error:
  "fst (insert_loop sfwc sub ts l) = (if insertable ts \<and> (sfwc \<longrightarrow> ts = []) then None else Some ErrInvalidSubject)"
  by (induction sfwc sub ts l rule: insert_loop.induct) (auto simp: Let_def split: prod.splits)

lemma insert_loop_Cons:
  assumes "t \<noteq> []"
  shows "insert_loop False sub (t # ts) l =
    (let k = key_of t; n = child_or_new k l; n1 = Node (Some (next_or_new n)) (node_psubs n) (node_qsubs n)
     in if ts = [] then (None, set_child k (node_add_sub sub n1) l)
        else let (e, l2) = insert_loop (k = FWC) sub ts (next_or_new n)
             in (e, set_child k (Node (Some l2) (node_psubs n) (node_qsubs n)) l))"
  using assms by (simp add: Let_def child_or_new_def next_or_new_def)

lemma insert_loop_correct:
  assumes "wf_level l" "insert_loop sfwc sub ts l = (e, l')" "ts \<noteq> []"
  shows "wf_level l' \<and> mset (level_entries l') =
    mset (level_entries l) + (if e = None then {#(map key_of ts, sub)#} else {#})"
  using assms
proof (induction ts arbitrary: sfwc l l' e)
  case Nil
  then show ?case by simp
next
  case (Cons t ts)
  show ?case
  proof (cases "t = [] \<or> sfwc")
    case True
    with Cons.prems show ?thesis by auto
  next
    case False
    let ?k = "key_of t"
    let ?n = "child_or_new ?k l"
    note wf = child_or_new_facts(1) [OF Cons.prems(1), of ?k]
    note nx = next_or_new_facts [OF wf]
    have loop: "insert_loop False sub (t # ts) l = (e, l')"
      using Cons.prems(2) False by simp
    show ?thesis
    proof (cases "ts = []")
      case True
      let ?n1 = "Node (Some (next_or_new ?n)) (node_psubs ?n) (node_qsubs ?n)"
      have n1: "wf_node ?n1" "node_entries ?n1 = node_entries ?n"
        using wf nx by (auto simp: wf_node_sel wf_opt_def node_entries_alt node_subs_def opt_entries_def)
      note n2 = node_add_sub_correct [OF n1(1), of sub]
      note set_child_adds [OF Cons.prems(1) n2(1) n2(2) [unfolded n1(2)]]
      with True loop False show ?thesis by (auto simp: insert_loop_Cons Let_def simp del: insert_loop.simps)
    next
      case more: False
      obtain l2 where l2: "insert_loop (?k = FWC) sub ts (next_or_new ?n) = (e, l2)"
          "l' = set_child ?k (Node (Some l2) (node_psubs ?n) (node_qsubs ?n)) l"
        using loop more False by (auto simp: insert_loop_Cons Let_def simp del: insert_loop.simps split: prod.splits)
      note IH = Cons.IH [OF nx(1) l2(1) more]
      let ?n2 = "Node (Some l2) (node_psubs ?n) (node_qsubs ?n)"
      have "wf_node ?n2"
        using wf IH by (auto simp: wf_node_sel wf_opt_def)
      moreover have "mset (node_entries ?n2) = mset (node_entries ?n) +
          (if e = None then {#(map key_of ts, sub)#} else {#})"
        using IH nx by (simp add: node_entries_alt node_subs_def opt_entries_def)
      ultimately show ?thesis
        using set_child_adds [OF Cons.prems(1), of ?n2 ?k] l2(2) by simp
    qed
  qed
qed

section \<open>Remove deletes one entry\<close>

lemma mset_swap_remove:
  assumes "i < length xs"
  shows "add_mset (xs ! i) (mset (butlast (xs[i := last xs]))) = mset xs"
proof (cases xs rule: rev_cases)
  case Nil
  with assms show ?thesis by simp
next
  case (snoc ys y)
  with assms show ?thesis
    by (cases "i < length ys")
      (auto simp: list_update_append nth_append mset_update less_Suc_eq add_mset_commute)
qed

lemma find_ptr_Some:
  "find_ptr p i sl = Some j \<Longrightarrow> i \<le> j \<and> j - i < length sl \<and> sub_ptr (sl ! (j - i)) = p"
proof (induction p i sl rule: find_ptr.induct)
  case (2 p i s sl)
  show ?case
  proof (cases "sub_ptr s = p")
    case False
    with 2 have "Suc i \<le> j \<and> j - Suc i < length sl \<and> sub_ptr (sl ! (j - Suc i)) = p" by simp
    moreover from this have "j - i = Suc (j - Suc i)" by linarith
    ultimately show ?thesis by simp
  qed (use 2 in auto)
qed simp

lemma find_ptr_None: "find_ptr p i sl = None \<longleftrightarrow> p \<notin> sub_ptr ` set sl"
  by (induction p i sl rule: find_ptr.induct) auto

lemma removeSubFromList_False:
  "removeSubFromList sub sl = (sl', False) \<Longrightarrow> sl' = sl \<and> sub_ptr sub \<notin> sub_ptr ` set sl"
  by (auto simp: removeSubFromList_def find_ptr_None split: option.splits)

lemma removeSubFromList_True:
  assumes "removeSubFromList sub sl = (sl', True)"
  obtains s where "sub_ptr s = sub_ptr sub" "mset sl = add_mset s (mset sl')"
proof -
  from assms obtain i where i: "find_ptr (sub_ptr sub) 0 sl = Some i" "sl' = butlast (sl[i := last sl])"
    by (auto simp: removeSubFromList_def split: option.splits)
  with find_ptr_Some [OF i(1)] show ?thesis
    by (intro that [of "sl ! i"]) (auto simp: mset_swap_remove)
qed

lemma wf_groups_perm: "mset gs = mset hs \<Longrightarrow> wf_groups gs = wf_groups hs"
  unfolding wf_groups_def
  by (metis mset_eq_imp_distinct_iff mset_eq_setD mset_map)

lemma wf_group_sub:
  assumes "wf_group g" "set g' \<subseteq> set g" "g' \<noteq> []"
  shows "wf_group g'" and "sub_queue (hd g') = sub_queue (hd g)"
proof -
  show "wf_group g'" using assms by (auto simp: wf_group_def)
  show "sub_queue (hd g') = sub_queue (hd g)"
    using assms by (intro wf_group_same) (auto dest: hd_in_set)
qed

lemma mset_concat_replace:
  "i < length gs \<Longrightarrow> mset (concat (gs[i := g])) + mset (gs ! i) = mset (concat gs) + mset g"
proof (induction gs arbitrary: i)
  case Nil
  then show ?case by simp
next
  case (Cons h gs)
  then show ?case by (cases i) (simp_all add: algebra_simps)
qed

lemma mset_concat_perm: "mset xs = mset ys \<Longrightarrow> mset (concat xs) = mset (concat ys)"
  by (metis mset_concat mset_map sum_mset_sum_list)

text \<open>What is left of the groups after a member of group \<open>i\<close> went away.\<close>

definition drop_group :: "nat \<Rightarrow> subscription list \<Rightarrow> subscription list list \<Rightarrow> subscription list list" where
  "drop_group i g gs = (if length g = 0 then butlast (gs[i := g, i := last (gs[i := g])]) else gs[i := g])"

lemma drop_group_correct:
  assumes "wf_groups gs" "i < length gs" "mset (gs ! i) = add_mset s (mset g)"
  shows "wf_groups (drop_group i g gs) \<and> mset (concat gs) = add_mset s (mset (concat (drop_group i g gs)))"
proof (cases "g = []")
  case True
  let ?hs = "gs[i := []]"
  have perm: "add_mset [] (mset (butlast (?hs[i := last ?hs]))) = mset ?hs"
    using mset_swap_remove [of i ?hs] assms(2) by simp
  then have "add_mset (gs ! i) (mset (butlast (?hs[i := last ?hs]))) = mset gs"
    using assms(2) by (simp add: mset_update)
  then have "mset (gs ! i # butlast (?hs[i := last ?hs])) = mset gs" by simp
  with assms(1) have "wf_groups (butlast (?hs[i := last ?hs]))"
    using wf_groups_perm [of _ gs] by (metis wf_groups_simps(2))
  moreover have "mset (concat ?hs) = mset (concat (butlast (?hs[i := last ?hs])))"
    using mset_concat_perm [of "[] # butlast (?hs[i := last ?hs])" ?hs] perm by simp
  ultimately show ?thesis
    using True assms(2,3) mset_concat_replace [of i gs "[]"] by (simp add: drop_group_def)
next
  case False
  have "set g \<subseteq> set (gs ! i)" using assms(3) by (metis set_mset_add_mset_insert set_mset_mset subset_insertI)
  moreover have "wf_group (gs ! i)" using assms(1,2) by (auto simp: wf_groups_def)
  ultimately have "wf_groups (gs[i := g])"
    using wf_group_sub [of "gs ! i" g] False assms(1,2) by (intro wf_groups_update) auto
  then show ?thesis
    using False assms(2,3) mset_concat_replace [of i gs g]
    by (simp add: drop_group_def)
qed

lemma removeFromNode_queue:
  assumes "sub_queue sub = Some q" "findQSliceForSub sub (node_qsubs n) = Some i"
  shows "removeFromNode sub n =
    (let (g, found) = removeSubFromList sub (node_qsubs n ! i)
     in (Node (node_next n) (node_psubs n) (drop_group i g (node_qsubs n)), found))"
  using assms by (simp add: removeFromNode_def drop_group_def Let_def split: prod.split)

lemma drop_group_id: "i < length gs \<Longrightarrow> gs ! i \<noteq> [] \<Longrightarrow> drop_group i (gs ! i) gs = gs"
  by (simp add: drop_group_def)

lemma wf_groups_same: "wf_groups gs \<Longrightarrow> g \<in> set gs \<Longrightarrow> s \<in> set g \<Longrightarrow> sub_queue s = sub_queue (hd g)"
  by (simp add: wf_groups_def wf_group_same)

lemma wf_groups_unique:
  "wf_groups gs \<Longrightarrow> g \<in> set gs \<Longrightarrow> h \<in> set gs \<Longrightarrow> sub_queue (hd g) = sub_queue (hd h) \<Longrightarrow> g = h"
  by (simp add: wf_groups_def distinct_map inj_on_def)

lemma removeFromNode_False:
  assumes "wf_node n" "removeFromNode sub n = (n', False)"
  shows "n' = n" and "sub \<notin> set (node_subs n)"
proof -
  have gs: "wf_groups (node_qsubs n)" using assms(1) by (simp add: wf_node_sel)
  have "n' = n \<and> sub \<notin> set (node_subs n)"
  proof (cases "sub_queue sub")
    case None
    with gs have "sub \<notin> set (concat (node_qsubs n))"
      by (fastforce simp: wf_groups_def wf_group_def)
    with None assms(2) removeSubFromList_False [of sub "node_psubs n"] show ?thesis
      by (cases n) (auto simp: removeFromNode_def node_subs_def split: prod.splits)
  next
    case q: (Some q)
    have ps: "sub \<notin> set (node_psubs n)" using assms(1) q by (auto simp: wf_node_sel)
    show ?thesis
    proof (cases "findQSliceForSub sub (node_qsubs n)")
      case None
      then have "Some q \<notin> (\<lambda>g. sub_queue (hd g)) ` set (node_qsubs n)"
        using q findQSlice_None [OF _ gs] by (simp add: findQSliceForSub_def)
      then have "sub \<notin> set (concat (node_qsubs n))"
        using q wf_groups_same [OF gs] by force
      with q None ps assms(2) show ?thesis
        by (simp add: removeFromNode_def node_subs_def)
    next
      case (Some i)
      then have i: "i < length (node_qsubs n)" "wf_group (node_qsubs n ! i)" "sub_queue (hd (node_qsubs n ! i)) = Some q"
        using q findQSlice_Some [OF _ gs, of q i] by (auto simp: findQSliceForSub_def)
      obtain g where g: "removeSubFromList sub (node_qsubs n ! i) = (g, False)"
          "n' = Node (node_next n) (node_psubs n) (drop_group i g (node_qsubs n))"
        using assms(2) by (auto simp: removeFromNode_queue [OF q Some] split: prod.splits)
      note nf = removeSubFromList_False [OF g(1)]
      have "sub \<notin> set h" if "h \<in> set (node_qsubs n)" for h
        using that i nf wf_groups_same [OF gs that] wf_groups_unique [OF gs that, of "node_qsubs n ! i"] q
        by force
      with ps nf g(2) i drop_group_id [of i "node_qsubs n"] show ?thesis
        by (cases n) (auto simp: node_subs_def dest: wf_group_ne)
    qed
  qed
  then show "n' = n" "sub \<notin> set (node_subs n)" by auto
qed

lemma removeFromNode_True:
  assumes "wf_node n" "removeFromNode sub n = (n', True)"
  obtains s where "sub_ptr s = sub_ptr sub" "wf_node n'" "node_next n' = node_next n"
    "mset (node_subs n) = add_mset s (mset (node_subs n'))"
proof (cases "sub_queue sub")
  case None
  then obtain ps where ps: "removeSubFromList sub (node_psubs n) = (ps, True)" "n' = Node (node_next n) ps (node_qsubs n)"
    using assms(2) by (auto simp: removeFromNode_def split: prod.splits)
  then obtain s where s: "sub_ptr s = sub_ptr sub" "mset (node_psubs n) = add_mset s (mset ps)"
    using removeSubFromList_True by blast
  then have "set ps \<subseteq> set (node_psubs n)"
    by (metis set_mset_add_mset_insert set_mset_mset subset_insertI)
  with assms(1) ps s show ?thesis
    by (intro that [of s]) (auto simp: wf_node_sel node_subs_def)
next
  case q: (Some q)
  have gs: "wf_groups (node_qsubs n)" using assms(1) by (simp add: wf_node_sel)
  obtain i where i: "findQSliceForSub sub (node_qsubs n) = Some i"
    using assms(2) q by (auto simp: removeFromNode_def split: option.splits)
  then have len: "i < length (node_qsubs n)"
    using q findQSlice_Some [OF _ gs, of q i] by (auto simp: findQSliceForSub_def)
  obtain g where g: "removeSubFromList sub (node_qsubs n ! i) = (g, True)"
      "n' = Node (node_next n) (node_psubs n) (drop_group i g (node_qsubs n))"
    using assms(2) by (auto simp: removeFromNode_queue [OF q i] split: prod.splits)
  obtain s where s: "sub_ptr s = sub_ptr sub" "mset (node_qsubs n ! i) = add_mset s (mset g)"
    using removeSubFromList_True [OF g(1)] by blast
  with assms(1) g(2) drop_group_correct [OF gs len s(2)] show ?thesis
    by (intro that [of s]) (auto simp: wf_node_sel node_subs_def)
qed

lemma set_child_id: "level_child k l = Some n \<Longrightarrow> set_child k n l = l"
proof (cases l; cases k)
  fix ns p f t
  assume "level_child k l = Some n" "l = Level ns p f" "k = Lit t"
  moreover have "map_of ns t = Some n \<Longrightarrow> AList.update t n ns = ns" by (induction ns) auto
  ultimately show ?thesis by simp
qed auto

lemma isEmpty_entries:
  assumes "isEmpty n"
  shows "node_entries n = []"
proof (cases n)
  case (Node nx ps qs)
  have "level_entries l = []" if "numNodes l = 0" for l
    using that by (cases l) (auto simp: numNodes_def split: if_splits)
  with assms Node show ?thesis
    by (auto simp: isEmpty_def split: option.splits if_splits)
qed

text \<open>Writing back a node, or pruning it when it is empty, has the same effect on the entries.\<close>

lemma put_back_entries:
  assumes "wf_level l" "level_child k l = Some n" "wf_node n'"
    "mset (node_entries n) = add_mset (q, s) (mset (node_entries n'))"
    "l' = (if isEmpty n' then pruneNode k l else set_child k n' l)"
  shows "wf_level l' \<and> mset (level_entries l) = add_mset (k # q, s) (mset (level_entries l'))"
proof -
  have c: "mset (child_entries k (level_child k l)) = add_mset (k # q, s) (mset (map (apfst (Cons k)) (node_entries n')))"
    using assms(2,4) by (simp add: child_entries_Some)
  show ?thesis
    using c assms set_child_entries [OF assms(1), of k n'] pruneNode_entries [OF assms(1), of k]
      isEmpty_entries [of n'] by (auto intro: wf_intros)
qed

lemma key_image [simp]: "(k # q, s) \<in> apfst (Cons j) ` A \<longleftrightarrow> k = j \<and> (q, s) \<in> A"
  by (force simp: apfst_def map_prod_def)

lemma entries_child:
  "wf_level l \<Longrightarrow> (k # q, s) \<in> set (level_entries l) \<longleftrightarrow>
     (\<exists>n. level_child k l = Some n \<and> (q, s) \<in> set (node_entries n))"
  by (cases l; cases k)
    (auto simp: level_entries_alt child_entries_def map_of_eq_Some_iff split: option.splits)

text \<open>One iteration of the loop at a node that exists.\<close>

definition remove_at :: "subscription \<Rightarrow> key \<Rightarrow> bytes list \<Rightarrow> node \<Rightarrow> sl_error option \<times> node" where
  "remove_at sub k ts n =
     (if ts = [] then
        let (n1, found) = removeFromNode sub n in (if found then None else Some ErrNotFound, n1)
      else
        let (e, l1) = remove_loop (k = FWC) sub ts (node_next n)
        in (e, Node l1 (node_psubs n) (node_qsubs n)))"

lemma remove_loop_step:
  assumes "t \<noteq> []" "\<not> sfwc" "level_child (key_of t) l = Some n" "remove_at sub (key_of t) ts n = (e, n')"
  shows "remove_loop sfwc sub (t # ts) (Some l) =
    (e, Some (if e = None \<and> isEmpty n' then pruneNode (key_of t) l else set_child (key_of t) n' l))"
  using assms by (simp add: remove_at_def Let_def)

lemma remove_loop_None: "fst (remove_loop sfwc sub ts None) \<noteq> None \<and> snd (remove_loop sfwc sub ts None) = None"
  by (cases ts) auto

lemma remove_at_correct:
  assumes "wf_node n" "remove_at sub k ts n = (e, n')"
    and rec: "\<And>e l'. remove_loop (k = FWC) sub ts (node_next n) = (e, l') \<Longrightarrow> (case e of
      None \<Rightarrow> wf_opt l' \<and> (\<exists>s. sub_ptr s = sub_ptr sub \<and>
        mset (opt_entries (node_next n)) = add_mset (map f ts, s) (mset (opt_entries l')))
    | Some _ \<Rightarrow> l' = node_next n \<and>
        (insertable ts \<longrightarrow> k \<noteq> FWC \<longrightarrow> (map f ts, sub) \<notin> set (opt_entries (node_next n))))"
  shows "(case e of
      None \<Rightarrow> wf_node n' \<and> (\<exists>s. sub_ptr s = sub_ptr sub \<and>
        mset (node_entries n) = add_mset (map f ts, s) (mset (node_entries n')))
    | Some _ \<Rightarrow> n' = n \<and>
        (insertable ts \<longrightarrow> (k = FWC \<longrightarrow> ts = []) \<longrightarrow> (map f ts, sub) \<notin> set (node_entries n)))"
proof (cases "ts = []")
  case True
  obtain found where r: "removeFromNode sub n = (n', found)" "e = (if found then None else Some ErrNotFound)"
    using assms(2) True by (auto simp: remove_at_def split: prod.splits)
  show ?thesis
  proof (cases found)
    case True
    with r have "removeFromNode sub n = (n', True)" by simp
    then obtain s where "sub_ptr s = sub_ptr sub" "wf_node n'"
        "node_next n' = node_next n" "mset (node_subs n) = add_mset s (mset (node_subs n'))"
      by (rule removeFromNode_True [OF assms(1)])
    with r True \<open>ts = []\<close> show ?thesis by (auto simp: node_entries_alt)
  next
    case False
    with r \<open>ts = []\<close> show ?thesis
      using removeFromNode_False [OF assms(1), of sub n']
      by (auto simp: node_entries_alt opt_entries_def dest: level_paths_ne split: option.splits)
  qed
next
  case False
  then obtain l1 where r: "remove_loop (k = FWC) sub ts (node_next n) = (e, l1)" "n' = Node l1 (node_psubs n) (node_qsubs n)"
    using assms(2) by (auto simp: remove_at_def split: prod.splits)
  from rec [OF r(1)] show ?thesis
    using r(2) False assms(1)
    by (cases e) (auto simp: wf_node_sel node_entries_alt node_subs_def)
qed

lemma remove_loop_correct:
  assumes "wf_opt lo" "remove_loop sfwc sub ts lo = (e, lo')"
  shows "(case e of
      None \<Rightarrow> wf_opt lo' \<and> (\<exists>s. sub_ptr s = sub_ptr sub \<and>
        mset (opt_entries lo) = add_mset (map key_of ts, s) (mset (opt_entries lo')))
    | Some _ \<Rightarrow> lo' = lo \<and> (insertable ts \<longrightarrow> \<not> sfwc \<longrightarrow> (map key_of ts, sub) \<notin> set (opt_entries lo)))"
  using assms
proof (induction ts arbitrary: sfwc lo lo' e)
  case Nil
  then show ?case by (auto simp: opt_entries_def dest: level_paths_ne split: option.splits)
next
  case (Cons t ts)
  consider (invalid) "t = [] \<or> sfwc" | (nil) "t \<noteq> []" "\<not> sfwc" "lo = None"
    | (missing) l where "t \<noteq> []" "\<not> sfwc" "lo = Some l" "level_child (key_of t) l = None"
    | (node) l n where "t \<noteq> []" "\<not> sfwc" "lo = Some l" "level_child (key_of t) l = Some n"
    by (metis not_Some_eq)
  then show ?case
  proof cases
    case invalid
    with Cons.prems show ?thesis by auto
  next
    case nil
    with Cons.prems show ?thesis by (auto simp: opt_entries_def)
  next
    case missing
    with Cons.prems remove_loop_None [of "key_of t = FWC" sub ts]
    have e: "e \<noteq> None" "lo' = lo" by (cases e, auto split: if_splits)+
    have "(key_of t # q, s) \<notin> set (level_entries l)" for q s
      using missing Cons.prems(1) by (simp add: entries_child wf_opt_def)
    with e missing show ?thesis by (auto simp: opt_entries_def)
  next
    case node
    obtain n' where at: "remove_at sub (key_of t) ts n = (e, n')"
      and lo': "lo' = Some (if e = None \<and> isEmpty n' then pruneNode (key_of t) l else set_child (key_of t) n' l)"
      using Cons.prems(2) node remove_loop_step [OF node(1,2,4), of sub ts]
      by (cases "remove_at sub (key_of t) ts n") auto
    from node Cons.prems(1) have wf: "wf_level l" "wf_node n"
      using wf_children by (auto simp: wf_opt_def)
    note step = remove_at_correct [OF wf(2) at, of key_of, OF Cons.IH [OF wf_node_next [OF wf(2)]]]
    show ?thesis
    proof (cases e)
      case None
      with step obtain s where s: "sub_ptr s = sub_ptr sub" "wf_node n'"
          "mset (node_entries n) = add_mset (map key_of ts, s) (mset (node_entries n'))" by auto
      with put_back_entries [OF wf(1) node(4) s(2,3) refl] None lo' node show ?thesis
        by (auto simp: wf_opt_def opt_entries_def)
    next
      case (Some err)
      with step lo' node show ?thesis
        using entries_child [OF wf(1)] by (auto simp: set_child_id opt_entries_def)
    qed
  qed
qed

section \<open>Pruning\<close>

text \<open>A live trie has no dead branch: no node that stores nothing and leads nowhere.\<close>

fun live_node :: "node \<Rightarrow> bool" and live_level :: "level \<Rightarrow> bool" where
  "live_node (Node nx ps qs) = (case nx of None \<Rightarrow> True | Some l \<Rightarrow> live_level l)"
| "live_level (Level ns p f) =
     ((\<forall>(t, n) \<in> set ns. \<not> isEmpty n \<and> live_node n) \<and>
      (case p of None \<Rightarrow> True | Some n \<Rightarrow> \<not> isEmpty n \<and> live_node n) \<and>
      (case f of None \<Rightarrow> True | Some n \<Rightarrow> \<not> isEmpty n \<and> live_node n))"

definition live_opt :: "level option \<Rightarrow> bool" where
  "live_opt lo = (case lo of None \<Rightarrow> True | Some l \<Rightarrow> live_level l)"

lemma live_node_sel: "live_node n = live_opt (node_next n)"
  by (cases n) (simp add: live_opt_def)

lemma live_set_child [wf_intros]:
  "live_level l \<Longrightarrow> live_node n \<Longrightarrow> \<not> isEmpty n \<Longrightarrow> live_level (set_child k n l)"
  by (cases l; cases k) (auto dest: set_mp [OF alist_update_subset])

lemma live_pruneNode [wf_intros]: "live_level l \<Longrightarrow> live_level (pruneNode k l)"
  by (cases l; cases k) (auto simp: AList.delete_eq)

lemma live_newLevel [simp]: "live_level newLevel"
  by (simp add: newLevel_def)

lemma live_children: "live_level l \<Longrightarrow> level_child k l = Some n \<Longrightarrow> live_node n"
  by (cases l; cases k) (auto dest!: map_of_SomeD)

lemma live_next_or_new: "live_level l \<Longrightarrow> live_level (next_or_new (child_or_new k l))"
  using live_children [of l k]
  by (auto simp: next_or_new_def child_or_new_def newNode_def live_node_sel live_opt_def split: option.split)

lemma insert_loop_live:
  assumes "wf_level l" "live_level l" "insert_loop sfwc sub ts l = (None, l')" "ts \<noteq> []"
  shows "live_level l'"
  using assms
proof (induction ts arbitrary: sfwc l l')
  case Nil
  then show ?case by simp
next
  case (Cons t ts)
  let ?k = "key_of t"
  let ?n = "child_or_new ?k l"
  note wf = child_or_new_facts(1) [OF Cons.prems(1), of ?k]
  note nx = next_or_new_facts [OF wf]
  have t: "t \<noteq> []" "insert_loop False sub (t # ts) l = (None, l')"
    using Cons.prems(3) by (auto split: if_splits)
  obtain n' where n': "l' = set_child ?k n' l" "live_node n'" "node_entries n' \<noteq> []"
  proof (cases "ts = []")
    case True
    let ?n1 = "Node (Some (next_or_new ?n)) (node_psubs ?n) (node_qsubs ?n)"
    have "wf_node ?n1" using wf nx by (auto simp: wf_node_sel wf_opt_def)
    then have "node_entries (node_add_sub sub ?n1) \<noteq> []"
      using node_add_sub_correct(2) [of ?n1 sub] by force
    moreover have "live_node (node_add_sub sub ?n1)"
      using live_next_or_new [OF Cons.prems(2)] by (simp add: live_node_sel node_add_sub_def live_opt_def)
    ultimately show ?thesis
      using t True by (intro that [of "node_add_sub sub ?n1"])
        (auto simp: insert_loop_Cons Let_def simp del: insert_loop.simps)
  next
    case False
    then obtain l2 where l2: "insert_loop (?k = FWC) sub ts (next_or_new ?n) = (None, l2)"
        "l' = set_child ?k (Node (Some l2) (node_psubs ?n) (node_qsubs ?n)) l"
      using t by (auto simp: insert_loop_Cons Let_def simp del: insert_loop.simps split: prod.splits)
    have "level_entries l2 \<noteq> []"
      using insert_loop_correct [OF nx(1) l2(1) False] by force
    with l2 Cons.IH [OF nx(1) live_next_or_new [OF Cons.prems(2)] l2(1) False] show ?thesis
      by (intro that [of "Node (Some l2) (node_psubs ?n) (node_qsubs ?n)"]) auto
  qed
  then show ?case
    using Cons.prems(2) isEmpty_entries [of n'] by (auto intro: wf_intros)
qed

lemma remove_loop_live:
  assumes "live_opt lo" "remove_loop sfwc sub ts lo = (None, lo')"
  shows "live_opt lo'"
  using assms
proof (induction ts arbitrary: sfwc lo lo')
  case Nil
  then show ?case by simp
next
  case (Cons t ts)
  have t: "t \<noteq> []" "\<not> sfwc" using Cons.prems(2) by (auto split: if_splits)
  with Cons.prems(2) obtain l where l: "lo = Some l" by (cases lo) auto
  with t Cons.prems(2) obtain n where n: "lo = Some l" "level_child (key_of t) l = Some n"
    using remove_loop_None [of "key_of t = FWC" sub ts]
    by (cases "level_child (key_of t) l") (auto split: if_splits)
  obtain e n' where at: "remove_at sub (key_of t) ts n = (e, n')" by fastforce
  have e: "e = None" and lo': "lo' = Some (if isEmpty n' then pruneNode (key_of t) l else set_child (key_of t) n' l)"
    using Cons.prems(2) remove_loop_step [OF t n(2) at] n(1) by auto
  have "live_level l" using Cons.prems(1) n(1) by (simp add: live_opt_def)
  then have next_live: "live_opt (node_next n)" using n(2) live_children live_node_sel by blast
  have "live_opt (node_next n')"
  proof (cases "ts = []")
    case True
    with at e have "node_next n' = node_next n"
      by (auto simp: remove_at_def removeFromNode_def Let_def split: prod.splits if_splits option.splits)
    with next_live show ?thesis by simp
  next
    case False
    with at e Cons.IH [OF next_live] show ?thesis by (auto simp: remove_at_def split: prod.splits)
  qed
  with \<open>live_level l\<close> lo' show ?case
    by (auto simp: live_opt_def live_node_sel intro: wf_intros)
qed

lemma live_nonempty:
  "wf_node n \<Longrightarrow> live_node n \<Longrightarrow> \<not> isEmpty n \<Longrightarrow> node_entries n \<noteq> []"
  "wf_level l \<Longrightarrow> live_level l \<Longrightarrow> level_entries l = [] \<longleftrightarrow> numNodes l = 0"
proof (induction n and l rule: node_entries_level_entries.induct)
  case (1 nx ps qs)
  then show ?case
    by (cases nx; cases qs) (auto simp: isEmpty_def wf_simps dest: wf_group_ne split: if_splits)
next
  case (2 ns p f)
  have lit: "node_entries n \<noteq> []" if "(t, n) \<in> set ns" for t n
    using "2.IH"(1) [OF that refl] "2.prems" that by auto
  from 2 show ?case
    using lit [of "fst (hd ns)" "snd (hd ns)"]
    by (cases ns; cases p; cases f) (simp_all add: numNodes_def split: prod.splits)
qed

end
