(* ===== verification/Sublist_Cache.thy ===== *)
theory Sublist_Cache
  imports Sublist_Trie
begin

text \<open>
  The subject list of src/server/sublist.go: the trie together with the cache of match
  results and the counters. The theorems relate the detailed list to its contract: a
  multiset of (path, subscription) entries to which Insert adds one, from which Remove takes
  one, and of which Match returns those whose path matches.

  The plain subscribers of a result (\<open>psubs\<close>) are always copied by the code, so a cached
  result is a value there. The queue groups of a cached result share arrays with the node
  they came from, so the claims about results that stay in the
  cache speak of the plain subscribers, and the claims about queue groups of the result of
  a descent that has just been made.
\<close>

section \<open>State and operations\<close>

record Sublist =
  genid :: "64 word"
  matches :: "64 word"
  cacheHits :: "64 word"
  inserts :: "64 word"
  removes :: "64 word"
  cache :: "(bytes \<times> SublistResult) list"
  root :: level
  count :: "32 word"

definition slCacheMax :: nat where
  "slCacheMax = 1024"

definition NewSublist :: Sublist where
  "NewSublist = \<lparr>genid = 0, matches = 0, cacheHits = 0, inserts = 0, removes = 0,
     cache = [], root = newLevel, count = 0\<rparr>"

definition copyResult :: "SublistResult \<Rightarrow> SublistResult" where
  "copyResult r = \<lparr>res_psubs = res_psubs r, res_qsubs = res_qsubs r\<rparr>"

definition add_to_result :: "subscription \<Rightarrow> SublistResult \<Rightarrow> SublistResult" where
  "add_to_result sub r =
     (let nr = copyResult r in
      if sub_queue sub = None then nr\<lparr>res_psubs := res_psubs nr @ [sub]\<rparr>
      else nr\<lparr>res_qsubs := add_qsub sub (res_qsubs nr)\<rparr>)"

definition addToCache :: "bytes \<Rightarrow> subscription \<Rightarrow> Sublist \<Rightarrow> Sublist" where
  "addToCache subject sub s =
     s\<lparr>cache := map (\<lambda>(k, r). (k, if matchLiteral k subject then add_to_result sub r else r)) (cache s)\<rparr>"

definition removeFromCache :: "bytes \<Rightarrow> subscription \<Rightarrow> Sublist \<Rightarrow> Sublist" where
  "removeFromCache subject sub s = s\<lparr>cache := filter (\<lambda>(k, r). \<not> matchLiteral k subject) (cache s)\<rparr>"

definition Insert :: "subscription \<Rightarrow> Sublist \<Rightarrow> sl_error option \<times> Sublist" where
  "Insert sub s =
     (let subject = sub_subject sub;
          (e, l) = insert_loop False sub (tokens subject) (root s);
          s1 = s\<lparr>root := l\<rparr>
      in case e of
        Some err \<Rightarrow> (Some err, s1)
      | None \<Rightarrow>
          let s2 = s1\<lparr>count := count s1 + 1, inserts := inserts s1 + 1\<rparr>;
              s3 = addToCache subject sub s2
          in (None, s3\<lparr>genid := genid s3 + 1\<rparr>))"

text \<open>
  Match takes the choice that Go's map iteration makes when the cache overflows: the first
  key of the range loop is the one at position \<open>ev\<close> modulo the number of entries.
\<close>

definition evict :: "nat \<Rightarrow> (bytes \<times> SublistResult) list \<Rightarrow> (bytes \<times> SublistResult) list" where
  "evict ev c = (if length c > slCacheMax then AList.delete (fst (c ! (ev mod length c))) c else c)"

text \<open>
  Match looks the subject up under the read lock, releases it, and only on a miss takes the
  write lock for the descent: other operations may run between the two halves.
\<close>

definition match_lookup :: "bytes \<Rightarrow> Sublist \<Rightarrow> SublistResult option \<times> Sublist" where
  "match_lookup subject s =
     (let s1 = s\<lparr>matches := matches s + 1\<rparr> in
      case map_of (cache s1) subject of
        Some rc \<Rightarrow> (Some rc, s1\<lparr>cacheHits := cacheHits s1 + 1\<rparr>)
      | None \<Rightarrow> (None, s1))"

definition match_fill :: "nat \<Rightarrow> bytes \<Rightarrow> Sublist \<Rightarrow> SublistResult \<times> Sublist" where
  "match_fill ev subject s =
     (let result = matchLevel (Some (root s)) (tokens subject) emptyResult
      in (result, s\<lparr>cache := evict ev (AList.update subject result (cache s))\<rparr>))"

definition Match :: "nat \<Rightarrow> bytes \<Rightarrow> Sublist \<Rightarrow> SublistResult \<times> Sublist" where
  "Match ev subject s =
     (case match_lookup subject s of
        (Some rc, s1) \<Rightarrow> (rc, s1)
      | (None, s1) \<Rightarrow> match_fill ev subject s1)"

definition Remove :: "subscription \<Rightarrow> Sublist \<Rightarrow> sl_error option \<times> Sublist" where
  "Remove sub s =
     (let subject = sub_subject sub;
          (e, lo) = remove_loop False sub (tokens subject) (Some (root s));
          s1 = s\<lparr>root := (case lo of None \<Rightarrow> root s | Some l \<Rightarrow> l)\<rparr>
      in case e of
        Some err \<Rightarrow> (Some err, s1)
      | None \<Rightarrow>
          let s2 = s1\<lparr>count := count s1 - 1, removes := removes s1 + 1\<rparr>;
              s3 = removeFromCache subject sub s2
          in (None, s3\<lparr>genid := genid s3 + 1\<rparr>))"

definition Count :: "Sublist \<Rightarrow> 32 word" where
  "Count s = count s"

definition CacheCount :: "Sublist \<Rightarrow> nat" where
  "CacheCount s = length (cache s)"

text \<open>The two quotients of Stats are floating-point divisions, a parameter of the model.\<close>

record 'f SublistStats =
  NumSubs :: "32 word"
  NumCache :: "32 word"
  NumInserts :: "64 word"
  NumRemoves :: "64 word"
  NumMatches :: "64 word"
  CacheHitRate :: 'f
  MaxFanout :: "32 word"
  AvgFanout :: 'f

fun fanout :: "SublistResult list \<Rightarrow> nat \<Rightarrow> nat \<Rightarrow> nat \<times> nat" where
  "fanout [] tot mx = (tot, mx)"
| "fanout (r # rs) tot mx =
     (let l = length (res_psubs r) + length (res_qsubs r)
      in fanout rs (tot + l) (if l > mx then l else mx))"

definition Stats :: "'f \<Rightarrow> (nat \<Rightarrow> nat \<Rightarrow> 'f) \<Rightarrow> Sublist \<Rightarrow> 'f SublistStats" where
  "Stats zero fdiv s =
     (let (tot, mx) = fanout (map snd (cache s)) 0 0 in
      \<lparr>NumSubs = count s, NumCache = of_nat (length (cache s)), NumInserts = inserts s,
       NumRemoves = removes s, NumMatches = matches s,
       CacheHitRate = (if matches s > 0 then fdiv (unat (cacheHits s)) (unat (matches s)) else zero),
       MaxFanout = of_nat mx,
       AvgFanout = (if tot > 0 then fdiv tot (length (cache s)) else zero)\<rparr>)"

fun visitNode :: "node \<Rightarrow> nat \<Rightarrow> nat" and visitLevel :: "level \<Rightarrow> nat \<Rightarrow> nat" where
  "visitNode (Node nx ps qs) depth = (case nx of None \<Rightarrow> depth | Some l \<Rightarrow> visitLevel l depth)"
| "visitLevel (Level ns p f) depth =
     (if numNodes (Level ns p f) = 0 then depth
      else
        let d = depth + 1;
            m1 = fold max (map (\<lambda>(t, n). visitNode n d) ns) d;
            m2 = (case p of None \<Rightarrow> m1 | Some n \<Rightarrow> max m1 (visitNode n d))
        in (case f of None \<Rightarrow> m2 | Some n \<Rightarrow> max m2 (visitNode n d)))"

definition numLevels :: "Sublist \<Rightarrow> nat" where
  "numLevels s = visitLevel (root s) 0"

section \<open>The contract: a multiset of entries\<close>

definition contents :: "Sublist \<Rightarrow> (key list \<times> subscription) multiset" where
  "contents s = mset (level_entries (root s))"

definition spec_match :: "bytes \<Rightarrow> (key list \<times> subscription) multiset \<Rightarrow> subscription multiset" where
  "spec_match subject M = image_mset snd (filter_mset (\<lambda>(q, s). path_matches q (tokens subject)) M)"

definition plain :: "subscription multiset \<Rightarrow> subscription multiset" where
  "plain M = filter_mset (\<lambda>s. sub_queue s = None) M"

lemma spec_match_add [simp]:
  "spec_match k (add_mset (q, s) M) =
     (if path_matches q (tokens k) then add_mset s (spec_match k M) else spec_match k M)"
  by (simp add: spec_match_def)

lemma plain_add [simp]:
  "plain (add_mset s M) = (if sub_queue s = None then add_mset s (plain M) else plain M)"
  by (simp add: plain_def)

lemma mset_matching: "mset (matching (tokens k) es) = spec_match k (mset es)"
  by (simp add: matching_def spec_match_def)

lemma plain_result:
  assumes "wf_result r"
  shows "plain (mset (result_subs r)) = mset (res_psubs r)"
proof -
  have "filter (\<lambda>s. sub_queue s = None) (res_psubs r) = res_psubs r"
    using assms by (simp add: wf_result_def)
  moreover have "filter (\<lambda>s. sub_queue s = None) (concat (res_qsubs r)) = []"
    using assms by (fastforce simp: wf_result_def wf_groups_def wf_group_def filter_empty_conv)
  ultimately show ?thesis
    by (metis plain_def append_Nil2 filter_append mset_filter result_subs_def)
qed

lemma descent_correct:
  fixes k :: bytes
  assumes "wf_level l"
  defines "r \<equiv> matchLevel (Some l) (tokens k) emptyResult"
  shows "wf_result r" and "mset (result_subs r) = spec_match k (mset (level_entries l))"
    and "mset (res_psubs r) = plain (spec_match k (mset (level_entries l)))"
proof -
  have "wf_result emptyResult" "wf_opt (Some l)"
    using assms by (auto simp: wf_result_def emptyResult_def wf_simps wf_opt_def)
  then have r: "wf_result r" "mset (result_subs r) = spec_match k (mset (level_entries l))"
    using matchLevel_correct [of "Some l" emptyResult "tokens k"]
    by (auto simp: r_def opt_entries_def mset_matching result_subs_def emptyResult_def)
  show "wf_result r" and "mset (result_subs r) = spec_match k (mset (level_entries l))" by (fact r)+
  show "mset (res_psubs r) = plain (spec_match k (mset (level_entries l)))"
    using plain_result [OF r(1)] r(2) by simp
qed

section \<open>The invariant\<close>

definition cache_coherent :: "Sublist \<Rightarrow> bool" where
  "cache_coherent s \<longleftrightarrow> (\<forall>(k, r) \<in> set (cache s). mset (res_psubs r) = plain (spec_match k (contents s)))"

definition proper_keys :: "Sublist \<Rightarrow> bool" where
  "proper_keys s \<longleftrightarrow> (\<forall>k \<in> fst ` set (cache s). proper_literal k)"

definition sl_inv :: "Sublist \<Rightarrow> bool" where
  "sl_inv s \<longleftrightarrow> wf_level (root s) \<and> distinct (map fst (cache s)) \<and> length (cache s) \<le> slCacheMax \<and>
     count s = of_nat (size (contents s)) \<and> proper_keys s \<and> cache_coherent s"

text \<open>
  The critical sections of the operations are the events. The subjects of subscriptions are
  canonical or rejected by the token loop; the published subjects do not end in a separator.
\<close>

datatype sl_event = EvInsert subscription | EvRemove subscription | EvLookup bytes | EvFill nat bytes

definition acceptable :: "bytes \<Rightarrow> bool" where
  "acceptable subject \<longleftrightarrow> (insertable (tokens subject) \<longrightarrow> canonical_subject subject)"

inductive sl_step :: "Sublist \<Rightarrow> sl_event \<Rightarrow> Sublist \<Rightarrow> bool" where
  step_insert: "acceptable (sub_subject sub) \<Longrightarrow> sl_step s (EvInsert sub) (snd (Insert sub s))"
| step_remove: "acceptable (sub_subject sub) \<Longrightarrow> sl_step s (EvRemove sub) (snd (Remove sub s))"
| step_lookup: "sl_step s (EvLookup k) (snd (match_lookup k s))"
| step_fill: "proper_literal k \<Longrightarrow> sl_step s (EvFill ev k) (snd (match_fill ev k s))"

definition sl_init :: "Sublist \<Rightarrow> bool" where
  "sl_init s \<longleftrightarrow> s = NewSublist"

lemma Insert_cases:
  assumes "wf_level (root s)"
  obtains (fail) l where "\<not> insertable (tokens (sub_subject sub))"
      "Insert sub s = (Some ErrInvalidSubject, s\<lparr>root := l\<rparr>)" "wf_level l"
      "mset (level_entries l) = contents s"
  | (ok) l where "insertable (tokens (sub_subject sub))" "wf_level l"
      "insert_loop False sub (tokens (sub_subject sub)) (root s) = (None, l)"
      "mset (level_entries l) = add_mset (path_of (sub_subject sub), sub) (contents s)"
      "Insert sub s = (None, addToCache (sub_subject sub) sub
         (s\<lparr>root := l, count := count s + 1, inserts := inserts s + 1, genid := genid s + 1\<rparr>))"
proof -
  obtain e l where il: "insert_loop False sub (tokens (sub_subject sub)) (root s) = (e, l)" by fastforce
  note e = insert_loop_error [of False sub "tokens (sub_subject sub)" "root s", unfolded il]
  note c = insert_loop_correct [OF assms il tokens_ne]
  show ?thesis
  proof (cases "insertable (tokens (sub_subject sub))")
    case True
    with e c il show ?thesis
      by (intro ok [of l]) (auto simp: Insert_def Let_def addToCache_def path_of_def contents_def)
  next
    case False
    with e c il show ?thesis
      by (intro fail [of l]) (auto simp: Insert_def contents_def)
  qed
qed

lemma remove_loop_insertable:
  "fst (remove_loop sfwc sub ts lo) = None \<Longrightarrow> insertable ts \<and> \<not> sfwc"
proof (induction ts arbitrary: sfwc lo)
  case Nil
  then show ?case by simp
next
  case (Cons t ts)
  then have t: "t \<noteq> []" "\<not> sfwc" by (auto split: if_splits)
  obtain l n where n: "lo = Some l" "level_child (key_of t) l = Some n"
  proof (cases lo)
    case None
    with Cons.prems remove_loop_None [of sfwc sub "t # ts"] show ?thesis by simp
  next
    case (Some l)
    with Cons.prems t remove_loop_None [of "key_of t = FWC" sub ts] show ?thesis
      by (cases "level_child (key_of t) l") (auto intro: that split: if_splits)
  qed
  obtain e n' where at: "remove_at sub (key_of t) ts n = (e, n')" by fastforce
  with Cons.prems n remove_loop_step [OF t n(2) at] have "e = None" by simp
  with at have "ts = [] \<or> fst (remove_loop (key_of t = FWC) sub ts (node_next n)) = None"
    by (auto simp: remove_at_def split: prod.splits if_splits)
  with Cons.IH t show ?case by fastforce
qed

lemma Remove_cases:
  assumes "wf_level (root s)"
  obtains (fail) err where "Remove sub s = (Some err, s)"
      "insertable (tokens (sub_subject sub)) \<Longrightarrow> (path_of (sub_subject sub), sub) \<notin># contents s"
  | (ok) l s0 where "insertable (tokens (sub_subject sub))" "wf_level l" "sub_ptr s0 = sub_ptr sub"
      "remove_loop False sub (tokens (sub_subject sub)) (Some (root s)) = (None, Some l)"
      "contents s = add_mset (path_of (sub_subject sub), s0) (mset (level_entries l))"
      "Remove sub s = (None, removeFromCache (sub_subject sub) sub
         (s\<lparr>root := l, count := count s - 1, removes := removes s + 1, genid := genid s + 1\<rparr>))"
proof -
  obtain e lo where rl: "remove_loop False sub (tokens (sub_subject sub)) (Some (root s)) = (e, lo)" by fastforce
  have "wf_opt (Some (root s))" using assms by (simp add: wf_opt_def)
  note c = remove_loop_correct [OF this rl]
  show ?thesis
  proof (cases e)
    case None
    obtain l where l: "lo = Some l"
      using rl None by (cases "tokens (sub_subject sub)")
        (auto simp: Let_def split: if_splits option.splits prod.splits)
    from c None l obtain s0 where "wf_level l" "sub_ptr s0 = sub_ptr sub"
        "contents s = add_mset (path_of (sub_subject sub), s0) (mset (level_entries l))"
      by (auto simp: wf_opt_def opt_entries_def contents_def path_of_def)
    with rl None l show ?thesis
      using remove_loop_insertable [of False sub "tokens (sub_subject sub)" "Some (root s)"]
      by (intro ok [of l s0]) (auto simp: Remove_def Let_def removeFromCache_def)
  next
    case (Some err)
    with rl c show ?thesis
      by (intro fail [of err]) (auto simp: Remove_def opt_entries_def contents_def path_of_def)
  qed
qed

section \<open>Every critical section keeps the invariant\<close>

lemma psubs_add_to_result:
  "mset (res_psubs (add_to_result sub r)) = mset (res_psubs r) + plain {#sub#}"
  by (simp add: add_to_result_def copyResult_def plain_def Let_def)

lemma Insert_inv:
  assumes "sl_inv s" "acceptable (sub_subject sub)"
  shows "sl_inv (snd (Insert sub s))"
proof -
  have wf: "wf_level (root s)" using assms(1) by (simp add: sl_inv_def)
  from wf show ?thesis
  proof (cases rule: Insert_cases [where sub = sub])
    case (fail l)
    with assms(1) show ?thesis
      by (simp add: sl_inv_def contents_def proper_keys_def cache_coherent_def)
  next
    case (ok l)
    let ?s' = "snd (Insert sub s)"
    have can: "canonical_subject (sub_subject sub)" using assms(2) ok(1) by (simp add: acceptable_def)
    have cont: "contents ?s' = add_mset (path_of (sub_subject sub), sub) (contents s)"
      using ok by (simp add: contents_def addToCache_def)
    have keys: "map fst (cache ?s') = map fst (cache s)"
      by (simp add: ok(5) addToCache_def case_prod_beta comp_def)
    have "mset (res_psubs r') = plain (spec_match k (contents ?s'))" if kr: "(k, r') \<in> set (cache ?s')" for k r'
    proof -
      from kr obtain r where r: "(k, r) \<in> set (cache s)"
          "r' = (if matchLiteral k (sub_subject sub) then add_to_result sub r else r)"
        by (auto simp: ok(5) addToCache_def)
      then have "proper_literal k" "mset (res_psubs r) = plain (spec_match k (contents s))"
        using assms(1) by (auto simp: sl_inv_def proper_keys_def cache_coherent_def)
      with r(2) show ?thesis
        using matchLiteral_subject_matches [OF can, of k]
        by (simp add: cont subject_matches_def psubs_add_to_result plain_def)
    qed
    then have "cache_coherent ?s'" by (auto simp: cache_coherent_def)
    moreover have "proper_keys ?s'"
      using assms(1) keys by (metis proper_keys_def sl_inv_def list.set_map)
    moreover have "length (cache ?s') = length (cache s)" using keys by (metis length_map)
    moreover have "count ?s' = count s + 1" "root ?s' = l" by (simp_all add: ok(5) addToCache_def)
    ultimately show ?thesis
      using assms(1) keys cont ok(2) by (simp add: sl_inv_def)
  qed
qed

lemma spec_match_unmatched:
  "\<not> path_matches q (tokens k) \<Longrightarrow> spec_match k (add_mset (q, s) M) = spec_match k M"
  by simp

lemma Remove_inv:
  assumes "sl_inv s" "acceptable (sub_subject sub)"
  shows "sl_inv (snd (Remove sub s))"
proof -
  have wf: "wf_level (root s)" using assms(1) by (simp add: sl_inv_def)
  from wf show ?thesis
  proof (cases rule: Remove_cases [where sub = sub])
    case (fail err)
    with assms(1) show ?thesis by simp
  next
    case (ok l s0)
    let ?s' = "snd (Remove sub s)"
    have can: "canonical_subject (sub_subject sub)" using assms(2) ok(1) by (simp add: acceptable_def)
    have c: "cache ?s' = filter (\<lambda>(k, r). \<not> matchLiteral k (sub_subject sub)) (cache s)"
      and root: "root ?s' = l" and cnt: "count ?s' = count s - 1"
      by (simp_all add: ok(6) removeFromCache_def)
    have "mset (res_psubs r) = plain (spec_match k (contents ?s'))" if kr: "(k, r) \<in> set (cache ?s')" for k r
    proof -
      from kr c have r: "(k, r) \<in> set (cache s)" "\<not> matchLiteral k (sub_subject sub)" by auto
      then have k: "proper_literal k" "mset (res_psubs r) = plain (spec_match k (contents s))"
        using assms(1) by (auto simp: sl_inv_def proper_keys_def cache_coherent_def)
      with r(2) show ?thesis
        using matchLiteral_subject_matches [OF can k(1)]
        by (simp add: contents_def [of ?s'] root ok(5) subject_matches_def)
    qed
    then have "cache_coherent ?s'" by (auto simp: cache_coherent_def)
    moreover have "proper_keys ?s'" "length (cache ?s') \<le> slCacheMax" "distinct (map fst (cache ?s'))"
      using assms(1) unfolding c
      by (auto simp: sl_inv_def proper_keys_def c distinct_map_filter intro: order_trans [OF length_filter_le])
    moreover have "contents s = add_mset (path_of (sub_subject sub), s0) (contents ?s')"
      by (simp add: contents_def [of ?s'] root ok(5))
    ultimately show ?thesis
      using assms(1) ok(2) root cnt by (simp add: sl_inv_def)
  qed
qed

lemma lookup_inv: "sl_inv s \<Longrightarrow> sl_inv (snd (match_lookup k s))"
  by (auto simp: match_lookup_def Let_def sl_inv_def contents_def proper_keys_def cache_coherent_def
      split: option.split)

lemma evict_props:
  assumes "distinct (map fst c)" "length c \<le> Suc slCacheMax"
  shows "distinct (map fst (evict ev c))" "length (evict ev c) \<le> slCacheMax" "set (evict ev c) \<subseteq> set c"
proof -
  show "distinct (map fst (evict ev c))" "set (evict ev c) \<subseteq> set c"
    using assms(1) by (auto simp: evict_def AList.delete_eq distinct_map_filter)
  show "length (evict ev c) \<le> slCacheMax"
  proof (cases "length c > slCacheMax")
    case True
    then have "ev mod length c < length c" by (intro mod_less_divisor) linarith
    then have "fst (c ! (ev mod length c)) \<in> fst ` set c" by simp
    with True assms alist_delete_length [OF assms(1) this] show ?thesis by (simp add: evict_def)
  qed (simp add: evict_def)
qed

lemma fill_inv:
  assumes "sl_inv s" "proper_literal k"
  shows "sl_inv (snd (match_fill ev k s))"
proof -
  let ?r = "matchLevel (Some (root s)) (tokens k) emptyResult"
  let ?c = "AList.update k ?r (cache s)"
  have wf: "wf_level (root s)" and d: "distinct (map fst (cache s))" "length (cache s) \<le> slCacheMax"
    using assms(1) by (auto simp: sl_inv_def)
  have "distinct (map fst ?c)" using d(1) by (rule distinct_update)
  moreover have "length ?c \<le> Suc slCacheMax" using d(2) by (simp add: alist_update_length)
  ultimately have e: "distinct (map fst (evict ev ?c))" "length (evict ev ?c) \<le> slCacheMax"
      "set (evict ev ?c) \<subseteq> insert (k, ?r) (set (cache s))"
    using evict_props [of ?c ev] alist_update_subset [of k ?r "cache s"] by auto
  have "mset (res_psubs ?r) = plain (spec_match k (contents s))"
    using descent_correct(3) [OF wf, of k] by (simp add: contents_def)
  with assms e wf show ?thesis
    by (auto simp: match_fill_def Let_def sl_inv_def contents_def proper_keys_def cache_coherent_def)
qed

lemma NewSublist_inv: "sl_inv NewSublist"
  by (simp add: sl_inv_def NewSublist_def contents_def proper_keys_def cache_coherent_def)

interpretation sublist: inductive_invariant sl_init sl_step sl_inv
proof unfold_locales
  show "sl_init s \<Longrightarrow> sl_inv s" for s by (simp add: sl_init_def NewSublist_inv)
  show "sl_inv s \<Longrightarrow> sl_step s e s' \<Longrightarrow> sl_inv s'" for s e s'
    by (erule sl_step.cases) (auto intro: Insert_inv Remove_inv lookup_inv fill_inv)
qed

section \<open>The depth of the trie\<close>

lemma fold_max_ge: "a \<le> fold max xs (a :: nat)" "x \<in> set xs \<Longrightarrow> x \<le> fold max xs a"
proof (induction xs arbitrary: a)
  case (Cons y ys)
  {
    case 1
    show ?case using Cons.IH(1) [of "max y a"] by simp
  next
    case 2
    then show ?case using Cons.IH [of "max y a"] by auto
  }
qed auto

lemma fold_max_in: "fold max xs (a :: nat) \<in> insert a (set xs)"
proof (induction xs arbitrary: a)
  case (Cons y ys)
  show ?case using Cons.IH [of "max y a"] by (auto simp: max_def)
qed simp

definition level_kids :: "level \<Rightarrow> (key \<times> node) list" where
  "level_kids l = map (map_prod Lit id) (level_nodes l) @
     (case level_pwc l of None \<Rightarrow> [] | Some n \<Rightarrow> [(PWC, n)]) @
     (case level_fwc l of None \<Rightarrow> [] | Some n \<Rightarrow> [(FWC, n)])"

lemma level_entries_kids:
  "set (level_entries l) = (\<Union>(k, n) \<in> set (level_kids l). apfst (Cons k) ` set (node_entries n))"
  by (cases l) (auto simp: level_kids_def level_entries_alt child_entries_def split: option.splits)

lemma visitLevel_kids:
  "visitLevel l d = (if level_kids l = [] then d
     else fold max (map (\<lambda>(k, n). visitNode n (d + 1)) (level_kids l)) (d + 1))"
proof (cases l)
  case (Level ns p f)
  have "(\<lambda>(k, n). visitNode n (Suc d)) \<circ> map_prod Lit id = (\<lambda>(t, n). visitNode n (Suc d))"
    by (auto simp: fun_eq_iff)
  with Level show ?thesis
    by (cases p; cases f) (simp_all add: level_kids_def numNodes_def Let_def max.commute)
qed

lemma kids_all:
  "(\<forall>(k, n) \<in> set (level_kids (Level ns p f)). P n) \<longleftrightarrow>
     (\<forall>(t, n) \<in> set ns. P n) \<and> (\<forall>n. p = Some n \<longrightarrow> P n) \<and> (\<forall>n. f = Some n \<longrightarrow> P n)"
  by (cases p; cases f) (auto simp: level_kids_def)

text \<open>
  The depth reached from depth \<open>d\<close>: at least that of every entry, and that of some entry
  unless there is none.
\<close>

definition is_depth :: "nat \<Rightarrow> nat \<Rightarrow> (key list \<times> subscription) set \<Rightarrow> bool" where
  "is_depth m d E \<longleftrightarrow> d \<le> m \<and> (\<forall>(q, s) \<in> E. d + length q \<le> m) \<and>
     (m = d \<or> (\<exists>(q, s) \<in> E. m = d + length q))"

lemma is_depth_kids:
  assumes "\<And>k n. (k, n) \<in> set ks \<Longrightarrow> is_depth (v n) (d + 1) (set (node_entries n)) \<and> node_entries n \<noteq> []"
    and "ks \<noteq> []"
  shows "is_depth (fold max (map (\<lambda>(k, n). v n) ks) (d + 1)) d
    (\<Union>(k, n) \<in> set ks. apfst (Cons k) ` set (node_entries n))"
proof -
  let ?vs = "map (\<lambda>(k, n). v n) ks"
  let ?m = "fold max ?vs (d + 1)"
  have ge: "d + Suc (length q) \<le> ?m" if "(k, n) \<in> set ks" "(q, s) \<in> set (node_entries n)" for k n q s
  proof -
    have "d + Suc (length q) \<le> v n"
      using assms(1) [OF that(1)] that(2) by (fastforce simp: is_depth_def)
    also have "v n \<le> ?m" using that(1) by (intro fold_max_ge(2)) force
    finally show ?thesis .
  qed
  have "\<exists>(k, n) \<in> set ks. \<exists>(q, s) \<in> set (node_entries n). ?m = d + Suc (length q)"
  proof (cases "?m = d + 1")
    case True
    from assms(2) obtain k n where kn: "(k, n) \<in> set ks" by (cases ks) auto
    with assms(1) have "node_entries n \<noteq> []" by blast
    then obtain q s where qs: "(q, s) \<in> set (node_entries n)" by (cases "node_entries n") auto
    then have "?m = d + Suc (length q)" using ge [OF kn qs] True by linarith
    with kn qs show ?thesis by blast
  next
    case False
    with fold_max_in [of ?vs "d + 1"] obtain k n where kn: "(k, n) \<in> set ks" "?m = v n" by auto
    with False assms(1) [OF kn(1)] obtain q s where "(q, s) \<in> set (node_entries n)" "?m = d + 1 + length q"
      by (auto simp: is_depth_def)
    with kn show ?thesis by auto
  qed
  then obtain k n q s where "(k, n) \<in> set ks" "(q, s) \<in> set (node_entries n)" "?m = d + length (k # q)"
    by auto
  then have "\<exists>(q, s) \<in> (\<Union>(k, n) \<in> set ks. apfst (Cons k) ` set (node_entries n)). ?m = d + length q"
    by (intro bexI [of _ "(k # q, s)"] UN_I [of "(k, n)"]) auto
  moreover have "d \<le> ?m" using fold_max_ge(1) [of "d + 1" ?vs] by linarith
  moreover have "\<forall>(q, s) \<in> (\<Union>(k, n) \<in> set ks. apfst (Cons k) ` set (node_entries n)). d + length q \<le> ?m"
    using ge by auto
  ultimately show ?thesis unfolding is_depth_def by blast
qed

lemma is_depth_here: "is_depth m d E \<Longrightarrow> is_depth m d (Pair [] ` S \<union> E)"
  by (auto simp: is_depth_def)

lemma visit_is_depth:
  "wf_node n \<Longrightarrow> live_node n \<Longrightarrow> is_depth (visitNode n d) d (set (node_entries n))"
  "wf_level l \<Longrightarrow> live_level l \<Longrightarrow> is_depth (visitLevel l d) d (set (level_entries l))"
proof (induction n and l arbitrary: d and d rule: node_entries_level_entries.induct)
  case (1 nx ps qs)
  have "is_depth (visitNode (Node nx ps qs) d) d (set (opt_entries nx))"
  proof (cases nx)
    case None
    then show ?thesis by (simp add: is_depth_def opt_entries_def)
  next
    case (Some l)
    with 1 show ?thesis by (simp add: opt_entries_def)
  qed
  then show ?case unfolding node_entries_alt by (simp add: is_depth_here)
next
  case (2 ns p f)
  have "\<forall>(k, n) \<in> set (level_kids (Level ns p f)).
      is_depth (visitNode n (d + 1)) (d + 1) (set (node_entries n)) \<and> node_entries n \<noteq> []"
  proof -
    have lit: "is_depth (visitNode n (d + 1)) (d + 1) (set (node_entries n)) \<and> node_entries n \<noteq> []"
      if "(t, n) \<in> set ns" for t n
    proof -
      have "wf_node n" "live_node n" "\<not> isEmpty n" using that "2.prems" by auto
      then show ?thesis using "2.IH"(1) [OF that refl] live_nonempty(1) [of n] by auto
    qed
    show ?thesis
      unfolding kids_all using lit "2.prems" "2.IH"(2,3) live_nonempty(1) by auto
  qed
  note kids = this
  show ?case
  proof (cases "level_kids (Level ns p f) = []")
    case True
    then show ?thesis unfolding visitLevel_kids level_entries_kids by (simp add: is_depth_def)
  next
    case False
    moreover have "is_depth (visitNode n (d + 1)) (d + 1) (set (node_entries n)) \<and> node_entries n \<noteq> []"
      if "(k, n) \<in> set (level_kids (Level ns p f))" for k n
      using kids that by blast
    ultimately show ?thesis
      unfolding visitLevel_kids level_entries_kids
      using is_depth_kids [of "level_kids (Level ns p f)" "\<lambda>n. visitNode n (d + 1)" d] by simp
  qed
qed

section \<open>The interface its clients use\<close>

text \<open>
  The server keeps its subscriptions in a subject list, and so does the permission check of
  a client for the patterns of its user. Both rely on these laws only.
\<close>

definition entry_of :: "subscription \<Rightarrow> key list \<times> subscription" where
  "entry_of s = (path_of (sub_subject s), s)"

definition same_sub :: "subscription \<Rightarrow> (key list \<times> subscription) multiset \<Rightarrow> bool" where
  "same_sub sub M \<longleftrightarrow> (\<forall>(q, s) \<in># M. sub_ptr s = sub_ptr sub \<longrightarrow> s = sub)"

locale subject_index =
  fixes ins del :: "subscription \<Rightarrow> 'i \<Rightarrow> sl_error option \<times> 'i"
    and find :: "nat \<Rightarrow> bytes \<Rightarrow> 'i \<Rightarrow> SublistResult \<times> 'i"
    and cont :: "'i \<Rightarrow> (key list \<times> subscription) multiset"
    and ok :: "'i \<Rightarrow> bool"
  assumes ins_ok: "ok i \<Longrightarrow> acceptable (sub_subject s) \<Longrightarrow> ok (snd (ins s i))"
    and del_ok: "ok i \<Longrightarrow> acceptable (sub_subject s) \<Longrightarrow> ok (snd (del s i))"
    and find_ok: "ok i \<Longrightarrow> proper_literal k \<Longrightarrow> ok (snd (find ev k i))"
    and ins_cont: "ok i \<Longrightarrow> cont (snd (ins s i)) =
      (if insertable (tokens (sub_subject s)) then add_mset (entry_of s) (cont i) else cont i)"
    and del_cont: "ok i \<Longrightarrow> same_sub s (cont i) \<Longrightarrow> insertable (tokens (sub_subject s)) \<Longrightarrow>
      cont (snd (del s i)) = cont i - {#entry_of s#}"
    and find_cont: "ok i \<Longrightarrow> cont (snd (find ev k i)) = cont i"
    and find_plain: "ok i \<Longrightarrow> proper_literal k \<Longrightarrow>
      mset (res_psubs (fst (find ev k i))) = plain (spec_match k (cont i))"
begin

lemma found_iff:
  assumes "ok i" "proper_literal k"
  shows "s \<in> set (res_psubs (fst (find ev k i))) \<longleftrightarrow>
    sub_queue s = None \<and> (\<exists>q. (q, s) \<in># cont i \<and> path_matches q (tokens k))"
proof -
  have "s \<in> set (res_psubs (fst (find ev k i))) \<longleftrightarrow> s \<in># plain (spec_match k (cont i))"
    using find_plain [OF assms] by (metis set_mset_mset)
  then show ?thesis by (force simp: plain_def spec_match_def)
qed

lemma ins_all:
  assumes "ok i" "\<forall>s \<in> set ss. acceptable (sub_subject s)"
  shows "ok (fold (\<lambda>s i. snd (ins s i)) ss i) \<and>
    cont (fold (\<lambda>s i. snd (ins s i)) ss i) =
      cont i + mset (map entry_of (filter (\<lambda>s. insertable (tokens (sub_subject s))) ss))"
  using assms by (induction ss arbitrary: i) (simp_all add: ins_ok ins_cont)

text \<open>A subscription that was inserted is found; after it was removed it is not found again.\<close>

lemma ins_found:
  assumes "ok i" "acceptable (sub_subject s)" "insertable (tokens (sub_subject s))"
    "sub_queue s = None" "proper_literal k" "subject_matches (sub_subject s) k"
  shows "s \<in> set (res_psubs (fst (find ev k (snd (ins s i)))))"
  using assms found_iff [OF ins_ok [OF assms(1,2)] assms(5), of s ev] ins_cont [OF assms(1), of s]
  by (auto simp: entry_of_def subject_matches_def)

lemma del_not_found:
  assumes "ok i" "acceptable (sub_subject s)" "insertable (tokens (sub_subject s))"
    "same_sub s (cont i)" "\<And>q. Multiset.count (cont i) (q, s) \<le> (if q = path_of (sub_subject s) then 1 else 0)"
    "proper_literal k"
  shows "s \<notin> set (res_psubs (fst (find ev k (snd (del s i)))))"
proof -
  have "(q, s) \<notin># cont (snd (del s i))" for q
    using assms(5) [of q] del_cont [OF assms(1,4,3)]
    by (auto simp: entry_of_def not_in_iff split: if_splits)
  then show ?thesis using found_iff [OF del_ok [OF assms(1,2)] assms(6)] by blast
qed

end

lemma Insert_contents:
  assumes "wf_level (root s)"
  shows "contents (snd (Insert sub s)) =
    (if insertable (tokens (sub_subject sub)) then add_mset (entry_of sub) (contents s) else contents s)"
  using assms by (cases rule: Insert_cases [where sub = sub])
    (simp_all add: contents_def addToCache_def entry_of_def)

lemma Remove_contents:
  assumes "wf_level (root s)" "same_sub sub (contents s)" "insertable (tokens (sub_subject sub))"
  shows "contents (snd (Remove sub s)) = contents s - {#entry_of sub#}"
  using assms(1)
proof (cases rule: Remove_cases [where sub = sub])
  case (fail err)
  with assms(3) show ?thesis by (simp add: entry_of_def)
next
  case (ok l s0)
  then have "(path_of (sub_subject sub), s0) \<in># contents s" by simp
  with assms(2) ok(3) have "s0 = sub" by (auto simp: same_sub_def)
  with ok show ?thesis by (simp add: contents_def removeFromCache_def entry_of_def)
qed

lemma match_lookup_contents [simp]: "contents (snd (match_lookup k s)) = contents s"
  by (simp add: match_lookup_def contents_def Let_def split: option.split)

lemma match_fill_contents [simp]: "contents (snd (match_fill ev k s)) = contents s"
  by (simp add: match_fill_def contents_def Let_def)

lemma Match_inv:
  assumes "sl_inv s" "proper_literal k"
  shows "sl_inv (snd (Match ev k s))" and "contents (snd (Match ev k s)) = contents s"
    and "mset (res_psubs (fst (Match ev k s))) = plain (spec_match k (contents s))"
proof -
  obtain ro s1 where l: "match_lookup k s = (ro, s1)" by fastforce
  have s1: "sl_inv s1" "contents s1 = contents s"
    using lookup_inv [OF assms(1), of k] match_lookup_contents [of k s] l by simp_all
  have hit: "mset (res_psubs r) = plain (spec_match k (contents s))" if "ro = Some r" for r
  proof -
    have "(k, r) \<in> set (cache s)"
      using l that by (auto simp: match_lookup_def Let_def dest: map_of_SomeD split: option.splits)
    with assms(1) show ?thesis by (auto simp: sl_inv_def cache_coherent_def)
  qed
  have miss: "mset (res_psubs (fst (match_fill ev k s1))) = plain (spec_match k (contents s))"
    using descent_correct(3) [of "root s1" k] s1 by (simp add: match_fill_def Let_def sl_inv_def contents_def)
  show "sl_inv (snd (Match ev k s))"
    using l s1 fill_inv [OF s1(1) assms(2)] by (simp add: Match_def split: option.split)
  show "contents (snd (Match ev k s)) = contents s"
    using l s1 by (simp add: Match_def split: option.split)
  show "mset (res_psubs (fst (Match ev k s))) = plain (spec_match k (contents s))"
    using l hit miss by (simp add: Match_def split: option.split)
qed

interpretation sl_index: subject_index Insert Remove Match contents sl_inv
proof unfold_locales
  fix i s k ev
  assume i: "sl_inv i"
  then have wf: "wf_level (root i)" by (simp add: sl_inv_def)
  show "acceptable (sub_subject s) \<Longrightarrow> sl_inv (snd (Insert s i))" by (rule Insert_inv [OF i])
  show "acceptable (sub_subject s) \<Longrightarrow> sl_inv (snd (Remove s i))" by (rule Remove_inv [OF i])
  show "proper_literal k \<Longrightarrow> sl_inv (snd (Match ev k i))" by (rule Match_inv(1) [OF i])
  show "contents (snd (Insert s i)) =
      (if insertable (tokens (sub_subject s)) then add_mset (entry_of s) (contents i) else contents i)"
    by (rule Insert_contents [OF wf])
  show "same_sub s (contents i) \<Longrightarrow> insertable (tokens (sub_subject s)) \<Longrightarrow>
      contents (snd (Remove s i)) = contents i - {#entry_of s#}"
    by (rule Remove_contents [OF wf])
  show "contents (snd (Match ev k i)) = contents i"
    by (cases "match_lookup k i") (auto simp: Match_def split: option.split
        dest: arg_cong [where f = "contents \<circ> snd"])
  show "proper_literal k \<Longrightarrow>
      mset (res_psubs (fst (Match ev k i))) = plain (spec_match k (contents i))"
    by (rule Match_inv(3) [OF i])
qed

section \<open>Properties of the subject list\<close>

definition mk_sub :: "nat \<Rightarrow> bytes \<Rightarrow> bytes option \<Rightarrow> subscription" where
  "mk_sub p subj q = \<lparr>sub_ptr = p, sub_client = Some 1, sub_subject = subj, sub_queue = q, sub_sid = ''1''\<rparr>"

lemma sl_step_Insert: "reachable sl_init sl_step s \<Longrightarrow> acceptable (sub_subject sub) \<Longrightarrow>
    reachable sl_init sl_step (snd (Insert sub s))"
  by (rule reach_step) (assumption, rule step_insert)

lemma reach_New: "reachable sl_init sl_step NewSublist"
  by (rule reach_init) (simp add: sl_init_def)



text \<open>
  (C9) A descent of the trie returns every matching subscription, plain and queue, exactly
  once; the queue subscriptions come in non-empty groups, one group per queue name even when
  members sit at different nodes, and no plain subscription is in a group.
\<close>

theorem match_fill_groups:
  assumes "wf_level (root s)"
  shows "mset (result_subs (fst (match_fill ev k s))) = spec_match k (contents s) \<and>
    wf_result (fst (match_fill ev k s))"
  using descent_correct [OF assms, of k] by (simp add: match_fill_def Let_def contents_def)

theorem match_fill_groups_witness:
  "mset (result_subs (fst (match_fill 0 ''foo.bar'' (snd (Insert (mk_sub 7 ''foo.*'' (Some ''q'')) NewSublist))))) =
     spec_match ''foo.bar'' (contents (snd (Insert (mk_sub 7 ''foo.*'' (Some ''q'')) NewSublist))) \<and>
   wf_result (fst (match_fill 0 ''foo.bar'' (snd (Insert (mk_sub 7 ''foo.*'' (Some ''q'')) NewSublist))))"
proof (rule match_fill_groups)
  show "wf_level (root (snd (Insert (mk_sub 7 ''foo.*'' (Some ''q'')) NewSublist)))"
    using Insert_inv [OF NewSublist_inv, of "mk_sub 7 ''foo.*'' (Some ''q'')"]
    by (auto simp: sl_inv_def acceptable_def mk_sub_def canonical_subject_def IsValidSubject_def tokens_def)
qed

text \<open>
  (C23) Insert fails exactly on the subjects with an empty token or with a token after a full
  wildcard, and then the contents stay as they were; otherwise it adds the one new entry.
\<close>

theorem Insert_refines:
  assumes "wf_level (root s)"
  shows "fst (Insert sub s) = (if insertable (tokens (sub_subject sub)) then None else Some ErrInvalidSubject) \<and>
    contents (snd (Insert sub s)) =
      (if insertable (tokens (sub_subject sub)) then add_mset (entry_of sub) (contents s) else contents s) \<and>
    wf_level (root (snd (Insert sub s)))"
  using assms by (cases rule: Insert_cases [where sub = sub])
    (simp_all add: contents_def addToCache_def entry_of_def)

theorem Insert_refines_witness:
  "fst (Insert (mk_sub 7 ''foo..bar'' None) NewSublist) = Some ErrInvalidSubject \<and>
   contents (snd (Insert (mk_sub 7 ''foo..bar'' None) NewSublist)) = {#}"
proof -
  have "\<not> insertable (tokens ''foo..bar'')" by code_simp
  then show ?thesis
    using Insert_refines [of NewSublist "mk_sub 7 ''foo..bar'' None"]
    by (simp add: mk_sub_def) (simp add: NewSublist_def contents_def)
qed

text \<open>
  (C24) Remove succeeds exactly when the very subscription is stored, and takes exactly that
  entry out; on failure nothing changes.
\<close>

theorem Remove_refines:
  assumes "wf_level (root s)" "same_sub sub (contents s)" "insertable (tokens (sub_subject sub))"
  shows "(fst (Remove sub s) = None \<longleftrightarrow> entry_of sub \<in># contents s) \<and>
    contents (snd (Remove sub s)) = contents s - {#entry_of sub#} \<and>
    (fst (Remove sub s) \<noteq> None \<longrightarrow> snd (Remove sub s) = s)"
  using assms(1)
proof (cases rule: Remove_cases [where sub = sub])
  case (fail err)
  with assms(3) show ?thesis by (simp add: entry_of_def)
next
  case (ok l s0)
  then have "(path_of (sub_subject sub), s0) \<in># contents s" by simp
  with assms(2) ok(3) have "s0 = sub" by (auto simp: same_sub_def)
  with ok Remove_contents [OF assms] show ?thesis by (simp add: entry_of_def)
qed

theorem Remove_refines_witness:
  "fst (Remove (mk_sub 7 ''foo.*'' None) (snd (Insert (mk_sub 7 ''foo.*'' None) NewSublist))) = None \<and>
   contents (snd (Remove (mk_sub 7 ''foo.*'' None) (snd (Insert (mk_sub 7 ''foo.*'' None) NewSublist)))) = {#}"
proof -
  let ?u = "mk_sub 7 ''foo.*'' None"
  have t: "insertable (tokens (sub_subject ?u))" by code_simp
  have wf: "wf_level (root NewSublist)" by (simp add: NewSublist_def)
  have c: "contents NewSublist = {#}" by (simp add: NewSublist_def contents_def)
  have c1: "contents (snd (Insert ?u NewSublist)) = {#entry_of ?u#}"
    using Insert_contents [OF wf, of ?u] t c by simp
  have "wf_level (root (snd (Insert ?u NewSublist)))"
    using wf by (cases rule: Insert_cases [where sub = ?u]) (simp_all add: addToCache_def)
  moreover have "same_sub ?u (contents (snd (Insert ?u NewSublist)))"
    by (simp add: c1 same_sub_def entry_of_def)
  ultimately show ?thesis using Remove_refines [OF _ _ t] c1 by simp
qed

text \<open>
  Removing a subscription from a trie without dead branches prunes every branch that
  became empty: the trie stays without dead branches, it has no node at all exactly when it
  has no entry, and its number of levels is the length of its longest subject.
\<close>

theorem Remove_prunes:
  assumes "wf_level (root s)" "live_level (root s)" "Remove sub s = (None, s')"
  shows "live_level (root s') \<and> (numNodes (root s') = 0 \<longleftrightarrow> contents s' = {#}) \<and>
    numLevels s' = Max (insert 0 ((\<lambda>(q, s). length q) ` set_mset (contents s')))"
  using assms(1)
proof (cases rule: Remove_cases [where sub = sub])
  case (fail err)
  with assms(3) show ?thesis by simp
next
  case (ok l s0)
  have s': "root s' = l" using ok(6) assms(3) by (auto simp: removeFromCache_def)
  have live: "live_level l"
    using remove_loop_live [OF _ ok(4)] assms(2) by (simp add: live_opt_def)
  have "is_depth (visitLevel l 0) 0 (set (level_entries l))"
    by (rule visit_is_depth(2) [OF ok(2) live])
  then have "visitLevel l 0 = Max (insert 0 ((\<lambda>(q, s). length q) ` set (level_entries l)))"
    unfolding is_depth_def by (intro Max_eqI [symmetric]) (auto simp: image_iff)
  with live s' live_nonempty(2) [OF ok(2) live] show ?thesis
    by (auto simp: contents_def numLevels_def)
qed

theorem Remove_prunes_witness:
  "numLevels (snd (Remove (mk_sub 7 ''foo.*'' None) (snd (Insert (mk_sub 7 ''foo.*'' None) NewSublist)))) = 0 \<and>
   live_level (root (snd (Remove (mk_sub 7 ''foo.*'' None) (snd (Insert (mk_sub 7 ''foo.*'' None) NewSublist)))))"
proof -
  let ?s = "snd (Insert (mk_sub 7 ''foo.*'' None) NewSublist)"
  have "wf_level (root ?s)" "live_level (root ?s)" "fst (Remove (mk_sub 7 ''foo.*'' None) ?s) = None"
    "numLevels (snd (Remove (mk_sub 7 ''foo.*'' None) ?s)) = 0"
    by code_simp+
  then show ?thesis
    using Remove_prunes [of ?s "mk_sub 7 ''foo.*'' None"] by (metis prod.collapse)
qed

text \<open>
  In every reachable state the cache holds at most \<open>slCacheMax\<close> results, each subject at
  most once, and the subscription counter is the number of stored entries modulo \<open>2^32\<close>.
\<close>

theorem cache_bounded_count_exact:
  assumes "reachable sl_init sl_step s"
  shows "CacheCount s \<le> slCacheMax \<and> distinct (map fst (cache s)) \<and> Count s = of_nat (size (contents s))"
  using sublist.reachable_inv [OF assms] by (simp add: sl_inv_def CacheCount_def Count_def)

theorem cache_bounded_count_exact_witness:
  "CacheCount (snd (Insert (mk_sub 7 ''foo.*'' None) NewSublist)) \<le> slCacheMax \<and>
   Count (snd (Insert (mk_sub 7 ''foo.*'' None) NewSublist)) =
     of_nat (size (contents (snd (Insert (mk_sub 7 ''foo.*'' None) NewSublist))))"
proof -
  have "acceptable (sub_subject (mk_sub 7 ''foo.*'' None))" by code_simp
  then show ?thesis
    using cache_bounded_count_exact [OF sl_step_Insert [OF reach_New]] by blast
qed


text \<open>
  A wildcard byte inside a token is a literal for the trie and a wildcard for the cache
  layer: the answer to a published subject depends on whether it was asked before.
\<close>

theorem inner_wildcard_depends_on_cache:
  "let u = mk_sub 7 ''foo.b*'' None;
       cold = snd (Insert u NewSublist);
       warm = snd (Insert u (snd (Match 0 ''foo.bar'' NewSublist)))
   in res_psubs (fst (Match 0 ''foo.bar'' cold)) = [] \<and> res_psubs (fst (Match 0 ''foo.bar'' warm)) = [u]"
  by code_simp

text \<open>
  A failing Insert leaves the nodes it created before it met the invalid token in the
  trie: the list has no entry but still one level, which no Remove will prune.
\<close>

theorem failed_insert_leaves_nodes:
  "let s = snd (Insert (mk_sub 7 ''foo..bar'' None) NewSublist)
   in fst (Insert (mk_sub 7 ''foo..bar'' None) NewSublist) = Some ErrInvalidSubject \<and>
      contents s = {#} \<and> numLevels s = 1 \<and> fst (Remove (mk_sub 7 ''foo'' None) s) = Some ErrNotFound"
  by code_simp

lemma valid_not_insertable:
  "IsValidSubject ''>foo.bar'' \<and>
   fst (Insert (mk_sub 7 ''>foo.bar'' None) NewSublist) = Some ErrInvalidSubject"
  by code_simp

end
