(* ===== verification/Auth.thy ===== *)
theory Auth
  imports Prelude
begin

text \<open>
  Authentication (src/auth/plain.go, token.go, multiuser.go and the choice of the method in
  src/main.go). The comparison of a password with a bcrypt hash is the library function
  \<^verbatim>\<open>bcrypt.CompareHashAndPassword\<close>, a parameter \<open>cmp\<close> of the model that tells whether the
  hash and the password agree.
\<close>

record Permissions =
  Publish :: "bytes list"
  Subscribe :: "bytes list"

record User =
  UUsername :: bytes
  UPassword :: bytes
  UPermissions :: "Permissions option"

datatype auth =
    Plain (pUsername: bytes) (pPassword: bytes)
  | Token (tToken: bytes)
  | MultiUser (users: "(bytes \<times> User) list")

definition bcryptPrefix :: bytes where
  "bcryptPrefix = ''$2a$''"

fun hasPrefix :: "bytes \<Rightarrow> bytes \<Rightarrow> bool" where
  "hasPrefix s [] = True"
| "hasPrefix [] (c # cs) = False"
| "hasPrefix (b # s) (c # cs) = (b = c \<and> hasPrefix s cs)"

definition isBcrypt :: "bytes \<Rightarrow> bool" where
  "isBcrypt password = hasPrefix password bcryptPrefix"

definition pass_ok :: "(bytes \<Rightarrow> bytes \<Rightarrow> bool) \<Rightarrow> bytes \<Rightarrow> bytes \<Rightarrow> bool" where
  "pass_ok cmp stored given =
     (if isBcrypt stored then cmp stored given else stored = given)"

definition NewMultiUser :: "User list \<Rightarrow> auth" where
  "NewMultiUser us = MultiUser (fold (\<lambda>u m. AList.update (UUsername u) u m) us [])"

text \<open>The three Check methods; the second result is the user given to RegisterUser.\<close>

definition Plain_Check :: "(bytes \<Rightarrow> bytes \<Rightarrow> bool) \<Rightarrow> bytes \<Rightarrow> bytes \<Rightarrow> bytes \<Rightarrow> bytes \<Rightarrow> bool \<times> User option" where
  "Plain_Check cmp u p username password =
     (if u \<noteq> username then (False, None)
      else if \<not> pass_ok cmp p password then (False, None)
      else (True, None))"

definition Token_Check :: "(bytes \<Rightarrow> bytes \<Rightarrow> bool) \<Rightarrow> bytes \<Rightarrow> bytes \<Rightarrow> bool \<times> User option" where
  "Token_Check cmp t token = (if \<not> pass_ok cmp t token then (False, None) else (True, None))"

definition MultiUser_Check :: "(bytes \<Rightarrow> bytes \<Rightarrow> bool) \<Rightarrow> (bytes \<times> User) list \<Rightarrow> bytes \<Rightarrow> bytes \<Rightarrow> bool \<times> User option" where
  "MultiUser_Check cmp m username password =
     (case map_of m username of
        None \<Rightarrow> (False, None)
      | Some user \<Rightarrow>
          if \<not> pass_ok cmp (UPassword user) password then (False, None) else (True, Some user))"

fun Check :: "(bytes \<Rightarrow> bytes \<Rightarrow> bool) \<Rightarrow> auth \<Rightarrow> bytes \<Rightarrow> bytes \<Rightarrow> bytes \<Rightarrow> bool \<times> User option" where
  "Check cmp (Plain u p) username password token = Plain_Check cmp u p username password"
| "Check cmp (Token t) username password token = Token_Check cmp t token"
| "Check cmp (MultiUser m) username password token = MultiUser_Check cmp m username password"

text \<open>
  The method that main configures: users before a single user before a token. A nil list of
  users is different from an empty one.
\<close>

definition client_auth :: "User list option \<Rightarrow> bytes \<Rightarrow> bytes \<Rightarrow> bytes \<Rightarrow> auth option" where
  "client_auth us username password authorization =
     (case us of
        Some l \<Rightarrow> Some (NewMultiUser l)
      | None \<Rightarrow>
          if username \<noteq> [] then Some (Plain username password)
          else if authorization \<noteq> [] then Some (Token authorization)
          else None)"

definition route_auth :: "bytes \<Rightarrow> bytes \<Rightarrow> auth option" where
  "route_auth username password = (if username \<noteq> [] then Some (Plain username password) else None)"

section \<open>Who is let in\<close>

lemma find_append: "find P (xs @ ys) = (case find P xs of Some x \<Rightarrow> Some x | None \<Rightarrow> find P ys)"
  by (induction xs) auto

lemma map_of_users:
  "map_of (fold (\<lambda>u m. AList.update (UUsername u) u m) us m) n =
     (case find (\<lambda>u. UUsername u = n) (rev us) of Some u \<Rightarrow> Some u | None \<Rightarrow> map_of m n)"
proof (induction us arbitrary: m)
  case Nil
  then show ?case by simp
next
  case (Cons u us)
  then show ?case
    by (cases "find (\<lambda>u. UUsername u = n) (rev us)") (simp_all add: find_append update_conv')
qed

text \<open>
  With several users a client is let in exactly when the last configured user of that
  name accepts the password, and that user is the one whose permissions are registered.
\<close>

theorem multi_user_check:
  "Check cmp (NewMultiUser us) n p t =
     (case find (\<lambda>u. UUsername u = n) (rev us) of
        None \<Rightarrow> (False, None)
      | Some u \<Rightarrow> if pass_ok cmp (UPassword u) p then (True, Some u) else (False, None))"
  unfolding NewMultiUser_def Check.simps MultiUser_Check_def map_of_users
  by (cases "find (\<lambda>u. UUsername u = n) (rev us)") simp_all

end
