(* ===== verification/Proto_Args.thy ===== *)
theory Proto_Args
  imports Prelude
begin

text \<open>
  Arguments of protocol lines: the whitespace splitter of src/server/client.go and the
  decimal readers of src/server/util.go, with the wrap-around of Go's integers.
\<close>

definition is_ws :: "char \<Rightarrow> bool" where
  "is_ws c \<longleftrightarrow> c = SPC \<or> c = TAB \<or> c = CR \<or> c = LF"

text \<open>
  The loop of splitArg, processPub and processMsgArgs: \<open>cur\<close> is \<^verbatim>\<open>arg[start:i]\<close> while
  \<^verbatim>\<open>start >= 0\<close>, and empty otherwise.
\<close>

fun split_from :: "bytes \<Rightarrow> bytes \<Rightarrow> bytes list" where
  "split_from cur [] = (if cur \<noteq> [] then [cur] else [])"
| "split_from cur (b # bs) =
     (if is_ws b then (if cur \<noteq> [] then cur # split_from [] bs else split_from [] bs)
      else split_from (cur @ [b]) bs)"

definition splitArg :: "bytes \<Rightarrow> bytes list" where
  "splitArg arg = split_from [] arg"

definition asciiZero :: int where "asciiZero = 48"
definition asciiNine :: int where "asciiNine = 57"

abbreviation byte_val :: "char \<Rightarrow> int" where
  "byte_val c \<equiv> int (of_char c)"

fun parse_digits :: "int \<Rightarrow> bytes \<Rightarrow> int" where
  "parse_digits n [] = n"
| "parse_digits n (dec # ds) =
     (if byte_val dec < asciiZero \<or> byte_val dec > asciiNine then -1
      else parse_digits (wrap64 (n * 10 + (byte_val dec - asciiZero))) ds)"

definition parseSize :: "bytes \<Rightarrow> int" where
  "parseSize d = (if length d = 0 then -1 else parse_digits 0 d)"

definition parseInt64 :: "bytes \<Rightarrow> int" where
  "parseInt64 d = (if length d = 0 then -1 else parse_digits 0 d)"

fun digits_from :: "nat \<Rightarrow> bytes \<Rightarrow> bytes" where
  "digits_from n acc =
     (let acc' = char_of (48 + n mod 10) # acc
      in if n < 10 then acc' else digits_from (n div 10) acc')"

declare digits_from.simps [simp del]

text \<open>The verb \<^verbatim>\<open>%d\<close> for the numbers that are printed, which are not negative.\<close>

definition fmt_d :: "nat \<Rightarrow> bytes" where
  "fmt_d n = digits_from n []"

definition fmt_int :: "int \<Rightarrow> bytes" where
  "fmt_int i = (if i < 0 then CHR ''-'' # fmt_d (nat (- i)) else fmt_d (nat i))"

section \<open>Splitting\<close>

lemma split_from_tokens:
  "\<forall>c \<in> set cur. \<not> is_ws c \<Longrightarrow> t \<in> set (split_from cur bs) \<Longrightarrow> t \<noteq> [] \<and> (\<forall>c \<in> set t. \<not> is_ws c)"
proof (induction bs arbitrary: cur)
  case Nil
  then show ?case by (simp split: if_splits)
next
  case (Cons b bs)
  show ?case
  proof (cases "is_ws b")
    case True
    then have "t \<in> set (split_from [] bs) \<or> (cur \<noteq> [] \<and> t = cur)"
      using Cons.prems(2) by (cases "cur = []") auto
    with Cons.IH [of "[]"] Cons.prems(1) show ?thesis by auto
  next
    case False
    then have "\<forall>c \<in> set (cur @ [b]). \<not> is_ws c" "t \<in> set (split_from (cur @ [b]) bs)"
      using Cons.prems by simp_all
    then show ?thesis by (rule Cons.IH)
  qed
qed

lemma splitArg_token: "t \<in> set (splitArg arg) \<Longrightarrow> t \<noteq> [] \<and> (\<forall>c \<in> set t. \<not> is_ws c)"
  using split_from_tokens [of "[]" t arg] by (simp add: splitArg_def)

lemma split_from_word:
  "\<forall>c \<in> set u. \<not> is_ws c \<Longrightarrow> split_from cur (u @ bs) = split_from (cur @ u) bs"
  by (induction u arbitrary: cur) auto

lemma splitArg_word:
  "u \<noteq> [] \<Longrightarrow> \<forall>c \<in> set u. \<not> is_ws c \<Longrightarrow> splitArg u = [u]"
  using split_from_word [of u "[]" "[]"] by (simp add: splitArg_def)

lemma splitArg_word_sep:
  "u \<noteq> [] \<Longrightarrow> \<forall>c \<in> set u. \<not> is_ws c \<Longrightarrow> is_ws b \<Longrightarrow> splitArg (u @ b # bs) = u # splitArg bs"
  using split_from_word [of u "[]" "b # bs"] by (auto simp: splitArg_def)

lemma splitArg_sep: "is_ws b \<Longrightarrow> splitArg (b # bs) = splitArg bs"
  by (auto simp: splitArg_def)

section \<open>Decimal numbers\<close>

lemma digit_byte: "d < 10 \<Longrightarrow> byte_val (char_of (48 + d :: nat)) = 48 + int d"
  by (simp add: of_char_of)

lemma parse_digits_append:
  "\<forall>c \<in> set ds. asciiZero \<le> byte_val c \<and> byte_val c \<le> asciiNine \<Longrightarrow>
   parse_digits n (ds @ es) = parse_digits (parse_digits n ds) es"
  by (induction n ds rule: parse_digits.induct) auto

lemma wrap64_digit: "wrap64 (wrap64 x * 10 + d) = wrap64 (x * 10 + d)"
proof -
  have "(wrap64 x * 10 + d) mod 2 ^ 64 = (x * 10 + d) mod 2 ^ 64"
    by (metis mod_add_left_eq mod_mult_left_eq wrap64_mod)
  then show ?thesis
    unfolding wrap64_def by (metis mod_add_left_eq)
qed

lemma fmt_digits:
  "\<forall>c \<in> set acc. asciiZero \<le> byte_val c \<and> byte_val c \<le> asciiNine \<Longrightarrow>
   parse_digits 0 (digits_from n acc) = parse_digits (wrap64 (int n)) acc \<and>
   (\<forall>c \<in> set (digits_from n acc). asciiZero \<le> byte_val c \<and> byte_val c \<le> asciiNine) \<and>
   digits_from n acc \<noteq> []"
proof (induction n acc rule: digits_from.induct)
  case (1 n acc)
  let ?c = "char_of (48 + n mod 10) :: char"
  have b: "byte_val ?c = 48 + int (n mod 10)" by (rule digit_byte) simp
  then have c: "asciiZero \<le> byte_val ?c \<and> byte_val ?c \<le> asciiNine"
    by (simp add: asciiZero_def asciiNine_def)
  have step: "parse_digits m (?c # acc) = parse_digits (wrap64 (m * 10 + int (n mod 10))) acc" for m
    using b c by (simp add: asciiZero_def asciiNine_def)
  show ?case
  proof (cases "n < 10")
    case True
    with "1.prems" c step [of 0] show ?thesis by (simp add: digits_from.simps [of n acc])
  next
    case False
    have "wrap64 (wrap64 (int (n div 10)) * 10 + int (n mod 10)) = wrap64 (int n)"
      unfolding wrap64_digit by (metis div_mult_mod_eq of_nat_add of_nat_mult of_nat_numeral)
    moreover have "parse_digits 0 (digits_from (n div 10) (?c # acc)) =
        parse_digits (wrap64 (int (n div 10))) (?c # acc) \<and>
        (\<forall>c \<in> set (digits_from (n div 10) (?c # acc)). asciiZero \<le> byte_val c \<and> byte_val c \<le> asciiNine) \<and>
        digits_from (n div 10) (?c # acc) \<noteq> []"
      using "1.IH" [OF refl False] "1.prems" c by simp
    ultimately show ?thesis
      using False step by (simp add: digits_from.simps [of n acc])
  qed
qed

lemma parseSize_fmt_d: "parseSize (fmt_d n) = wrap64 (int n)"
  using fmt_digits [of "[]" n] by (simp add: parseSize_def fmt_d_def)

lemma parseInt64_fmt_d: "parseInt64 (fmt_d n) = wrap64 (int n)"
  using fmt_digits [of "[]" n] by (simp add: parseInt64_def fmt_d_def)

lemma fmt_d_digits: "c \<in> set (fmt_d n) \<Longrightarrow> 48 \<le> byte_val c \<and> byte_val c \<le> 57"
  using fmt_digits [of "[]" n] by (auto simp: fmt_d_def asciiZero_def asciiNine_def)

lemma fmt_d_ne: "fmt_d n \<noteq> []"
  using fmt_digits [of "[]" n] by (simp add: fmt_d_def)

end
