(* ===== verification/Server_State.thy ===== *)
theory Server_State
  imports Sublist_Cache Auth Proto_Args
begin

text \<open>
  The state that the handlers of src/server/client.go, route.go and server.go work on, and
  the operations at the bottom of the call graph: the flag bits of a client, writing to its
  connection, and the forwarding of interest to the routes.

  Connections are the boundary of the model: a connection carries the list of outcomes of
  its next write and flush calls (an empty list means that all of them succeed), and the
  bytes that were written to it are kept. Logging, tracing, deadlines, time stamps and the
  tuning of buffer sizes do not influence what is modelled here.
\<close>

section \<open>Clients\<close>

datatype ctype = CLIENT | ROUTER | INTERNALCLI

definition ClientProtoZero :: int where "ClientProtoZero = 0"
definition ClientProtoInfo :: int where "ClientProtoInfo = 1"

type_synonym clientFlag = "8 word"

definition connectReceived :: clientFlag where "connectReceived = 1"
definition firstPongSent :: clientFlag where "firstPongSent = 2"
definition infoUpdated :: clientFlag where "infoUpdated = 4"

unbundle bit_operations_syntax

definition flag_set :: "clientFlag \<Rightarrow> clientFlag \<Rightarrow> clientFlag" where
  "flag_set cf c = cf OR c"

definition flag_isSet :: "clientFlag \<Rightarrow> clientFlag \<Rightarrow> bool" where
  "flag_isSet cf c \<longleftrightarrow> cf AND c \<noteq> 0"

definition flag_setIfNotSet :: "clientFlag \<Rightarrow> clientFlag \<Rightarrow> bool \<times> clientFlag" where
  "flag_setIfNotSet cf c = (if cf AND c = 0 then (True, cf OR c) else (False, cf))"

definition flag_clear :: "clientFlag \<Rightarrow> clientFlag \<Rightarrow> clientFlag" where
  "flag_clear cf c = cf AND (NOT c)"

record clientOpts =
  Verbose :: bool
  Pedantic :: bool
  SslRequired :: bool
  Authorization :: bytes
  Username :: bytes
  Password :: bytes
  Name :: bytes
  Lang :: bytes
  Version :: bytes
  Protocol :: int

definition emptyOpts :: clientOpts where
  "emptyOpts = \<lparr>Verbose = False, Pedantic = False, SslRequired = False, Authorization = [],
     Username = [], Password = [], Name = [], Lang = [], Version = [], Protocol = 0\<rparr>"

definition defaultOpts :: clientOpts where
  "defaultOpts = emptyOpts\<lparr>Verbose := True, Pedantic := True\<rparr>"

record permissions =
  perm_sub :: Sublist
  perm_pub :: Sublist
  pcache :: "(bytes \<times> bool) list"

definition maxResultCacheSize :: nat where "maxResultCacheSize = 512"
definition maxPermCacheSize :: nat where "maxPermCacheSize = 32"
definition pruneSize :: nat where "pruneSize = 16"

record readCache =
  rc_genid :: "64 word"
  rc_results :: "(bytes \<times> SublistResult) list option"
  rc_inMsgs :: int
  rc_inBytes :: int
  rc_subs :: int

datatype RouteType = Implicit | Explicit

record route =
  remoteID :: bytes
  didSolicit :: bool
  retry :: bool
  routeType :: RouteType
  url :: "bytes option"
  authRequired :: bool
  tlsRequired :: bool

datatype wres = WOk | WTimeout | WErr

datatype connkind = TCPConn | TLSConn | OtherConn

record conn =
  ckind :: connkind
  closed :: bool
  script :: "wres list"

record client =
  ctyp :: ctype
  cid :: nat
  copts :: clientOpts
  nc :: "conn option"
  mpay :: int
  out :: bytes
  subs :: "(bytes \<times> subscription) list"
  perms :: "permissions option"
  rcache :: readCache
  pcd :: "nat list"
  atmr :: bool
  ptmr :: bool
  pout :: int
  croute :: "route option"
  flags :: clientFlag
  inMsgs :: int
  outMsgs :: int
  inBytes :: int
  outBytes :: int

section \<open>The server\<close>

text \<open>
  All client objects live in a store addressed by their id; the three tables of the server
  hold ids. The mutable counters of a subscription are addressed by its pointer. The
  reconnect attempts that were started for lost routes are recorded in \<open>dialing\<close>.
\<close>

record server =
  gcid :: nat
  infoID :: bytes
  infoJSON :: bytes
  infoMaxPayload :: int
  infoAuthRequired :: bool
  sl :: Sublist
  optMaxConn :: int
  optMaxPingsOut :: int
  running :: bool
  clients :: "nat list"
  routes :: "nat list"
  remotes :: "(bytes \<times> nat) list"
  grTmpClients :: "nat list"
  totalClients :: nat
  cproto :: int
  sInMsgs :: int
  sInBytes :: int
  sOutMsgs :: int
  sOutBytes :: int
  slowConsumers :: int
  heap :: "nat \<Rightarrow> client option"
  nm :: "nat \<Rightarrow> int"
  smax :: "nat \<Rightarrow> int"
  next_ptr :: nat
  cAuth :: "auth option"
  rAuth :: "auth option"
  routeInfoJSON :: bytes
  routeAuthRequired :: bool
  connectURLs :: "bytes list"
  optNoAdvertise :: bool
  optRoutes :: "bytes list"
  dialing :: "(bytes option \<times> RouteType) list"

definition upd_client :: "nat \<Rightarrow> (client \<Rightarrow> client) \<Rightarrow> server \<Rightarrow> server" where
  "upd_client i f w = (case heap w i of None \<Rightarrow> w | Some c \<Rightarrow> w\<lparr>heap := (heap w)(i \<mapsto> f c)\<rparr>)"

definition the_client :: "nat \<Rightarrow> server \<Rightarrow> client" where
  "the_client i w = the (heap w i)"

section \<open>Writing to a connection\<close>

definition next_res :: "wres list \<Rightarrow> wres \<times> wres list" where
  "next_res rs = (case rs of [] \<Rightarrow> (WOk, []) | r # rs' \<Rightarrow> (r, rs'))"

text \<open>
  \<^verbatim>\<open>bw.Write\<close>: the bytes count as written when the call succeeds and the connection is still
  open; what is buffered for a closed connection is lost.
\<close>

definition bw_write :: "bytes \<Rightarrow> client \<Rightarrow> wres \<times> client" where
  "bw_write b c =
     (case nc c of None \<Rightarrow> (WErr, c)
      | Some k \<Rightarrow>
          let (r, rs) = next_res (script k)
          in (r, c\<lparr>nc := Some (k\<lparr>script := rs\<rparr>),
                   out := (if r = WOk \<and> \<not> closed k then out c @ b else out c)\<rparr>))"

definition bw_flush :: "client \<Rightarrow> wres \<times> client" where
  "bw_flush c =
     (case nc c of None \<Rightarrow> (WErr, c)
      | Some k \<Rightarrow> let (r, rs) = next_res (script k) in (r, c\<lparr>nc := Some (k\<lparr>script := rs\<rparr>)\<rparr>))"

text \<open>The connection is closed but the field keeps it.\<close>

definition clearConnection :: "client \<Rightarrow> client" where
  "clearConnection c = (case nc c of None \<Rightarrow> c | Some k \<Rightarrow> c\<lparr>nc := Some (k\<lparr>closed := True\<rparr>)\<rparr>)"

text \<open>The error of a closed connection is nil: nothing is written then.\<close>

definition sendProto :: "bytes \<Rightarrow> bool \<Rightarrow> client \<Rightarrow> wres \<times> client" where
  "sendProto info doFlush c =
     (if nc c = None then (WOk, c)
      else
        let (e, c1) = bw_write info c
        in if e = WOk \<and> doFlush then bw_flush c1 else (e, c1))"

definition sendInfo :: "bytes \<Rightarrow> client \<Rightarrow> client" where
  "sendInfo info c = snd (sendProto info True c)"

definition sendErr :: "bytes \<Rightarrow> client \<Rightarrow> client" where
  "sendErr err c = snd (sendProto (''-ERR '' @ [CHR 0x27] @ err @ [CHR 0x27] @ [CR, LF]) True c)"

definition sendOK :: "client \<Rightarrow> client" where
  "sendOK c =
     (let c1 = snd (sendProto (''+OK'' @ [CR, LF]) False c)
      in c1\<lparr>pcd := List.insert (cid c) (pcd c1)\<rparr>)"

section \<open>Interest of routes\<close>

definition RSID :: bytes where "RSID = ''RSID''"
definition QRSID :: bytes where "QRSID = ''QRSID''"

definition opt_bytes :: "bytes option \<Rightarrow> bytes" where
  "opt_bytes b = case_option [] id b"

definition sub_cid :: "subscription \<Rightarrow> nat" where
  "sub_cid sub = case_option 0 id (sub_client sub)"

definition routeSid :: "subscription \<Rightarrow> bytes" where
  "routeSid sub =
     (let qi = (if length (opt_bytes (sub_queue sub)) > 0 then ''Q'' else [])
      in qi @ RSID @ '':'' @ fmt_d (sub_cid sub) @ '':'' @ sub_sid sub)"

definition subProto :: "subscription \<Rightarrow> bytes" where
  "subProto sub = ''SUB '' @ sub_subject sub @ '' '' @ opt_bytes (sub_queue sub) @ '' '' @
     routeSid sub @ [CR, LF]"

definition numRoutes :: "server \<Rightarrow> nat" where
  "numRoutes w = length (routes w)"

definition broadcastInterestToRoutes :: "bytes \<Rightarrow> server \<Rightarrow> server" where
  "broadcastInterestToRoutes proto w =
     fold (\<lambda>r. upd_client r (\<lambda>c. snd (sendProto proto True c))) (routes w) w"

definition broadcastSubscribe :: "subscription \<Rightarrow> server \<Rightarrow> server" where
  "broadcastSubscribe sub w =
     (if numRoutes w = 0 then w else broadcastInterestToRoutes (subProto sub) w)"

definition unsubProto :: "subscription \<Rightarrow> int \<Rightarrow> int \<Rightarrow> bytes" where
  "unsubProto sub m n =
     (let maxStr = (if m > 0 \<and> n < m then '' '' @ fmt_d (nat m) else [])
      in ''UNSUB '' @ routeSid sub @ maxStr @ [CR, LF])"

definition broadcastUnSubscribe :: "subscription \<Rightarrow> server \<Rightarrow> server" where
  "broadcastUnSubscribe sub w =
     (if numRoutes w = 0 then w
      else broadcastInterestToRoutes (unsubProto sub (smax w (sub_ptr sub)) (nm w (sub_ptr sub))) w)"

end
