(* ===== verification/Client_Ops.thy ===== *)
theory Client_Ops
  imports Server_State
begin

text \<open>
  The handlers of a client connection (src/server/client.go): closing, subscribing and
  unsubscribing, publishing and delivering, connecting, pings. Each handler is a function on
  the state of the server; \<open>me\<close> is the id of the client whose method it is.

  What the handlers take from outside is one record: the decoder of CONNECT options (it
  tells whether it succeeded and how it left the options, also on failure), the
  comparison of bcrypt hashes, the quoting verb \<^verbatim>\<open>%q\<close>, and the choices that Go leaves open,
  namely the iteration order of maps, the random member of a queue group, the result evicted
  from the cache and whether an expired timer could still be stopped.
\<close>

record env =
  e_unmarshal :: "bytes \<Rightarrow> clientOpts \<Rightarrow> bool \<times> clientOpts"
  e_bcrypt :: "bytes \<Rightarrow> bytes \<Rightarrow> bool"
  e_quote :: "bytes \<Rightarrow> bytes"
  e_order :: "bytes list \<Rightarrow> bytes list"
  e_pick :: "nat \<Rightarrow> nat"
  e_ev :: nat
  e_stopped :: bool

datatype perr = ErrMaxPayload | ErrAuthorization | ErrMaxControlLine | ErrBadClientProtocol
  | ErrClientConnectedToRoutePort | ErrText bytes

section \<open>Closing a connection\<close>

definition removeClient :: "nat \<Rightarrow> server \<Rightarrow> server" where
  "removeClient me w =
     (let c = the_client me w;
          rID = (case croute c of None \<Rightarrow> [] | Some r \<Rightarrow> remoteID r)
      in case ctyp c of
        CLIENT \<Rightarrow>
          w\<lparr>clients := removeAll (cid c) (clients w),
            cproto := (if Protocol (copts c) \<ge> ClientProtoInfo then cproto w - 1 else cproto w)\<rparr>
      | ROUTER \<Rightarrow>
          w\<lparr>routes := removeAll (cid c) (routes w),
            remotes := (if croute c \<noteq> None \<and> map_of (remotes w) rID = Some me
                        then AList.delete rID (remotes w) else remotes w)\<rparr>
      | INTERNALCLI \<Rightarrow> w)"

definition remove_sub :: "subscription \<Rightarrow> server \<Rightarrow> server" where
  "remove_sub sub w = w\<lparr>sl := snd (Remove sub (sl w))\<rparr>"

definition isSolicitedRoute :: "client \<Rightarrow> bool" where
  "isSolicitedRoute c = (ctyp c = ROUTER \<and> (case croute c of None \<Rightarrow> False | Some r \<Rightarrow> didSolicit r))"

definition reconnect :: "client \<Rightarrow> server \<Rightarrow> server" where
  "reconnect c w =
     (case croute c of None \<Rightarrow> w
      | Some r \<Rightarrow>
          if isSolicitedRoute c \<or> retry r then
            if \<not> running w then w
            else if remoteID r \<noteq> [] \<and> map_of (remotes w) (remoteID r) \<noteq> None then w
            else if remoteID r = infoID w then w
            else if routeType r \<noteq> Implicit \<or> retry r
              then w\<lparr>dialing := dialing w @ [(url r, routeType r)]\<rparr>
            else w
          else w)"

definition closeConnection :: "nat \<Rightarrow> server \<Rightarrow> server" where
  "closeConnection me w =
     (let c = the_client me w in
      if nc c = None then w
      else
        let w1 = upd_client me (\<lambda>c. c\<lparr>atmr := False, ptmr := False, nc := None\<rparr>) w;
            w2 = removeClient me w1;
            w3 = fold (\<lambda>sub w. let w' = remove_sub sub w
                              in if ctyp c \<noteq> ROUTER then broadcastUnSubscribe sub w' else w')
                   (map snd (subs c)) w2
        in reconnect c w3)"

definition authTimeout :: "nat \<Rightarrow> server \<Rightarrow> server" where
  "authTimeout me w = closeConnection me (upd_client me (sendErr ''Authorization Timeout'') w)"

definition authViolation :: "nat \<Rightarrow> server \<Rightarrow> server" where
  "authViolation me w = closeConnection me (upd_client me (sendErr ''Authorization Violation'') w)"

definition maxConnExceeded :: "nat \<Rightarrow> server \<Rightarrow> server" where
  "maxConnExceeded me w = closeConnection me (upd_client me (sendErr ''Maximum Connections Exceeded'') w)"

definition maxPayloadViolation :: "nat \<Rightarrow> server \<Rightarrow> server" where
  "maxPayloadViolation me w = closeConnection me (upd_client me (sendErr ''Maximum Payload Violation'') w)"

definition processErr :: "nat \<Rightarrow> bytes \<Rightarrow> server \<Rightarrow> server" where
  "processErr me errStr w = closeConnection me w"

section \<open>Pings\<close>

definition processPing :: "nat \<Rightarrow> server \<Rightarrow> server" where
  "processPing me w =
     (let c = the_client me w in
      if nc c = None then w
      else
        let (e, c1) = sendProto (''PONG'' @ [CR, LF]) True c;
            c2 = (if e \<noteq> WOk then clearConnection c1 else c1);
            (first, fl) = flag_setIfNotSet (flags c2) firstPongSent;
            upd = (first \<and> Protocol (copts c2) \<ge> ClientProtoInfo \<and> flag_isSet fl infoUpdated);
            c3 = c2\<lparr>flags := (if first then flag_clear fl infoUpdated else fl)\<rparr>;
            w1 = w\<lparr>heap := (heap w)(me \<mapsto> c3)\<rparr>
        in if upd then upd_client me (sendInfo (infoJSON w)) w1 else w1)"

definition processPong :: "nat \<Rightarrow> server \<Rightarrow> server" where
  "processPong me w = upd_client me (\<lambda>c. c\<lparr>pout := 0\<rparr>) w"

definition processPingTimer :: "nat \<Rightarrow> server \<Rightarrow> server" where
  "processPingTimer me w =
     upd_client me (\<lambda>c0.
       let c = c0\<lparr>ptmr := False\<rparr> in
       case nc c of
         None \<Rightarrow> c
       | Some k \<Rightarrow>
           if ckind k \<noteq> TCPConn then c
           else
             let c1 = c\<lparr>pout := pout c + 1\<rparr> in
             if pout c1 > optMaxPingsOut w then
               clearConnection (snd (sendProto (''-ERR '' @ [CHR 0x27] @ ''Stale Connection'' @ [CHR 0x27, CR, LF]) True c1))
             else
               let (e, c2) = sendProto (''PING'' @ [CR, LF]) True c1
               in if e \<noteq> WOk then clearConnection c2 else c2\<lparr>ptmr := True\<rparr>) w"

section \<open>Connecting\<close>

definition perm_entry :: "nat \<times> bytes \<Rightarrow> subscription" where
  "perm_entry = (\<lambda>(i, s). \<lparr>sub_ptr = i, sub_client = None, sub_subject = s, sub_queue = None, sub_sid = []\<rparr>)"

definition perm_list :: "bytes list \<Rightarrow> Sublist" where
  "perm_list ss = fold (\<lambda>sub l. snd (Insert sub l)) (map perm_entry (enumerate 0 ss)) NewSublist"

definition RegisterUser :: "User \<Rightarrow> client \<Rightarrow> client" where
  "RegisterUser user c =
     (case UPermissions user of
        None \<Rightarrow> c
      | Some p \<Rightarrow>
          c\<lparr>perms := Some \<lparr>perm_sub = perm_list (Subscribe p), perm_pub = perm_list (Publish p), pcache = []\<rparr>\<rparr>)"

definition check_method :: "env \<Rightarrow> auth option \<Rightarrow> client \<Rightarrow> bool \<times> client" where
  "check_method E a c =
     (case a of None \<Rightarrow> (True, c)
      | Some m \<Rightarrow>
          let (ok, u) = Check (e_bcrypt E) m (Username (copts c)) (Password (copts c)) (Authorization (copts c))
          in (ok, (case u of None \<Rightarrow> c | Some user \<Rightarrow> RegisterUser user c)))"

definition checkAuth :: "env \<Rightarrow> server \<Rightarrow> client \<Rightarrow> bool \<times> client" where
  "checkAuth E w c =
     (case ctyp c of
        CLIENT \<Rightarrow> check_method E (cAuth w) c
      | ROUTER \<Rightarrow> check_method E (rAuth w) c
      | INTERNALCLI \<Rightarrow> (True, c))"

definition processConnect :: "env \<Rightarrow> nat \<Rightarrow> bytes \<Rightarrow> server \<Rightarrow> perr option \<times> server" where
  "processConnect E me arg w =
     (let c0 = the_client me w;
          c = c0\<lparr>atmr := False\<rparr>;
          w0 = w\<lparr>heap := (heap w)(me \<mapsto> c)\<rparr>
      in
      if atmr c0 \<and> \<not> e_stopped E then (None, authTimeout me w0)
      else case e_unmarshal E arg (copts c) of
        (False, opts) \<Rightarrow> (Some (ErrText ''json''), w0\<lparr>heap := (heap w0)(me \<mapsto> c\<lparr>copts := opts\<rparr>)\<rparr>)
      | (True, opts) \<Rightarrow>
          let c1 = c\<lparr>copts := opts, flags := flag_set (flags c) connectReceived\<rparr>;
              w1 = w0\<lparr>heap := (heap w0)(me \<mapsto> c1),
                      cproto := (if Protocol opts \<ge> ClientProtoInfo then cproto w0 + 1 else cproto w0)\<rparr>;
              (ok, c2) = checkAuth E w1 c1;
              w2 = w1\<lparr>heap := (heap w1)(me \<mapsto> c2)\<rparr>
          in
          if \<not> ok then (Some ErrAuthorization, authViolation me w2)
          else if ctyp c2 = CLIENT \<and> (Protocol opts < ClientProtoZero \<or> Protocol opts > ClientProtoInfo) then
            (Some ErrBadClientProtocol,
             closeConnection me (upd_client me (sendErr ''Invalid Client Protocol'') w2))
          else if ctyp c2 = ROUTER \<and> Lang opts \<noteq> [] then
            (Some ErrClientConnectedToRoutePort,
             closeConnection me (upd_client me (sendErr ''Attempted To Connect To Route Port'') w2))
          else
            let w3 = (if ctyp c2 = ROUTER
                      then upd_client me (\<lambda>c. c\<lparr>croute := map_option (\<lambda>r. r\<lparr>remoteID := Name opts\<rparr>) (croute c)\<rparr>) w2
                      else w2)
            in (None, if Verbose opts then upd_client me sendOK w3 else w3))"

section \<open>Subscribing\<close>

definition parse_sub :: "nat \<Rightarrow> nat \<Rightarrow> bytes \<Rightarrow> subscription option" where
  "parse_sub me p argo =
     (let args = splitArg argo;
          mk = (\<lambda>subj q sid. \<lparr>sub_ptr = p, sub_client = Some me, sub_subject = subj, sub_queue = q, sub_sid = sid\<rparr>)
      in if length args = 2 then Some (mk (args ! 0) None (args ! 1))
         else if length args = 3 then Some (mk (args ! 0) (Some (args ! 1)) (args ! 2))
         else None)"

definition sub_allowed :: "env \<Rightarrow> bytes \<Rightarrow> client \<Rightarrow> bool \<times> client" where
  "sub_allowed E subject c =
     (case perms c of
        None \<Rightarrow> (True, c)
      | Some ps \<Rightarrow>
          let (r, l) = Match (e_ev E) subject (perm_sub ps)
          in (length (res_psubs r) \<noteq> 0, c\<lparr>perms := Some (ps\<lparr>perm_sub := l\<rparr>)\<rparr>))"

text \<open>The part under the lock: at most one subscription per sid; an invalid subject is undone.\<close>

definition register_sub :: "nat \<Rightarrow> subscription \<Rightarrow> server \<Rightarrow> sl_error option \<times> bool \<times> server" where
  "register_sub me sub w =
     (let c = the_client me w in
      if map_of (subs c) (sub_sid sub) \<noteq> None then (None, False, w)
      else
        let (e, l) = Insert sub (sl w);
            w' = w\<lparr>sl := l\<rparr>
        in case e of
          Some x \<Rightarrow> (Some x, False, w')
        | None \<Rightarrow> (None, ctyp c \<noteq> ROUTER,
            upd_client me (\<lambda>c. c\<lparr>subs := AList.update (sub_sid sub) sub (subs c)\<rparr>) w'))"

definition processSub :: "env \<Rightarrow> nat \<Rightarrow> bytes \<Rightarrow> server \<Rightarrow> perr option \<times> server" where
  "processSub E me argo w0 =
     (let w = upd_client me (\<lambda>c. c\<lparr>rcache := rcache c\<lparr>rc_subs := rc_subs (rcache c) + 1\<rparr>\<rparr>) w0;
          p = next_ptr w
      in case parse_sub me p argo of
        None \<Rightarrow> (Some (ErrText (''processSub Parse Error: '' @ argo)), w)
      | Some sub \<Rightarrow>
          let w1 = w\<lparr>next_ptr := p + 1, nm := (nm w)(p := 0), smax := (smax w)(p := 0)\<rparr>;
              c = the_client me w1
          in
          if nc c = None then (None, w1)
          else
            let (allowed, c1) = sub_allowed E (sub_subject sub) c;
                w2 = w1\<lparr>heap := (heap w1)(me \<mapsto> c1)\<rparr>
            in
            if \<not> allowed then
              (None, upd_client me (sendErr (''Permissions Violation for Subscription to '' @ e_quote E (sub_subject sub))) w2)
            else
              let (err, fwd, w3) = register_sub me sub w2 in
              if err \<noteq> None then (None, upd_client me (sendErr ''Invalid Subject'') w3)
              else
                let w4 = (if Verbose (copts c1) then upd_client me sendOK w3 else w3)
                in (None, if fwd then broadcastSubscribe sub w4 else w4))"

definition unsubscribe :: "nat \<Rightarrow> subscription \<Rightarrow> server \<Rightarrow> server" where
  "unsubscribe d sub w =
     (let m = smax w (sub_ptr sub); n = nm w (sub_ptr sub) in
      if m > 0 \<and> n < m then w
      else remove_sub sub (upd_client d (\<lambda>c. c\<lparr>subs := AList.delete (sub_sid sub) (subs c)\<rparr>) w))"

definition apply_unsub :: "nat \<Rightarrow> bool \<Rightarrow> int \<Rightarrow> subscription \<Rightarrow> server \<Rightarrow> server" where
  "apply_unsub me fwd m sub w =
     (let w1 = w\<lparr>smax := (smax w)(sub_ptr sub := (if m > 0 then m else 0))\<rparr>;
          w2 = unsubscribe me sub w1
      in if fwd then broadcastUnSubscribe sub w2 else w2)"

definition processUnsub :: "nat \<Rightarrow> bytes \<Rightarrow> server \<Rightarrow> perr option \<times> server" where
  "processUnsub me arg w =
     (let args = splitArg arg in
      if length args \<noteq> 1 \<and> length args \<noteq> 2 then
        (Some (ErrText (''processUnsub Parse Error: '' @ arg)), w)
      else
        let sid = args ! 0;
            m = (if length args = 2 then parseSize (args ! 1) else -1);
            w1 = upd_client me (\<lambda>c. c\<lparr>rcache := rcache c\<lparr>rc_subs := rc_subs (rcache c) + 1\<rparr>\<rparr>) w;
            c = the_client me w1;
            w2 = (case map_of (subs c) sid of
                    None \<Rightarrow> w1
                  | Some sub \<Rightarrow> apply_unsub me (ctyp c \<noteq> ROUTER) m sub w1)
        in (None, if Verbose (copts c) then upd_client me sendOK w2 else w2))"

section \<open>Delivering\<close>

record pubArg =
  pa_subject :: bytes
  pa_reply :: "bytes option"
  pa_sid :: bytes
  pa_szb :: bytes
  pa_size :: int

definition msgHeader :: "pubArg \<Rightarrow> bytes \<Rightarrow> subscription \<Rightarrow> bytes" where
  "msgHeader pa mh sub =
     mh @ sub_sid sub @ '' '' @
     (case pa_reply pa of None \<Rightarrow> [] | Some r \<Rightarrow> r @ '' '') @ pa_szb pa @ [CR, LF]"

definition LEN_CR_LF :: int where "LEN_CR_LF = 2"

text \<open>
  The part of deliverMsg under the lock of the receiving client. Two writes; the first error
  ends it. The result tells whether the connection has to be closed as a slow consumer.
\<close>

definition deliver_body :: "nat \<Rightarrow> nat \<Rightarrow> bytes \<Rightarrow> bytes \<Rightarrow> server \<Rightarrow> server" where
  "deliver_body me d mh msg w =
     (let c = the_client d w in
      if nc c = None then w
      else
        let msgSize = int (length msg) - LEN_CR_LF;
            c1 = c\<lparr>outMsgs := wrap64 (outMsgs c + 1), outBytes := wrap64 (outBytes c + msgSize)\<rparr>;
            w1 = w\<lparr>sOutMsgs := wrap64 (sOutMsgs w + 1), sOutBytes := wrap64 (sOutBytes w + msgSize)\<rparr>;
            (e1, c2) = bw_write mh c1;
            (e, c3) = (if e1 \<noteq> WOk then (e1, c2) else bw_write msg c2);
            w2 = w1\<lparr>heap := (heap w1)(d \<mapsto> c3)\<rparr>
        in case e of
          WOk \<Rightarrow> upd_client me (\<lambda>c. c\<lparr>pcd := List.insert d (pcd c)\<rparr>) w2
        | WTimeout \<Rightarrow> closeConnection d (w2\<lparr>slowConsumers := wrap64 (slowConsumers w2 + 1)\<rparr>)
        | WErr \<Rightarrow> w2)"

definition drop_sub :: "nat \<Rightarrow> bool \<Rightarrow> subscription \<Rightarrow> server \<Rightarrow> server" where
  "drop_sub d fwd sub w =
     (let w' = unsubscribe d sub w in if fwd then broadcastUnSubscribe sub w' else w')"

definition deliverMsg :: "nat \<Rightarrow> subscription \<Rightarrow> bytes \<Rightarrow> bytes \<Rightarrow> server \<Rightarrow> server" where
  "deliverMsg me sub mh msg w =
     (case sub_client sub of
        None \<Rightarrow> w
      | Some d \<Rightarrow>
          let p = sub_ptr sub;
              w1 = w\<lparr>nm := (nm w)(p := wrap64 (nm w p + 1))\<rparr>;
              fwd = (ctyp (the_client d w1) \<noteq> ROUTER)
          in
          if smax w1 p > 0 \<and> nm w1 p = smax w1 p then
            drop_sub d fwd sub (deliver_body me d mh msg w1)
          else if smax w1 p > 0 \<and> nm w1 p > smax w1 p then drop_sub d fwd sub w1
          else deliver_body me d mh msg w1)"

section \<open>Route subscription ids\<close>

definition is_digit :: "char \<Rightarrow> bool" where
  "is_digit c \<longleftrightarrow> 48 \<le> byte_val c \<and> byte_val c \<le> 57"

definition re_space :: "char \<Rightarrow> bool" where
  "re_space c \<longleftrightarrow> c = SPC \<or> c = TAB \<or> c = LF \<or> c = CHR 0x0C \<or> c = CR"

text \<open>
  The regular expression \<^verbatim>\<open>QRSID:(\d+):([^\s]+)\<close> at one position, and its leftmost match. The
  digits are matched greedily, and a colon is not a digit, so there is nothing to backtrack.
\<close>

definition qrsid_at :: "bytes \<Rightarrow> (bytes \<times> bytes) option" where
  "qrsid_at s =
     (if hasPrefix s ''QRSID:'' then
        let r = drop 6 s;
            ds = takeWhile is_digit r;
            t = dropWhile is_digit r
        in if ds \<noteq> [] \<and> t \<noteq> [] \<and> hd t = CHR '':'' then
             let sid = takeWhile (\<lambda>c. \<not> re_space c) (tl t)
             in if sid \<noteq> [] then Some (ds, sid) else None
           else None
      else None)"

fun qrsid_find :: "bytes \<Rightarrow> (bytes \<times> bytes) option" where
  "qrsid_find [] = None"
| "qrsid_find (b # s) = (case qrsid_at (b # s) of Some m \<Rightarrow> Some m | None \<Rightarrow> qrsid_find s)"

definition routeSidQueueSubscriber :: "bytes \<Rightarrow> server \<Rightarrow> subscription option \<times> bool" where
  "routeSidQueueSubscriber rsid w =
     (if \<not> hasPrefix rsid QRSID then (None, False)
      else case qrsid_find rsid of
        None \<Rightarrow> (None, False)
      | Some (ds, sid) \<Rightarrow>
          let i = nat (parseInt64 ds mod 2 ^ 64) in
          if i \<notin> set (clients w) then (None, True)
          else (map_of (subs (the_client i w)) sid, True))"

section \<open>Publishing\<close>

definition pubPermissionViolation :: "env \<Rightarrow> nat \<Rightarrow> bytes \<Rightarrow> server \<Rightarrow> server" where
  "pubPermissionViolation E me subject w =
     upd_client me (sendErr (''Permissions Violation for Publish to '' @ e_quote E subject)) w"

definition is_reserved :: "bytes \<Rightarrow> bool" where
  "is_reserved subject \<longleftrightarrow> hasPrefix subject ''_SYS.''"

text \<open>The pruning loops delete the first \<open>pruneSize + 1\<close> keys of an iteration over a map.\<close>

definition prune_results :: "bytes list \<Rightarrow> readCache \<Rightarrow> readCache" where
  "prune_results ks rc =
     rc\<lparr>rc_results := map_option (\<lambda>m. fold AList.delete (take (pruneSize + 1) ks) m) (rc_results rc)\<rparr>"

definition pub_allowed :: "env \<Rightarrow> bytes \<Rightarrow> client \<Rightarrow> bool \<times> client" where
  "pub_allowed E subject c =
     (case perms c of
        None \<Rightarrow> (True, c)
      | Some ps \<Rightarrow>
          case map_of (pcache ps) subject of
            Some allowed \<Rightarrow> (allowed, c)
          | None \<Rightarrow>
              let (r, l) = Match (e_ev E) subject (perm_pub ps);
                  allowed = (length (res_psubs r) \<noteq> 0);
                  ps' = ps\<lparr>perm_pub := l, pcache := AList.update subject allowed (pcache ps)\<rparr>;
                  c1 = c\<lparr>perms := Some ps'\<rparr>
              in (allowed,
                  if length (pcache ps') > maxPermCacheSize
                  then c1\<lparr>rcache := prune_results (e_order E (map fst (pcache ps'))) (rcache c1)\<rparr>
                  else c1))"

text \<open>The result for a subject, from the cache of the read loop while no subscription changed.\<close>

definition cached_match :: "env \<Rightarrow> nat \<Rightarrow> bytes \<Rightarrow> server \<Rightarrow> SublistResult \<times> server" where
  "cached_match E me subject w =
     (let c = the_client me w;
          rc = rcache c;
          gid = genid (sl w);
          rc1 = (if gid = rc_genid rc \<and> rc_results rc \<noteq> None then rc
                 else rc\<lparr>rc_results := Some [], rc_genid := gid\<rparr>);
          hit = map_of (the (rc_results rc1)) subject
      in case hit of
        Some r \<Rightarrow> (r, w\<lparr>heap := (heap w)(me \<mapsto> c\<lparr>rcache := rc1\<rparr>)\<rparr>)
      | None \<Rightarrow>
          let (r, l) = Match (e_ev E) subject (sl w);
              m = AList.update subject r (the (rc_results rc1));
              rc2 = rc1\<lparr>rc_results := Some m\<rparr>;
              rc3 = (if length m > maxResultCacheSize
                     then prune_results (e_order E (map fst m)) rc2 else rc2)
          in (r, w\<lparr>sl := l, heap := (heap w)(me \<mapsto> c\<lparr>rcache := rc3\<rparr>)\<rparr>))"

text \<open>
  Whether a plain subscription is sent to: always, unless it belongs to a route; then only
  for messages of clients, only to an identified open route, and once per remote server.
\<close>

definition send_to :: "bool \<Rightarrow> bytes list \<Rightarrow> client \<Rightarrow> bool \<times> bytes list" where
  "send_to isRoute rmap d =
     (if ctyp d = ROUTER then
        if isRoute then (False, rmap)
        else case croute d of
          None \<Rightarrow> (False, rmap)
        | Some r \<Rightarrow>
            if nc d = None \<or> remoteID r = [] then (False, rmap)
            else if remoteID r \<in> set rmap then (False, rmap)
            else (True, remoteID r # rmap)
      else (True, rmap))"

fun deliver_plain :: "nat \<Rightarrow> bool \<Rightarrow> pubArg \<Rightarrow> bytes \<Rightarrow> bytes \<Rightarrow> bytes list \<Rightarrow> subscription list \<Rightarrow> server \<Rightarrow> server" where
  "deliver_plain me isRoute pa msgh msg rmap [] w = w"
| "deliver_plain me isRoute pa msgh msg rmap (sub # ss) w =
     (let (ok, rmap') = send_to isRoute rmap (the_client (sub_cid sub) w)
      in deliver_plain me isRoute pa msgh msg rmap' ss
           (if ok then deliverMsg me sub (msgHeader pa msgh sub) msg w else w))"

fun deliver_queues :: "env \<Rightarrow> nat \<Rightarrow> pubArg \<Rightarrow> bytes \<Rightarrow> bytes \<Rightarrow> nat \<Rightarrow> subscription list list \<Rightarrow> server \<Rightarrow> server" where
  "deliver_queues E me pa msgh msg i [] w = w"
| "deliver_queues E me pa msgh msg i (qsubs # qs) w =
     (let sub = qsubs ! (e_pick E i mod length qsubs)
      in deliver_queues E me pa msgh msg (Suc i) qs (deliverMsg me sub (msgHeader pa msgh sub) msg w))"

definition deliver_all :: "env \<Rightarrow> nat \<Rightarrow> pubArg \<Rightarrow> bytes \<Rightarrow> SublistResult \<Rightarrow> server \<Rightarrow> server" where
  "deliver_all E me pa msg r w =
     (let msgh = ''MSG '' @ pa_subject pa @ '' '';
          isRoute = (ctyp (the_client me w) = ROUTER);
          direct = (if isRoute then routeSidQueueSubscriber (pa_sid pa) w else (None, False))
      in case direct of
        (Some sub, True) \<Rightarrow> deliverMsg me sub (msgHeader pa msgh sub) msg w
      | (None, True) \<Rightarrow> w
      | (_, False) \<Rightarrow>
          let w1 = deliver_plain me isRoute pa msgh msg [] (res_psubs r) w
          in if isRoute then w1 else deliver_queues E me pa msgh msg 0 (res_qsubs r) w1)"

definition count_in :: "bytes \<Rightarrow> client \<Rightarrow> client" where
  "count_in msg c =
     c\<lparr>rcache := rcache c\<lparr>rc_inMsgs := rc_inMsgs (rcache c) + 1,
        rc_inBytes := rc_inBytes (rcache c) + (int (length msg) - LEN_CR_LF)\<rparr>\<rparr>"

definition processMsg :: "env \<Rightarrow> nat \<Rightarrow> pubArg \<Rightarrow> bytes \<Rightarrow> server \<Rightarrow> server" where
  "processMsg E me pa msg w0 =
     (let w = upd_client me (count_in msg) w0;
          subject = pa_subject pa
      in
      if is_reserved subject then pubPermissionViolation E me subject w
      else
        let (allowed, c1) = pub_allowed E subject (the_client me w);
            w1 = w\<lparr>heap := (heap w)(me \<mapsto> c1)\<rparr>
        in
        if \<not> allowed then pubPermissionViolation E me subject w1
        else
          let w2 = (if Verbose (copts c1) then upd_client me sendOK w1 else w1);
              (r, w3) = cached_match E me subject w2
          in
          if res_psubs r = [] \<and> res_qsubs r = [] then w3
          else if Pedantic (copts c1) \<and> \<not> IsValidLiteralSubject subject then w3
          else deliver_all E me pa msg r w3)"

section \<open>Arguments of PUB and MSG\<close>

definition pub_args :: "bytes \<Rightarrow> pubArg \<Rightarrow> pubArg option" where
  "pub_args arg pa =
     (let args = splitArg arg in
      if length args = 2 then
        Some (pa\<lparr>pa_subject := args ! 0, pa_reply := None, pa_size := parseSize (args ! 1), pa_szb := args ! 1\<rparr>)
      else if length args = 3 then
        Some (pa\<lparr>pa_subject := args ! 0, pa_reply := Some (args ! 1), pa_size := parseSize (args ! 2), pa_szb := args ! 2\<rparr>)
      else None)"

definition processPub :: "nat \<Rightarrow> bytes \<Rightarrow> pubArg \<Rightarrow> server \<Rightarrow> perr option \<times> pubArg \<times> server" where
  "processPub me arg pa0 w =
     (case pub_args arg pa0 of
        None \<Rightarrow> (Some (ErrText (''processPub Parse Error: '' @ arg)), pa0, w)
      | Some pa \<Rightarrow>
          let c = the_client me w in
          if pa_size pa < 0 then (Some (ErrText (''processPub Bad or Missing Size: '' @ arg)), pa, w)
          else if mpay c > 0 \<and> pa_size pa > mpay c then (Some ErrMaxPayload, pa, maxPayloadViolation me w)
          else (None, pa,
            if Pedantic (copts c) \<and> \<not> IsValidLiteralSubject (pa_subject pa)
            then upd_client me (sendErr ''Invalid Subject'') w else w))"

definition msg_args :: "bytes \<Rightarrow> pubArg \<Rightarrow> pubArg option" where
  "msg_args arg pa =
     (let args = splitArg arg in
      if length args = 3 then
        Some (pa\<lparr>pa_reply := None, pa_szb := args ! 2, pa_size := parseSize (args ! 2)\<rparr>)
      else if length args = 4 then
        Some (pa\<lparr>pa_reply := Some (args ! 2), pa_szb := args ! 3, pa_size := parseSize (args ! 3)\<rparr>)
      else None)"

definition processMsgArgs :: "bytes \<Rightarrow> pubArg \<Rightarrow> perr option \<times> pubArg" where
  "processMsgArgs arg pa0 =
     (case msg_args arg pa0 of
        None \<Rightarrow> (Some (ErrText (''processMsgArgs Parse Error: '' @ arg)), pa0)
      | Some pa \<Rightarrow>
          if pa_size pa < 0 then (Some (ErrText (''processMsgArgs Bad or Missing Size: '' @ arg)), pa)
          else (None, pa\<lparr>pa_subject := splitArg arg ! 0, pa_sid := splitArg arg ! 1\<rparr>))"

end
