(* ===== verification/Server_Ops.thy ===== *)
theory Server_Ops
  imports Client_Ops
begin

text \<open>
  The server's side (src/server/server.go and route.go): accepting clients and routes, the
  tables of clients, routes and remotes, the spreading of interest and of server information
  in the cluster, and shutdown.
\<close>

section \<open>Clients\<close>

definition emptyReadCache :: readCache where
  "emptyReadCache = \<lparr>rc_genid = 0, rc_results = None, rc_inMsgs = 0, rc_inBytes = 0, rc_subs = 0\<rparr>"

definition initClient :: "ctype \<Rightarrow> clientOpts \<Rightarrow> conn \<Rightarrow> int \<Rightarrow> route option \<Rightarrow> nat \<Rightarrow> client" where
  "initClient t opts k pay r i =
     \<lparr>ctyp = t, cid = i, copts = opts, nc = Some k, mpay = pay, out = [], subs = [], perms = None,
      rcache = emptyReadCache, pcd = [], atmr = False, ptmr = False, pout = 0, croute = r, flags = 0,
      inMsgs = 0, outMsgs = 0, inBytes = 0, outBytes = 0\<rparr>"

text \<open>
  createClient, with the outcome of the TLS handshake as an argument: \<open>None\<close> when no TLS is
  required or the connection is internal. The result is the id of the client when it stays.
\<close>

definition createClient :: "bool \<Rightarrow> conn \<Rightarrow> bool option \<Rightarrow> server \<Rightarrow> nat option \<times> server" where
  "createClient isInternal k handshake w =
     (let i = gcid w + 1;
          c0 = initClient (if isInternal then INTERNALCLI else CLIENT) defaultOpts k (infoMaxPayload w) None i;
          c1 = c0\<lparr>atmr := (\<not> isInternal \<and> infoAuthRequired w)\<rparr>;
          c2 = sendInfo (infoJSON w) c1;
          w1 = w\<lparr>gcid := i, totalClients := totalClients w + 1, heap := (heap w)(i \<mapsto> c2)\<rparr>
      in
      if \<not> running w then (Some i, w1)
      else if optMaxConn w > 0 \<and> int (length (clients w)) \<ge> optMaxConn w then (None, maxConnExceeded i w1)
      else
        let w2 = w1\<lparr>clients := List.insert i (clients w1)\<rparr> in
        if \<not> isInternal \<and> handshake = Some False then
          (None, closeConnection i (upd_client i (sendErr ''Secure Connection - TLS Required'') w2))
        else
          let w3 = (if \<not> isInternal \<and> handshake = Some True
                    then upd_client i (\<lambda>c. c\<lparr>nc := map_option (\<lambda>k. k\<lparr>ckind := TLSConn\<rparr>) (nc c)\<rparr>) w2 else w2)
          in (Some i, if isInternal then w3 else upd_client i (\<lambda>c. c\<lparr>ptmr := True\<rparr>) w3))"

definition SetClientAuthMethod :: "auth \<Rightarrow> (server \<Rightarrow> bytes) \<Rightarrow> server \<Rightarrow> server" where
  "SetClientAuthMethod m gen w =
     (let w1 = w\<lparr>infoAuthRequired := True, cAuth := Some m\<rparr> in w1\<lparr>infoJSON := gen w1\<rparr>)"

definition SetRouteAuthMethod :: "auth \<Rightarrow> server \<Rightarrow> server" where
  "SetRouteAuthMethod m w = w\<lparr>rAuth := Some m\<rparr>"

definition configureAuth :: "User list option \<Rightarrow> bytes \<Rightarrow> bytes \<Rightarrow> bytes \<Rightarrow> bytes \<Rightarrow> bytes \<Rightarrow> (server \<Rightarrow> bytes) \<Rightarrow> server \<Rightarrow> server" where
  "configureAuth us u p tok cu cp gen w =
     (let w1 = (case client_auth us u p tok of None \<Rightarrow> w | Some m \<Rightarrow> SetClientAuthMethod m gen w)
      in case route_auth cu cp of None \<Rightarrow> w1 | Some m \<Rightarrow> SetRouteAuthMethod m w1)"

text \<open>Shutdown closes every connection of the three tables, in any order.\<close>

definition Shutdown :: "(nat list \<Rightarrow> nat list) \<Rightarrow> server \<Rightarrow> server" where
  "Shutdown ord w =
     (if \<not> running w then w
      else
        let w1 = w\<lparr>running := False\<rparr>;
            conns = remdups (clients w1 @ grTmpClients w1 @ routes w1)
        in fold closeConnection (ord conns) w1)"

section \<open>Server information\<close>

definition updateServerINFO :: "(server \<Rightarrow> bytes) \<Rightarrow> bytes list \<Rightarrow> server \<Rightarrow> bool \<times> server" where
  "updateServerINFO gen urls w =
     (if optNoAdvertise w then (False, w)
      else
        let us = fold (\<lambda>u us. if u \<in> set us then us else us @ [u]) urls (connectURLs w);
            w1 = w\<lparr>connectURLs := us\<rparr>
        in if us \<noteq> connectURLs w then (True, w1\<lparr>infoJSON := gen w1\<rparr>) else (False, w))"

definition async_info :: "bytes \<Rightarrow> client \<Rightarrow> client" where
  "async_info proto c =
     (if \<not> flag_isSet (flags c) connectReceived then c\<lparr>flags := flag_set (flags c) infoUpdated\<rparr>
      else if Protocol (copts c) \<ge> ClientProtoInfo then
        if flag_isSet (flags c) firstPongSent then sendInfo proto c
        else c\<lparr>flags := flag_set (flags c) infoUpdated\<rparr>
      else c)"

definition sendAsyncInfoToClients :: "server \<Rightarrow> server" where
  "sendAsyncInfoToClients w =
     (if cproto w = 0 then w
      else fold (\<lambda>i. upd_client i (async_info (infoJSON w))) (clients w) w)"

section \<open>Routes\<close>

record Info =
  InfoID :: bytes
  InfoHostPort :: bytes
  InfoAuthRequired :: bool
  InfoTLSRequired :: bool
  InfoIP :: bytes
  InfoConnectURLs :: "bytes list"

text \<open>Sends the subscriptions of the local clients to a route, in one write.\<close>

definition sendLocalSubsToRoute :: "nat \<Rightarrow> server \<Rightarrow> server" where
  "sendLocalSubsToRoute r w =
     (let b = concat (map (\<lambda>i. concat (map (\<lambda>(sid, sub). subProto sub) (subs (the_client i w)))) (clients w))
      in upd_client r (\<lambda>c. snd (sendProto b True c)) w)"

fun bytes_less :: "bytes \<Rightarrow> bytes \<Rightarrow> bool" where
  "bytes_less a [] = False"
| "bytes_less [] (c # cs) = True"
| "bytes_less (b # bs) (c # cs) =
     ((of_char b :: nat) < of_char c \<or> (b = c \<and> bytes_less bs cs))"

text \<open>
  addRoute: when the remote is already registered and this route was solicited, both
  connections share the route object from then on, with the retry flag of the first.
\<close>

definition addRoute :: "nat \<Rightarrow> server \<Rightarrow> (bool \<times> bool) \<times> server" where
  "addRoute i w =
     (let c = the_client i w;
          r = the (croute c);
          id = remoteID r
      in
      if \<not> running w then ((False, False), w)
      else case map_of (remotes w) id of
        None \<Rightarrow>
          let w1 = w\<lparr>grTmpClients := removeAll i (grTmpClients w), routes := List.insert i (routes w),
                     remotes := AList.update id i (remotes w)\<rparr>;
              w2 = (if bytes_less (infoID w) id
                    then upd_client i (\<lambda>c. c\<lparr>croute := Some (r\<lparr>retry := True\<rparr>)\<rparr>) w1 else w1)
          in ((True, length (routes w2) > 1), w2)
      | Some rem \<Rightarrow>
          let keep = (case croute (the_client rem w) of None \<Rightarrow> False | Some x \<Rightarrow> retry x);
              share = (\<lambda>d. d\<lparr>croute := Some (r\<lparr>retry := keep\<rparr>)\<rparr>);
              w1 = (if didSolicit r then upd_client i share (upd_client rem share w) else w)
          in ((False, False), w1))"

definition hasThisRouteConfigured :: "(bytes \<Rightarrow> bytes) \<Rightarrow> Info \<Rightarrow> server \<Rightarrow> bool" where
  "hasThisRouteConfigured lower info w =
     (\<exists>h \<in> set (optRoutes w). lower h = lower (InfoHostPort info))"

definition processImplicitRoute :: "(bytes \<Rightarrow> bytes) \<Rightarrow> (bytes \<Rightarrow> bytes option) \<Rightarrow> Info \<Rightarrow> server \<Rightarrow> server" where
  "processImplicitRoute lower parseURL info w =
     (if InfoID info = infoID w then w
      else if map_of (remotes w) (InfoID info) \<noteq> None then w
      else if hasThisRouteConfigured lower info w then w
      else case parseURL (InfoIP info) of
        None \<Rightarrow> w
      | Some u \<Rightarrow> w\<lparr>dialing := dialing w @ [(Some u, Implicit)]\<rparr>)"

definition forwardNewRouteInfoToKnownServers :: "bytes \<Rightarrow> Info \<Rightarrow> server \<Rightarrow> server" where
  "forwardNewRouteInfoToKnownServers proto info w =
     fold (\<lambda>i. upd_client i (\<lambda>c. if (case croute c of None \<Rightarrow> [] | Some r \<Rightarrow> remoteID r) \<noteq> InfoID info
                                then sendInfo proto c else c)) (routes w) w"

text \<open>
  The last part of createRoute: the connection becomes the TLS one, the ping timer is set, a
  solicited route sends its CONNECT, then the INFO of the server goes out, and an accepted
  route gets a timer for its authorization when one is required.
\<close>

definition start_route :: "bytes \<Rightarrow> bytes \<Rightarrow> bool \<Rightarrow> bool \<Rightarrow> bool \<Rightarrow> client \<Rightarrow> client" where
  "start_route conProto info solicited tls authReq c =
     (let c1 = (if tls then c\<lparr>nc := map_option (\<lambda>k. k\<lparr>ckind := TLSConn\<rparr>) (nc c)\<rparr> else c);
          c2 = c1\<lparr>ptmr := True\<rparr>;
          c3 = (if solicited then snd (sendProto conProto True c2) else c2)
      in (sendInfo info c3)\<lparr>atmr := (authReq \<and> \<not> solicited)\<rparr>)"

text \<open>
  createRoute: \<open>rURL\<close> is the host of the route when it was solicited, \<open>handshake\<close> the outcome
  of the TLS handshake when one is required, \<open>conProto\<close> the CONNECT line that sendConnect
  builds for the route.
\<close>

definition createRoute :: "(bytes \<Rightarrow> bytes) \<Rightarrow> bytes \<Rightarrow> conn \<Rightarrow> bytes option \<Rightarrow> bool option \<Rightarrow> server \<Rightarrow> nat option \<times> server" where
  "createRoute lower conProto k rURL handshake w =
     (let i = gcid w + 1;
          explicit = (case rURL of None \<Rightarrow> False | Some h \<Rightarrow> \<exists>x \<in> set (optRoutes w). lower h = lower x);
          r = \<lparr>remoteID = [], didSolicit = (rURL \<noteq> None), retry = False,
               routeType = (if explicit then Explicit else Implicit), url = rURL,
               authRequired = False, tlsRequired = False\<rparr>;
          c0 = initClient ROUTER emptyOpts k 0 (Some r) i;
          w1 = w\<lparr>gcid := i, heap := (heap w)(i \<mapsto> c0)\<rparr>
      in
      if handshake = Some False then
        (None, closeConnection i (upd_client i (sendErr ''Secure Connection - TLS Required'') w1))
      else
        let w2 = w1\<lparr>grTmpClients := List.insert i (grTmpClients w1)\<rparr>
        in (Some i, upd_client i (start_route conProto (routeInfoJSON w) (rURL \<noteq> None)
                                    (handshake = Some True) (routeAuthRequired w)) w2))"

text \<open>
  processRouteInfo, with the parsing and printing of URLs and of the INFO line of the new
  route (\<open>fwd\<close>) as arguments.
\<close>

definition route_added :: "(server \<Rightarrow> bytes) \<Rightarrow> bytes \<Rightarrow> nat \<Rightarrow> Info \<Rightarrow> bool \<Rightarrow> server \<Rightarrow> server" where
  "route_added gen fwd me info sendI w1 =
     (let w2 = sendLocalSubsToRoute me w1;
          w3 = (if sendI then forwardNewRouteInfoToKnownServers fwd info w2 else w2);
          (upd, w4) = updateServerINFO gen (InfoConnectURLs info) w3
      in if upd then sendAsyncInfoToClients w4 else w4)"

definition processRouteInfo ::
  "(bytes \<Rightarrow> bytes) \<Rightarrow> (bytes \<Rightarrow> bytes option) \<Rightarrow> (server \<Rightarrow> bytes) \<Rightarrow> bytes \<Rightarrow> nat \<Rightarrow> Info \<Rightarrow> server \<Rightarrow> server" where
  "processRouteInfo lower parseURL gen fwd me info w =
     (let c = the_client me w in
      case (croute c, nc c) of
        (Some r, Some k) \<Rightarrow>
          if remoteID r \<noteq> [] \<and> remoteID r \<noteq> InfoID info then processImplicitRoute lower parseURL info w
          else
            let set_route = (\<lambda>r w. upd_client me (\<lambda>c. c\<lparr>croute := Some r\<rparr>) w);
                r1 = r\<lparr>remoteID := InfoID info\<rparr>
            in
            if InfoID info = infoID w then closeConnection me (set_route r1 w)
            else
              let r2 = r1\<lparr>authRequired := InfoAuthRequired info, tlsRequired := InfoTLSRequired info\<rparr> in
              if url r2 = None \<and> parseURL (InfoHostPort info) = None then closeConnection me (set_route r2 w)
              else
                let r3 = (if url r2 = None then r2\<lparr>url := parseURL (InfoHostPort info)\<rparr> else r2);
                    ((added, sendI), w1) = addRoute me (set_route r3 w)
                in
                if \<not> added then closeConnection me w1
                else route_added gen fwd me info sendI w1
      | _ \<Rightarrow> w)"

section \<open>Starting\<close>

text \<open>New and the part of Start that changes the state; the listeners are not modelled.\<close>

definition New :: "bytes \<Rightarrow> (server \<Rightarrow> bytes) \<Rightarrow> int \<Rightarrow> int \<Rightarrow> int \<Rightarrow> bool \<Rightarrow> bytes list \<Rightarrow> server" where
  "New sid gen maxPayload maxConn maxPings noAdv rts =
     (let w = \<lparr>gcid = 0, infoID = sid, infoJSON = [], infoMaxPayload = maxPayload, infoAuthRequired = False,
        sl = NewSublist, optMaxConn = maxConn, optMaxPingsOut = maxPings, running = False, clients = [],
        routes = [], remotes = [], grTmpClients = [], totalClients = 0, cproto = 0, sInMsgs = 0, sInBytes = 0, sOutMsgs = 0,
        sOutBytes = 0, slowConsumers = 0, heap = (\<lambda>_. None), nm = (\<lambda>_. 0), smax = (\<lambda>_. 0),
        next_ptr = 0, cAuth = None, rAuth = None, routeInfoJSON = [], routeAuthRequired = False,
        connectURLs = [], optNoAdvertise = noAdv, optRoutes = rts, dialing = []\<rparr>
      in w\<lparr>infoJSON := gen w\<rparr>)"

definition Start :: "server \<Rightarrow> server" where
  "Start w = w\<lparr>running := True\<rparr>"

end
