(* ===== verification/Server_Inv.thy ===== *)
theory Server_Inv
  imports Server_Ops
begin

text \<open>
  The invariant of the server state: the subject list holds exactly the subscriptions of the
  open connections, each once, under the subject it was made with, and every handler keeps
  this. The invariant looks at a client only through its \<open>view\<close>, so handlers that only write
  to connections or change caches and counters keep it for free.
\<close>

definition view :: "server \<Rightarrow> nat \<Rightarrow> (ctype \<times> nat \<times> (bytes \<times> subscription) list \<times> bool) option" where
  "view w i = map_option (\<lambda>c. (ctyp c, cid c, subs c, nc c = None)) (heap w i)"

definition client_subs :: "server \<Rightarrow> nat \<Rightarrow> (bytes \<times> subscription) list" where
  "client_subs w i = (case heap w i of None \<Rightarrow> [] | Some c \<Rightarrow> subs c)"

definition is_open :: "server \<Rightarrow> nat \<Rightarrow> bool" where
  "is_open w i = (case heap w i of None \<Rightarrow> False | Some c \<Rightarrow> nc c \<noteq> None)"

definition live_subs :: "server \<Rightarrow> subscription set" where
  "live_subs w = {s. \<exists>i sid. is_open w i \<and> (sid, s) \<in> set (client_subs w i)}"

definition subs_ok :: "server \<Rightarrow> bool" where
  "subs_ok w \<longleftrightarrow>
     (\<forall>i. distinct (map fst (client_subs w i)) \<and>
       (\<forall>(sid, s) \<in> set (client_subs w i). sub_sid s = sid \<and> sub_client s = Some i \<and> sub_ptr s < next_ptr w \<and>
          insertable (tokens (sub_subject s)))) \<and>
     (\<forall>i j x y. x \<in> snd ` set (client_subs w i) \<longrightarrow> y \<in> snd ` set (client_subs w j) \<longrightarrow>
        sub_ptr x = sub_ptr y \<longrightarrow> x = y)"

definition sl_wf :: "Sublist \<Rightarrow> bool" where
  "sl_wf s \<longleftrightarrow> wf_level (root s) \<and> count s = of_nat (size (contents s))"

lemma sl_wf_level: "sl_wf s \<Longrightarrow> wf_level (root s)"
  by (simp add: sl_wf_def)

definition index_ok :: "server \<Rightarrow> bool" where
  "index_ok w \<longleftrightarrow> sl_wf (sl w) \<and>
     (\<forall>e. Multiset.count (contents (sl w)) e = (if e \<in> entry_of ` live_subs w then 1 else 0))"

definition tables_ok :: "server \<Rightarrow> bool" where
  "tables_ok w \<longleftrightarrow> (\<forall>i c. heap w i = Some c \<longrightarrow> cid c = i \<and> i \<le> gcid w) \<and>
     (\<forall>i \<in> set (clients w). \<exists>c. heap w i = Some c \<and> ctyp c \<noteq> ROUTER) \<and>
     (\<forall>i \<in> set (routes w). \<exists>c. heap w i = Some c \<and> ctyp c = ROUTER)"

definition winv :: "server \<Rightarrow> bool" where
  "winv w \<longleftrightarrow> subs_ok w \<and> index_ok w \<and> tables_ok w"

section \<open>Changes the invariant does not see\<close>

definition wsame :: "server \<Rightarrow> server \<Rightarrow> bool" where
  "wsame w w' \<longleftrightarrow> view w' = view w \<and> contents (sl w') = contents (sl w) \<and>
     (sl_wf (sl w) \<longrightarrow> sl_wf (sl w')) \<and> next_ptr w \<le> next_ptr w' \<and>
     gcid w' = gcid w \<and> clients w' = clients w \<and> routes w' = routes w"

lemma view_client_subs: "view w' = view w \<Longrightarrow> client_subs w' = client_subs w \<and> is_open w' = is_open w"
proof -
  assume v: "view w' = view w"
  have "client_subs w' i = client_subs w i \<and> is_open w' i = is_open w i" for i
    using fun_cong [OF v, of i] by (cases "heap w i"; cases "heap w' i")
      (auto simp: view_def client_subs_def is_open_def)
  then show ?thesis by auto
qed

lemma view_heap:
  assumes "view w' = view w" "heap w' i = Some c'"
  obtains c where "heap w i = Some c" "ctyp c = ctyp c'" "cid c = cid c'" "subs c = subs c'" "nc c = None \<longleftrightarrow> nc c' = None"
  using assms(2) fun_cong [OF assms(1), of i] that unfolding view_def by (cases "heap w i") auto

lemma wsame_refl [simp]: "wsame w w"
  by (simp add: wsame_def)

lemma wsame_if: "wsame w a \<Longrightarrow> wsame w b \<Longrightarrow> wsame w (if c then a else b)"
  by simp

lemma wsame_sym_view: "wsame w w' \<Longrightarrow> view w = view w'"
  by (simp add: wsame_def)

lemma wsame_trans [trans]: "wsame w w' \<Longrightarrow> wsame w' w'' \<Longrightarrow> wsame w w''"
  by (auto simp: wsame_def)

lemma subs_okD:
  "subs_ok w \<Longrightarrow> (sid, s) \<in> set (client_subs w i) \<Longrightarrow>
   sub_sid s = sid \<and> sub_client s = Some i \<and> sub_ptr s < next_ptr w \<and> insertable (tokens (sub_subject s))"
  unfolding subs_ok_def by fast

lemma tables_ok_view:
  assumes "view w' = view w" "gcid w' = gcid w" "clients w' = clients w" "routes w' = routes w" "tables_ok w"
  shows "tables_ok w'"
  unfolding tables_ok_def
proof (intro conjI allI impI ballI)
  fix i c'
  assume "heap w' i = Some c'"
  with assms(1) obtain c where "heap w i = Some c" "cid c = cid c'" by (rule view_heap)
  then show "cid c' = i" "i \<le> gcid w'" using assms by (auto simp: tables_ok_def)
next
  fix i
  assume "i \<in> set (clients w')"
  then obtain c where "heap w i = Some c" "ctyp c \<noteq> ROUTER"
    using assms by (auto simp: tables_ok_def)
  with assms(1) [symmetric] show "\<exists>c. heap w' i = Some c \<and> ctyp c \<noteq> ROUTER"
    by (metis view_heap)
next
  fix i
  assume "i \<in> set (routes w')"
  then obtain c where "heap w i = Some c" "ctyp c = ROUTER"
    using assms by (auto simp: tables_ok_def)
  with assms(1) [symmetric] show "\<exists>c. heap w' i = Some c \<and> ctyp c = ROUTER"
    by (metis view_heap)
qed

lemma wsame_winv:
  assumes "wsame w w'" "winv w"
  shows "winv w'"
proof -
  have v: "view w' = view w" using assms(1) by (simp add: wsame_def)
  note cs = view_client_subs [OF v]
  then have live: "live_subs w' = live_subs w" by (simp add: live_subs_def)
  have "subs_ok w'"
    using assms cs unfolding winv_def subs_ok_def wsame_def by fastforce
  moreover have "index_ok w'"
    using assms live by (auto simp: winv_def index_ok_def wsame_def)
  moreover have "tables_ok w'"
    using assms by (intro tables_ok_view [OF v]) (auto simp: wsame_def winv_def)
  ultimately show ?thesis by (simp add: winv_def)
qed

text \<open>An update of a client that keeps its view keeps the view of the state.\<close>

definition keeps_view :: "(client \<Rightarrow> client) \<Rightarrow> bool" where
  "keeps_view f \<longleftrightarrow> (\<forall>c. ctyp (f c) = ctyp c \<and> cid (f c) = cid c \<and> subs (f c) = subs c \<and> (nc (f c) = None \<longleftrightarrow> nc c = None))"

lemma wsame_upd_client [wf_intros]: "keeps_view f \<Longrightarrow> wsame w (upd_client i f w)"
  by (auto simp: wsame_def upd_client_def view_def keeps_view_def fun_eq_iff split: option.split)

lemma wsame_put [wf_intros]:
  "heap w i = Some c \<Longrightarrow> ctyp c' = ctyp c \<Longrightarrow> cid c' = cid c \<Longrightarrow> subs c' = subs c \<Longrightarrow>
   (nc c' = None \<longleftrightarrow> nc c = None) \<Longrightarrow> wsame w (w\<lparr>heap := (heap w)(i \<mapsto> c')\<rparr>)"
  by (auto simp: wsame_def view_def fun_eq_iff)

lemma bw_write_view:
  "ctyp (snd (bw_write b c)) = ctyp c \<and> cid (snd (bw_write b c)) = cid c \<and>
   subs (snd (bw_write b c)) = subs c \<and> (nc (snd (bw_write b c)) = None \<longleftrightarrow> nc c = None)"
  by (auto simp: bw_write_def Let_def split: option.split prod.split)

lemma bw_flush_view:
  "ctyp (snd (bw_flush c)) = ctyp c \<and> cid (snd (bw_flush c)) = cid c \<and>
   subs (snd (bw_flush c)) = subs c \<and> (nc (snd (bw_flush c)) = None \<longleftrightarrow> nc c = None)"
  by (auto simp: bw_flush_def Let_def split: option.split prod.split)

lemma sendProto_view:
  "ctyp (snd (sendProto b f c)) = ctyp c \<and> cid (snd (sendProto b f c)) = cid c \<and>
   subs (snd (sendProto b f c)) = subs c \<and> (nc (snd (sendProto b f c)) = None \<longleftrightarrow> nc c = None)"
  using bw_write_view [of b c] bw_flush_view [of "snd (bw_write b c)"]
  by (auto simp: sendProto_def Let_def split: prod.split)

lemma clearConnection_view:
  "ctyp (clearConnection c) = ctyp c \<and> cid (clearConnection c) = cid c \<and>
   subs (clearConnection c) = subs c \<and> (nc (clearConnection c) = None \<longleftrightarrow> nc c = None)"
  by (auto simp: clearConnection_def split: option.split)

lemma keeps_send [wf_intros]:
  "keeps_view (\<lambda>c. snd (sendProto b f c))" "keeps_view (sendErr e)" "keeps_view (sendInfo b)"
  "keeps_view sendOK"
  using sendProto_view by (auto simp: keeps_view_def sendErr_def sendInfo_def sendOK_def Let_def)

lemma wsame_fold: "(\<And>x w. x \<in> set xs \<Longrightarrow> wsame w (f x w)) \<Longrightarrow> wsame w (fold f xs w)"
  by (induction xs arbitrary: w) (auto intro: wsame_trans)

lemma wsame_broadcast [wf_intros]:
  "wsame w (broadcastInterestToRoutes b w)" "wsame w (broadcastSubscribe s w)" "wsame w (broadcastUnSubscribe s w)"
  unfolding broadcastSubscribe_def broadcastUnSubscribe_def broadcastInterestToRoutes_def
  by (auto intro!: wsame_fold wf_intros)

section \<open>Removing subscriptions\<close>

text \<open>
  A subscription that a handler holds may have been removed in the meantime; what is needed
  is that nothing else took its place.
\<close>

definition known :: "server \<Rightarrow> subscription \<Rightarrow> bool" where
  "known w sub \<longleftrightarrow> insertable (tokens (sub_subject sub)) \<and>
     (\<forall>i s. map_of (client_subs w i) (sub_sid sub) = Some s \<longrightarrow> sub_client sub = Some i \<longrightarrow> s = sub) \<and>
     (\<forall>s \<in> live_subs w. sub_ptr s = sub_ptr sub \<longrightarrow> s = sub)"

lemma entry_of_inj [simp]: "entry_of s = entry_of t \<longleftrightarrow> s = t"
  by (auto simp: entry_of_def)

lemma in_contents_iff:
  assumes "index_ok w"
  shows "e \<in># contents (sl w) \<longleftrightarrow> e \<in> entry_of ` live_subs w"
proof -
  have "Multiset.count (contents (sl w)) e = (if e \<in> entry_of ` live_subs w then 1 else 0)"
    using assms unfolding index_ok_def by blast
  then show ?thesis by (simp flip: count_greater_zero_iff)
qed

lemma known_same_sub:
  assumes "index_ok w" "known w sub"
  shows "same_sub sub (contents (sl w))"
  using assms by (auto simp: same_sub_def in_contents_iff entry_of_def known_def)

lemma own_known:
  assumes "winv w" "(sid, s) \<in> set (client_subs w i)"
  shows "known w s"
proof -
  have ok: "subs_ok w" using assms(1) by (auto simp: winv_def)
  note s = subs_okD [OF ok assms(2)]
  have "distinct (map fst (client_subs w i))" using ok by (simp add: subs_ok_def)
  then have m: "map_of (client_subs w i) (sub_sid s) = Some s" using assms(2) s by simp
  have "x = s" if "x \<in> live_subs w" "sub_ptr x = sub_ptr s" for x
  proof -
    from that(1) obtain j sid' where "(sid', x) \<in> set (client_subs w j)" by (auto simp: live_subs_def)
    then have "x \<in> snd ` set (client_subs w j)" "s \<in> snd ` set (client_subs w i)"
      using assms(2) by force+
    with ok that(2) show ?thesis unfolding subs_ok_def by blast
  qed
  with m s show ?thesis by (auto simp: known_def)
qed

lemma live_known: "winv w \<Longrightarrow> s \<in> live_subs w \<Longrightarrow> known w s"
  by (auto simp: live_subs_def intro: own_known)

lemma view_remove_sub [simp]: "view (remove_sub sub w) = view w"
  by (simp add: remove_sub_def view_def fun_eq_iff)

lemma client_subs_upd:
  "client_subs (upd_client d f w) i =
     (if i = d then (case heap w d of None \<Rightarrow> [] | Some c \<Rightarrow> subs (f c)) else client_subs w i)"
  by (auto simp: client_subs_def upd_client_def split: option.split)

lemma is_open_upd:
  "is_open (upd_client d f w) i =
     (if i = d then (case heap w d of None \<Rightarrow> False | Some c \<Rightarrow> nc (f c) \<noteq> None) else is_open w i)"
  by (auto simp: is_open_def upd_client_def split: option.split)

lemma remove_sub_sel [simp]:
  "client_subs (remove_sub sub w) = client_subs w" "is_open (remove_sub sub w) = is_open w"
  "live_subs (remove_sub sub w) = live_subs w" "next_ptr (remove_sub sub w) = next_ptr w"
  "gcid (remove_sub sub w) = gcid w" "clients (remove_sub sub w) = clients w"
  "routes (remove_sub sub w) = routes w" "heap (remove_sub sub w) = heap w"
  by (simp_all add: remove_sub_def client_subs_def is_open_def live_subs_def fun_eq_iff)

lemma Remove_wf:
  assumes "sl_wf s"
  shows "sl_wf (snd (Remove sub s))"
  using sl_wf_level [OF assms]
proof (cases rule: Remove_cases [where sub = sub])
  case (fail err)
  with assms show ?thesis by simp
next
  case (ok l s0)
  have "contents s = add_mset (path_of (sub_subject sub), s0) (contents (snd (Remove sub s)))"
    using ok(5) by (simp add: ok(6) removeFromCache_def contents_def)
  then have "size (contents s) = Suc (size (contents (snd (Remove sub s))))" by simp
  moreover have "count (snd (Remove sub s)) = count s - 1" "root (snd (Remove sub s)) = l"
    by (simp_all add: ok(6) removeFromCache_def)
  ultimately show ?thesis using assms ok(2) by (simp add: sl_wf_def)
qed

lemma Insert_wf:
  assumes "sl_wf s"
  shows "sl_wf (snd (Insert sub s))"
  using sl_wf_level [OF assms]
proof (cases rule: Insert_cases [where sub = sub])
  case (fail l)
  with assms show ?thesis by (simp add: sl_wf_def contents_def)
next
  case (ok l)
  with assms show ?thesis by (simp add: sl_wf_def addToCache_def contents_def)
qed

definition forget :: "nat \<Rightarrow> subscription \<Rightarrow> server \<Rightarrow> server" where
  "forget d sub w = remove_sub sub (upd_client d (\<lambda>c. c\<lparr>subs := AList.delete (sub_sid sub) (subs c)\<rparr>) w)"

lemma unsubscribe_forget:
  "unsubscribe d sub w =
     (if smax w (sub_ptr sub) > 0 \<and> nm w (sub_ptr sub) < smax w (sub_ptr sub) then w else forget d sub w)"
  by (simp add: unsubscribe_def forget_def Let_def)

lemma forget_client_subs:
  "client_subs (forget d sub w) i =
     (if i = d then AList.delete (sub_sid sub) (client_subs w d) else client_subs w i)"
  "is_open (forget d sub w) i = is_open w i"
  by (cases "heap w d"; simp add: forget_def client_subs_upd is_open_upd client_subs_def [of w d] is_open_def [of w d])+

lemma forget_live:
  assumes "subs_ok w" "known w sub" "sub_client sub = Some d"
  shows "live_subs (forget d sub w) = live_subs w - {sub}"
proof (intro set_eqI iffI)
  fix s
  assume "s \<in> live_subs (forget d sub w)"
  then obtain i sid where i: "is_open w i" "(sid, s) \<in> set (client_subs (forget d sub w) i)"
    by (auto simp: live_subs_def forget_client_subs)
  then have mem: "(sid, s) \<in> set (client_subs w i)" "i = d \<Longrightarrow> sid \<noteq> sub_sid sub"
    by (auto simp: forget_client_subs AList.delete_eq split: if_splits)
  with assms(1) have "sub_sid s = sid" "sub_client s = Some i" unfolding subs_ok_def by fast+
  with mem assms(3) have "s \<noteq> sub" by auto
  with i mem show "s \<in> live_subs w - {sub}" by (auto simp: live_subs_def)
next
  fix s
  assume s: "s \<in> live_subs w - {sub}"
  then obtain i sid where i: "is_open w i" "(sid, s) \<in> set (client_subs w i)" by (auto simp: live_subs_def)
  with assms(1) have k: "sub_sid s = sid" "distinct (map fst (client_subs w i))" unfolding subs_ok_def by fast+
  have "sid \<noteq> sub_sid sub" if "i = d"
    using that k i assms(2,3) s by (auto simp: known_def)
  then have "(sid, s) \<in> set (client_subs (forget d sub w) i)"
    using i by (auto simp: forget_client_subs AList.delete_eq)
  with i(1) show "s \<in> live_subs (forget d sub w)"
    unfolding live_subs_def mem_Collect_eq using forget_client_subs(2) by blast
qed

lemma forget_winv:
  assumes "winv w" "known w sub" "sub_client sub = Some d"
  shows "winv (forget d sub w)"
proof -
  have ok: "subs_ok w" "index_ok w" "tables_ok w" using assms(1) by (auto simp: winv_def)
  have sub_set: "set (client_subs (forget d sub w) i) \<subseteq> set (client_subs w i)" for i
    by (auto simp: forget_client_subs AList.delete_eq)
  have np: "next_ptr (forget d sub w) = next_ptr w"
    by (simp add: forget_def upd_client_def split: option.split)
  have "subs_ok (forget d sub w)"
    unfolding subs_ok_def np
  proof (intro conjI allI impI)
    fix i
    show "distinct (map fst (client_subs (forget d sub w) i))"
      using ok(1) by (auto simp: subs_ok_def forget_client_subs AList.delete_eq distinct_map_filter)
    show "\<forall>(sid, s) \<in> set (client_subs (forget d sub w) i). sub_sid s = sid \<and> sub_client s = Some i \<and>
        sub_ptr s < next_ptr w \<and> insertable (tokens (sub_subject s))"
      using ok(1) sub_set [of i] unfolding subs_ok_def by fast
  next
    fix i j x y
    assume "x \<in> snd ` set (client_subs (forget d sub w) i)" "y \<in> snd ` set (client_subs (forget d sub w) j)" "sub_ptr x = sub_ptr y"
    then show "x = y" using ok(1) sub_set [of i] sub_set [of j] unfolding subs_ok_def by (meson image_mono subsetD)
  qed
  moreover have "index_ok (forget d sub w)"
  proof -
    have "sl (forget d sub w) = snd (Remove sub (sl w))"
      by (simp add: forget_def remove_sub_def upd_client_def split: option.split)
    moreover have "contents (snd (Remove sub (sl w))) = contents (sl w) - {#entry_of sub#}"
      using ok(2) assms(2) known_same_sub [OF ok(2) assms(2)]
      by (intro Remove_contents) (auto simp: index_ok_def known_def sl_wf_def)
    ultimately show ?thesis
      using ok(2) forget_live [OF ok(1) assms(2,3)] Remove_wf [of "sl w" sub]
      by (auto simp: index_ok_def)
  qed
  moreover have "tables_ok (forget d sub w)"
    using ok(3) by (auto simp: tables_ok_def forget_def upd_client_def split: option.splits if_splits)
  ultimately show ?thesis by (simp add: winv_def)
qed

lemma forget_known:
  assumes "winv w" "known w sub" "sub_client sub = Some d" "known w s"
  shows "known (forget d sub w) s"
proof -
  have "live_subs (forget d sub w) \<subseteq> live_subs w"
    using forget_live [OF _ assms(2,3)] assms(1) by (auto simp: winv_def)
  moreover have "map_of (client_subs (forget d sub w) i) k = Some x \<Longrightarrow> map_of (client_subs w i) k = Some x" for i k x
    by (auto simp: forget_client_subs delete_conv' split: if_splits)
  ultimately show ?thesis using assms(4) by (auto simp: known_def)
qed

section \<open>Closing a connection\<close>

definition frame_same :: "server \<Rightarrow> server \<Rightarrow> bool" where
  "frame_same w w' \<longleftrightarrow> view w' = view w \<and> next_ptr w' = next_ptr w \<and> gcid w' = gcid w \<and>
     clients w' = clients w \<and> routes w' = routes w"

lemma frame_same_refl [simp]: "frame_same w w"
  by (simp add: frame_same_def)

lemma frame_same_trans [trans]: "frame_same w w' \<Longrightarrow> frame_same w' w'' \<Longrightarrow> frame_same w w''"
  by (simp add: frame_same_def)

lemma next_ptr_upd_client [simp]: "next_ptr (upd_client i f w) = next_ptr w"
  by (simp add: upd_client_def split: option.split)

lemma next_ptr_broadcast: "next_ptr (broadcastUnSubscribe s w) = next_ptr w"
proof -
  have "next_ptr (fold (\<lambda>r. upd_client r f) rs w) = next_ptr w" for rs f
    by (induction rs arbitrary: w) simp_all
  then show ?thesis by (simp add: broadcastUnSubscribe_def broadcastInterestToRoutes_def)
qed

lemma frame_same_broadcast: "frame_same w (broadcastUnSubscribe s w)"
  using wsame_broadcast(3) [of w s] next_ptr_broadcast [of s w] by (simp add: wsame_def frame_same_def)

lemma frame_same_remove_sub: "frame_same w (remove_sub s w)"
  by (simp add: frame_same_def)

definition drop_step :: "bool \<Rightarrow> subscription \<Rightarrow> server \<Rightarrow> server" where
  "drop_step fwd sub w = (let w' = remove_sub sub w in if fwd then broadcastUnSubscribe sub w' else w')"

lemma drop_step_frame: "frame_same w (drop_step fwd sub w)"
  using frame_same_trans [OF frame_same_remove_sub frame_same_broadcast] frame_same_remove_sub
  by (simp add: drop_step_def Let_def)

lemma drop_step_sl:
  "contents (sl (drop_step fwd sub w)) = contents (snd (Remove sub (sl w)))"
  "sl_wf (sl w) \<Longrightarrow> sl_wf (sl (drop_step fwd sub w))"
  using wsame_broadcast(3) [of "remove_sub sub w" sub] Remove_wf [of "sl w" sub]
  by (auto simp: drop_step_def Let_def remove_sub_def wsame_def)

lemma same_sub_mono: "same_sub s M \<Longrightarrow> N \<subseteq># M \<Longrightarrow> same_sub s N"
  by (auto simp: same_sub_def dest: mset_subset_eqD)

lemma fold_drop:
  assumes "sl_wf (sl w)"
    and "\<forall>s \<in> set ss. same_sub s (contents (sl w)) \<and> insertable (tokens (sub_subject s))"
  shows "frame_same w (fold (drop_step fwd) ss w) \<and> sl_wf (sl (fold (drop_step fwd) ss w)) \<and>
    contents (sl (fold (drop_step fwd) ss w)) = contents (sl w) - mset (map entry_of ss)"
  using assms
proof (induction ss arbitrary: w)
  case Nil
  then show ?case by simp
next
  case (Cons s ss)
  let ?w = "drop_step fwd s w"
  have c: "contents (sl ?w) = contents (sl w) - {#entry_of s#}"
    using Cons.prems sl_wf_level by (simp add: drop_step_sl Remove_contents)
  have "frame_same ?w (fold (drop_step fwd) ss ?w) \<and> sl_wf (sl (fold (drop_step fwd) ss ?w)) \<and>
    contents (sl (fold (drop_step fwd) ss ?w)) = contents (sl ?w) - mset (map entry_of ss)"
    using Cons.prems drop_step_sl(2) [OF Cons.prems(1)]
    by (intro Cons.IH) (auto simp: c intro: same_sub_mono)
  then show ?case using frame_same_trans [OF drop_step_frame] by (auto simp: c)
qed

definition closed_client :: "client \<Rightarrow> client" where
  "closed_client c = c\<lparr>atmr := False, ptmr := False, nc := None\<rparr>"

lemma closeConnection_steps:
  assumes "heap w d = Some c" "nc c \<noteq> None"
  shows "closeConnection d w =
    reconnect c (fold (drop_step (ctyp c \<noteq> ROUTER)) (map snd (subs c)) (removeClient d (upd_client d closed_client w)))"
proof -
  have "(\<lambda>sub w. let w' = remove_sub sub w in if ctyp c \<noteq> ROUTER then broadcastUnSubscribe sub w' else w') =
      drop_step (ctyp c \<noteq> ROUTER)"
    by (simp add: fun_eq_iff drop_step_def)
  with assms show ?thesis
    by (auto simp: closeConnection_def the_client_def Let_def closed_client_def [abs_def])
qed

lemma closeConnection_closed: "heap w d = None \<or> (\<exists>c. heap w d = Some c \<and> nc c = None) \<Longrightarrow> heap w d \<noteq> None \<Longrightarrow> closeConnection d w = w"
  by (auto simp: closeConnection_def the_client_def Let_def)

lemma removeClient_sel:
  "heap (removeClient d w) = heap w" "sl (removeClient d w) = sl w" "next_ptr (removeClient d w) = next_ptr w"
  "gcid (removeClient d w) = gcid w" "set (clients (removeClient d w)) \<subseteq> set (clients w)"
  "set (routes (removeClient d w)) \<subseteq> set (routes w)"
  by (auto simp: removeClient_def Let_def split: ctype.split)

lemma wsame_reconnect: "wsame w (reconnect c w)"
  by (auto simp: reconnect_def wsame_def view_def fun_eq_iff split: option.split)

lemma subs_ok_distinct:
  assumes "subs_ok w"
  shows "distinct (map snd (client_subs w i))"
proof -
  have "map fst (client_subs w i) = map sub_sid (map snd (client_subs w i))"
    using subs_okD [OF assms] by (force intro: map_cong)
  moreover have "distinct (map fst (client_subs w i))" using assms by (simp add: subs_ok_def)
  ultimately show ?thesis by (metis distinct_map)
qed

lemma index_ok_remove:
  assumes "index_ok w" "sl_wf (sl w')" "distinct ss" "set ss \<subseteq> live_subs w"
    "contents (sl w') = contents (sl w) - mset (map entry_of ss)" "live_subs w' = live_subs w - set ss"
  shows "index_ok w'"
proof -
  have "Multiset.count (mset (map entry_of ss)) e = (if e \<in> entry_of ` set ss then 1 else 0)" for e
  proof -
    have "distinct (map entry_of ss)" using assms(3) by (simp add: distinct_map inj_on_def)
    then show ?thesis by (metis distinct_count_atmost_1 image_set)
  qed
  with assms show ?thesis by (auto simp: index_ok_def)
qed

lemma own_live:
  assumes "heap w d = Some c" "nc c \<noteq> None" "s \<in> snd ` set (subs c)"
  shows "s \<in> live_subs w"
proof -
  from assms(3) obtain sid where "(sid, s) \<in> set (client_subs w d)" using assms(1) by (auto simp: client_subs_def)
  moreover have "is_open w d" using assms by (simp add: is_open_def)
  ultimately show ?thesis unfolding live_subs_def by blast
qed

lemma closeConnection_frame:
  assumes "winv w" "heap w d = Some c" "nc c \<noteq> None"
  shows "\<exists>w1. frame_same w1 (closeConnection d w) \<and> heap w1 = (heap w)(d \<mapsto> closed_client c) \<and>
    next_ptr w1 = next_ptr w \<and> gcid w1 = gcid w \<and> set (clients w1) \<subseteq> set (clients w) \<and>
    set (routes w1) \<subseteq> set (routes w) \<and>
    contents (sl (closeConnection d w)) = contents (sl w) - mset (map entry_of (map snd (subs c))) \<and>
    sl_wf (sl (closeConnection d w))"
proof -
  let ?w1 = "removeClient d (upd_client d closed_client w)"
  let ?ss = "map snd (subs c)"
  let ?w3 = "fold (drop_step (ctyp c \<noteq> ROUTER)) ?ss ?w1"
  have u: "upd_client d closed_client w = w\<lparr>heap := (heap w)(d \<mapsto> closed_client c)\<rparr>"
    using assms(2) by (simp add: upd_client_def)
  have w1: "heap ?w1 = (heap w)(d \<mapsto> closed_client c)" "sl ?w1 = sl w" "next_ptr ?w1 = next_ptr w" "gcid ?w1 = gcid w"
      "set (clients ?w1) \<subseteq> set (clients w)" "set (routes ?w1) \<subseteq> set (routes w)"
    using removeClient_sel(5,6) [of d "upd_client d closed_client w"] by (simp_all add: removeClient_sel u)
  have ok: "index_ok w" using assms(1) by (simp add: winv_def)
  have "s \<in> live_subs w" if "s \<in> set ?ss" for s
    using that own_live [OF assms(2,3)] by simp
  then have ss: "\<forall>s \<in> set ?ss. same_sub s (contents (sl ?w1)) \<and> insertable (tokens (sub_subject s))"
    using live_known [OF assms(1)] known_same_sub [OF ok] unfolding w1 known_def by blast
  have "sl_wf (sl ?w1)" using ok w1 by (simp add: index_ok_def)
  note f = fold_drop [OF this ss, of "ctyp c \<noteq> ROUTER"]
  have eq: "closeConnection d w = reconnect c ?w3" by (rule closeConnection_steps [OF assms(2,3)])
  have np: "next_ptr (reconnect c v) = next_ptr v" for v
    by (simp add: reconnect_def split: option.split)
  have "frame_same ?w3 (reconnect c ?w3)" using wsame_reconnect [of ?w3 c] np by (simp add: wsame_def frame_same_def)
  with f have "frame_same ?w1 (closeConnection d w)" unfolding eq using frame_same_trans by blast
  moreover have "contents (sl (closeConnection d w)) = contents (sl w) - mset (map entry_of ?ss)"
      "sl_wf (sl (closeConnection d w))"
    using f wsame_reconnect [of ?w3 c] w1 unfolding eq by (auto simp: wsame_def)
  ultimately show ?thesis using w1 by blast
qed

lemma view_eq_heap:
  assumes "frame_same w1 w'" "heap w1 = (heap w)(d \<mapsto> closed_client c)" "heap w d = Some c"
  shows "client_subs w' = client_subs w" "is_open w' = (is_open w)(d := False)"
proof -
  have "client_subs w' = client_subs w1" "is_open w' = is_open w1"
    using view_client_subs [of w' w1] assms(1) by (simp_all add: frame_same_def)
  then show "client_subs w' = client_subs w" "is_open w' = (is_open w)(d := False)"
    using assms(2,3) by (auto simp: fun_eq_iff client_subs_def is_open_def closed_client_def)
qed

lemma closeConnection_winv:
  assumes "winv w" "heap w d = Some c"
  shows "winv (closeConnection d w)"
    and "live_subs (closeConnection d w) = live_subs w - snd ` set (subs c)"
    and "client_subs (closeConnection d w) = client_subs w"
    and "is_open (closeConnection d w) = (is_open w)(d := False)"
proof -
  let ?w' = "closeConnection d w"
  have ok: "subs_ok w" "index_ok w" "tables_ok w" using assms(1) by (auto simp: winv_def)
  have cs: "client_subs w d = subs c" using assms(2) by (simp add: client_subs_def)
  have own: "s \<in> snd ` set (subs c) \<longleftrightarrow> i = d" if "(sid, s) \<in> set (client_subs w i)" for i sid s
  proof -
    have "sub_client s = Some i" "\<And>sid s. (sid, s) \<in> set (subs c) \<Longrightarrow> sub_client s = Some d"
      using that ok(1) unfolding subs_ok_def cs [symmetric] by fast+
    with that cs show ?thesis by force
  qed
  have main: "winv ?w' \<and> live_subs ?w' = live_subs w - snd ` set (subs c) \<and>
      client_subs ?w' = client_subs w \<and> is_open ?w' = (is_open w)(d := False)"
  proof (cases "nc c = None")
    case True
    then have "?w' = w" using assms(2) by (intro closeConnection_closed) auto
    moreover have "\<not> is_open w d" using True assms(2) by (simp add: is_open_def)
    moreover from this have "live_subs w \<inter> snd ` set (subs c) = {}"
      using own by (auto simp: live_subs_def)
    ultimately show ?thesis using assms(1) by (auto simp: fun_eq_iff)
  next
    case False
    from closeConnection_frame [OF assms False] obtain w1 where w1:
      "frame_same w1 ?w'" "heap w1 = (heap w)(d \<mapsto> closed_client c)"
      "next_ptr w1 = next_ptr w" "gcid w1 = gcid w" "set (clients w1) \<subseteq> set (clients w)" "set (routes w1) \<subseteq> set (routes w)"
      "contents (sl ?w') = contents (sl w) - mset (map entry_of (map snd (subs c)))" "sl_wf (sl ?w')"
      by blast
    note v = view_eq_heap [OF w1(1,2) assms(2)]
    have live: "live_subs ?w' = live_subs w - set (map snd (subs c))"
      using own unfolding live_subs_def v by (auto split: if_splits)
    have "subs_ok ?w'" using ok(1) w1(1,3) v by (simp add: subs_ok_def frame_same_def)
    moreover have "index_ok ?w'"
      using subs_ok_distinct [OF ok(1), of d] cs False assms(2)
        own_live [OF assms(2) False]
      by (intro index_ok_remove [OF ok(2) w1(8) _ _ w1(7) live]) auto
    moreover have "tables_ok ?w'"
    proof -
      have "tables_ok w1"
        using ok(3) w1(2-6) assms(2) by (fastforce simp: tables_ok_def closed_client_def)
      with w1(1) show ?thesis by (intro tables_ok_view [of ?w' w1]) (auto simp: frame_same_def)
    qed
    ultimately show ?thesis using v live by (simp add: winv_def)
  qed
  then show "winv ?w'" "live_subs ?w' = live_subs w - snd ` set (subs c)"
    "client_subs ?w' = client_subs w" "is_open ?w' = (is_open w)(d := False)" by auto
qed

section \<open>Safe steps\<close>

text \<open>A step that keeps the invariant and invalidates no subscription that a handler holds.\<close>

definition safe :: "server \<Rightarrow> server \<Rightarrow> bool" where
  "safe w w' \<longleftrightarrow> (winv w \<longrightarrow> winv w' \<and> (\<forall>s. known w s \<longrightarrow> known w' s) \<and> (\<forall>i. heap w i \<noteq> None \<longrightarrow> heap w' i \<noteq> None))"

lemma safe_refl [simp]: "safe w w"
  by (simp add: safe_def)

lemma safe_if: "safe w a \<Longrightarrow> safe w b \<Longrightarrow> safe w (if c then a else b)"
  by simp

lemma safe_trans [trans]: "safe w w' \<Longrightarrow> safe w' w'' \<Longrightarrow> safe w w''"
  by (simp add: safe_def)

lemma wsame_known:
  assumes "view w' = view w"
  shows "known w' s = known w s"
  using view_client_subs [OF assms] by (simp add: known_def live_subs_def)

lemma view_dom:
  assumes "view w' = view w"
  shows "heap w' i \<noteq> None \<longleftrightarrow> heap w i \<noteq> None"
  using fun_cong [OF assms, of i] unfolding view_def by (cases "heap w i"; cases "heap w' i") simp_all

lemma wsame_safe:
  assumes "wsame w w'"
  shows "safe w w'"
proof -
  have v: "view w' = view w" using assms by (simp add: wsame_def)
  show ?thesis
    unfolding safe_def using wsame_winv [OF assms] wsame_known [OF v] view_dom [OF v] by auto
qed

lemma forget_safe:
  assumes "known w sub" "sub_client sub = Some d"
  shows "safe w (forget d sub w)"
  unfolding safe_def
proof (intro impI conjI allI)
  assume "winv w"
  then show "winv (forget d sub w)" using assms by (rule forget_winv)
  show "known w s \<Longrightarrow> known (forget d sub w) s" for s
    using \<open>winv w\<close> assms by (rule forget_known)
  show "heap w i \<noteq> None \<Longrightarrow> heap (forget d sub w) i \<noteq> None" for i
    by (auto simp: forget_def upd_client_def split: option.split)
qed

lemma closeConnection_dom: "heap w d \<noteq> None \<Longrightarrow> heap w i \<noteq> None \<Longrightarrow> winv w \<Longrightarrow> heap (closeConnection d w) i \<noteq> None"
proof -
  assume d: "heap w d \<noteq> None" and i: "heap w i \<noteq> None" and inv: "winv w"
  then obtain c where c: "heap w d = Some c" by blast
  show ?thesis
  proof (cases "nc c = None")
    case True
    with c i show ?thesis by (simp add: closeConnection_closed)
  next
    case False
    from closeConnection_frame [OF inv c False] obtain w1 where
      "frame_same w1 (closeConnection d w)" "heap w1 = (heap w)(d \<mapsto> closed_client c)" by blast
    with i view_dom [of "closeConnection d w" w1 i] show ?thesis by (simp add: frame_same_def split: if_splits)
  qed
qed

lemma closeConnection_safe:
  assumes "heap w d \<noteq> None"
  shows "safe w (closeConnection d w)"
  unfolding safe_def
proof (intro impI conjI allI)
  assume inv: "winv w"
  from assms obtain c where c: "heap w d = Some c" by blast
  note cl = closeConnection_winv [OF inv c]
  show "winv (closeConnection d w)" by (fact cl(1))
  show "known w s \<Longrightarrow> known (closeConnection d w) s" for s by (auto simp: known_def cl)
  show "heap w i \<noteq> None \<Longrightarrow> heap (closeConnection d w) i \<noteq> None" for i
    using closeConnection_dom [OF assms _ inv] by blast
qed

lemma heap_upd_client: "heap (upd_client i f w) j = (if j = i then map_option f (heap w i) else heap w j)"
  by (auto simp: upd_client_def split: option.split)

lemma close_after_send_safe:
  assumes "heap w d \<noteq> None" "keeps_view f"
  shows "safe w (closeConnection d (upd_client d f w))"
proof -
  have "safe w (upd_client d f w)" using assms(2) by (intro wsame_safe wsame_upd_client)
  also have "safe (upd_client d f w) (closeConnection d (upd_client d f w))"
    using assms(1) by (intro closeConnection_safe) (simp add: heap_upd_client)
  finally show ?thesis .
qed

lemma deliver_body_safe:
  assumes "heap w d \<noteq> None"
  shows "safe w (deliver_body me d mh msg w)"
proof -
  from assms obtain c where c: "heap w d = Some c" by blast
  let ?n = "int (length msg) - LEN_CR_LF"
  let ?c1 = "c\<lparr>outMsgs := wrap64 (outMsgs c + 1), outBytes := wrap64 (outBytes c + ?n)\<rparr>"
  obtain e1 c2 where 2: "bw_write mh ?c1 = (e1, c2)" by fastforce
  obtain e c3 where 3: "(if e1 \<noteq> WOk then (e1, c2) else bw_write msg c2) = (e, c3)" by fastforce
  have v2: "ctyp c2 = ctyp c \<and> cid c2 = cid c \<and> subs c2 = subs c \<and> (nc c2 = None \<longleftrightarrow> nc c = None)"
    using bw_write_view [of mh ?c1] 2 by simp
  have v3: "ctyp c3 = ctyp c \<and> cid c3 = cid c \<and> subs c3 = subs c \<and> (nc c3 = None \<longleftrightarrow> nc c = None)"
    using bw_write_view [of msg c2] 3 v2 by (auto split: if_splits)
  let ?w2 = "w\<lparr>sOutMsgs := wrap64 (sOutMsgs w + 1), sOutBytes := wrap64 (sOutBytes w + ?n), heap := (heap w)(d \<mapsto> c3)\<rparr>"
  have same: "wsame w ?w2" using c v3 by (auto simp: wsame_def view_def fun_eq_iff)
  show ?thesis
  proof (cases "nc c = None")
    case True
    with c show ?thesis by (simp add: deliver_body_def the_client_def)
  next
    case False
    have eq: "deliver_body me d mh msg w = (case e of
        WOk \<Rightarrow> upd_client me (\<lambda>c. c\<lparr>pcd := List.insert d (pcd c)\<rparr>) ?w2
      | WTimeout \<Rightarrow> closeConnection d (?w2\<lparr>slowConsumers := wrap64 (slowConsumers ?w2 + 1)\<rparr>)
      | WErr \<Rightarrow> ?w2)"
      using c False 2 3 by (auto simp: deliver_body_def the_client_def Let_def split: wres.split)
    have "wsame w (?w2\<lparr>slowConsumers := n\<rparr>)" for n using same by (auto simp: wsame_def view_def fun_eq_iff)
    then have slow: "safe w (closeConnection d (?w2\<lparr>slowConsumers := n\<rparr>))" for n
      by (rule safe_trans [OF wsame_safe closeConnection_safe]) simp
    have "wsame ?w2 (upd_client me (\<lambda>c. c\<lparr>pcd := List.insert d (pcd c)\<rparr>) ?w2)"
      by (rule wsame_upd_client) (simp add: keeps_view_def)
    with same slow show ?thesis
      unfolding eq by (cases e) (auto intro: wsame_safe wsame_trans)
  qed
qed

lemma unsubscribe_safe:
  "known w sub \<Longrightarrow> sub_client sub = Some d \<Longrightarrow> safe w (unsubscribe d sub w)"
  by (simp add: unsubscribe_forget forget_safe)

lemma drop_sub_safe:
  assumes "known w sub" "sub_client sub = Some d"
  shows "safe w (drop_sub d fwd sub w)"
  using safe_trans [OF unsubscribe_safe [OF assms] wsame_safe [OF wsame_broadcast(3)]] unsubscribe_safe [OF assms]
  by (simp add: drop_sub_def Let_def)

lemma safe_trans_known:
  "known w s \<Longrightarrow> safe w w1 \<Longrightarrow> (known w1 s \<Longrightarrow> safe w1 w2) \<Longrightarrow> safe w w2"
  by (simp add: safe_def)

lemma deliverMsg_safe:
  assumes "known w sub" "\<And>d. sub_client sub = Some d \<Longrightarrow> heap w d \<noteq> None"
  shows "safe w (deliverMsg me sub mh msg w)"
proof (cases "sub_client sub")
  case None
  then show ?thesis by (simp add: deliverMsg_def)
next
  case (Some d)
  let ?w1 = "w\<lparr>nm := (nm w)(sub_ptr sub := wrap64 (nm w (sub_ptr sub) + 1))\<rparr>"
  have same: "wsame w ?w1" by (auto simp: wsame_def view_def fun_eq_iff)
  have k1: "known ?w1 sub" using assms(1) wsame_known [of ?w1 w sub] same by (simp add: wsame_def)
  have b: "safe ?w1 (deliver_body me d mh msg ?w1)" using assms(2) Some by (intro deliver_body_safe) simp
  have "safe ?w1 (drop_sub d f sub (deliver_body me d mh msg ?w1))" for f
    by (rule safe_trans_known [OF k1 b drop_sub_safe [OF _ Some]])
  then have "safe w (drop_sub d f sub (deliver_body me d mh msg ?w1))" for f
    by (rule safe_trans [OF wsame_safe [OF same]])
  moreover have "safe w (drop_sub d f sub ?w1)" for f
    by (rule safe_trans [OF wsame_safe [OF same] drop_sub_safe [OF k1 Some]])
  moreover have "safe w (deliver_body me d mh msg ?w1)"
    by (rule safe_trans [OF wsame_safe [OF same] b])
  ultimately show ?thesis
    unfolding deliverMsg_def Some option.case Let_def by (simp only: if_distrib [of "safe w"] if_cancel)
qed

text \<open>All deliveries of one message, in the order of the loops.\<close>

lemma deliver_plain_safe:
  "\<forall>s \<in> set ss. known w s \<and> (\<exists>d c. sub_client s = Some d \<and> heap w d = Some c) \<Longrightarrow>
   safe w (deliver_plain me isRoute pa msgh msg rmap ss w)"
proof (induction ss arbitrary: rmap w)
  case Nil
  then show ?case by simp
next
  case (Cons s ss)
  obtain ok rmap' where st: "send_to isRoute rmap (the_client (sub_cid s) w) = (ok, rmap')" by fastforce
  let ?w' = "if ok then deliverMsg me s (msgHeader pa msgh s) msg w else w"
  have step: "safe w ?w'" using Cons.prems by (auto intro: deliverMsg_safe)
  have "safe w (deliver_plain me isRoute pa msgh msg rmap' ss ?w')"
  proof (cases "winv w")
    case True
    have "known ?w' x \<and> (\<exists>d c. sub_client x = Some d \<and> heap ?w' d = Some c)" if "x \<in> set ss" for x
    proof -
      from that Cons.prems obtain d c where "known w x" "sub_client x = Some d" "heap w d = Some c" by auto
      with step True show ?thesis unfolding safe_def by blast
    qed
    then have "safe ?w' (deliver_plain me isRoute pa msgh msg rmap' ss ?w')" by (intro Cons.IH) blast
    with step show ?thesis by (rule safe_trans)
  qed (simp add: safe_def)
  with st show ?case by simp
qed

lemma deliver_queues_safe:
  "\<forall>g \<in> set qs. g \<noteq> [] \<and> (\<forall>s \<in> set g. known w s \<and> (\<exists>d c. sub_client s = Some d \<and> heap w d = Some c)) \<Longrightarrow>
   safe w (deliver_queues E me pa msgh msg i qs w)"
proof (induction qs arbitrary: i w)
  case Nil
  then show ?case by simp
next
  case (Cons g qs)
  let ?s = "g ! (e_pick E i mod length g)"
  let ?w' = "deliverMsg me ?s (msgHeader pa msgh ?s) msg w"
  have mem: "?s \<in> set g" using Cons.prems by simp
  from Cons.prems have "\<forall>s \<in> set g. known w s \<and> (\<exists>d c. sub_client s = Some d \<and> heap w d = Some c)" by simp
  from bspec [OF this mem] have step: "safe w ?w'" by (intro deliverMsg_safe) auto
  have "safe w (deliver_queues E me pa msgh msg (Suc i) qs ?w')"
  proof (cases "winv w")
    case True
    have "known ?w' x \<and> (\<exists>d c. sub_client x = Some d \<and> heap ?w' d = Some c)" if "h \<in> set qs" "x \<in> set h" for x h
    proof -
      from that Cons.prems have "known w x \<and> (\<exists>d c. sub_client x = Some d \<and> heap w d = Some c)"
        by (meson list.set_intros(2))
      then obtain d c where "known w x" "sub_client x = Some d" "heap w d = Some c" by blast
      with step True show ?thesis unfolding safe_def by blast
    qed
    then have "safe ?w' (deliver_queues E me pa msgh msg (Suc i) qs ?w')"
      using Cons.prems by (intro Cons.IH) auto
    with step show ?thesis by (rule safe_trans)
  qed (simp add: safe_def)
  then show ?case by (simp add: Let_def)
qed

section \<open>Adding subscriptions\<close>

definition add_sub :: "nat \<Rightarrow> subscription \<Rightarrow> server \<Rightarrow> server" where
  "add_sub me sub w = upd_client me (\<lambda>c. c\<lparr>subs := AList.update (sub_sid sub) sub (subs c)\<rparr>)
     (w\<lparr>sl := snd (Insert sub (sl w))\<rparr>)"

lemma update_fresh: "map_of m k = None \<Longrightarrow> AList.update k v m = m @ [(k, v)]"
  by (induction m) (auto split: if_splits)

lemma add_sub_sel:
  assumes "heap w me = Some c" "map_of (subs c) (sub_sid sub) = None"
  shows "client_subs (add_sub me sub w) =
      (client_subs w)(me := subs c @ [(sub_sid sub, sub)])"
    and "is_open (add_sub me sub w) = is_open w"
    and "next_ptr (add_sub me sub w) = next_ptr w"
    and "sl (add_sub me sub w) = snd (Insert sub (sl w))"
  using assms by (auto simp: add_sub_def client_subs_def is_open_def upd_client_def update_fresh fun_eq_iff)

lemma add_sub_winv:
  assumes "winv w" "heap w me = Some c" "nc c \<noteq> None" "map_of (subs c) (sub_sid sub) = None"
    and "sub_client sub = Some me" "sub_ptr sub < next_ptr w"
    and fresh: "\<And>i x. x \<in> snd ` set (client_subs w i) \<Longrightarrow> sub_ptr x \<noteq> sub_ptr sub"
    and "insertable (tokens (sub_subject sub))"
  shows "winv (add_sub me sub w)"
proof -
  note sel = add_sub_sel [OF assms(2,4)]
  have ok: "subs_ok w" "index_ok w" "tables_ok w" using assms(1) by (auto simp: winv_def)
  have cs: "client_subs w me = subs c" using assms(2) by (simp add: client_subs_def)
  have mem: "x \<in> set (client_subs (add_sub me sub w) i) \<longleftrightarrow>
      x \<in> set (client_subs w i) \<or> (i = me \<and> x = (sub_sid sub, sub))" for x i
    using cs by (auto simp: sel)
  have "is_open w me" using assms(2,3) by (auto simp: is_open_def)
  then have live: "live_subs (add_sub me sub w) = insert sub (live_subs w)"
    unfolding live_subs_def sel(2) mem by auto
  have "sub \<notin> live_subs w" using fresh by (force simp: live_subs_def)
  have "subs_ok (add_sub me sub w)"
    unfolding subs_ok_def
  proof (intro conjI allI impI)
    fix i
    have "sub_sid sub \<notin> fst ` set (subs c)" using assms(4) by (simp add: map_of_eq_None_iff)
    moreover have "distinct (map fst (client_subs w j))" for j using ok(1) by (simp add: subs_ok_def)
    ultimately show "distinct (map fst (client_subs (add_sub me sub w) i))"
      by (simp add: sel flip: cs)
    show "\<forall>(sid, s) \<in> set (client_subs (add_sub me sub w) i).
        sub_sid s = sid \<and> sub_client s = Some i \<and> sub_ptr s < next_ptr (add_sub me sub w) \<and>
        insertable (tokens (sub_subject s))"
      using subs_okD [OF ok(1)] assms(5,6,8) by (auto simp: mem sel(3))
  next
    fix i j x y
    assume "x \<in> snd ` set (client_subs (add_sub me sub w) i)" "y \<in> snd ` set (client_subs (add_sub me sub w) j)"
      "sub_ptr x = sub_ptr y"
    moreover have "a \<in> snd ` set (client_subs (add_sub me sub w) k) \<longleftrightarrow>
        a \<in> snd ` set (client_subs w k) \<or> (k = me \<and> a = sub)" for a k
      by (force simp: mem)
    ultimately show "x = y" using ok(1) fresh unfolding subs_ok_def by metis
  qed
  moreover have "index_ok (add_sub me sub w)"
  proof -
    have wf: "sl_wf (sl w)" using ok(2) by (simp add: index_ok_def)
    then have "sl_wf (snd (Insert sub (sl w)))" by (rule Insert_wf)
    moreover have "contents (snd (Insert sub (sl w))) = add_mset (entry_of sub) (contents (sl w))"
      using Insert_contents [OF sl_wf_level [OF wf]] assms(8) by simp
    ultimately show ?thesis
      using ok(2) live \<open>sub \<notin> live_subs w\<close> assms(8) by (auto simp: index_ok_def sel)
  qed
  moreover have "tables_ok (add_sub me sub w)"
    using ok(3) assms(2) by (auto simp: tables_ok_def add_sub_def upd_client_def)
  ultimately show ?thesis by (simp add: winv_def)
qed

lemma Insert_fail_wsame:
  assumes "sl_wf (sl w)" "fst (Insert sub (sl w)) \<noteq> None"
  shows "wsame w (w\<lparr>sl := snd (Insert sub (sl w))\<rparr>)"
proof -
  have "contents (snd (Insert sub (sl w))) = contents (sl w)"
    using sl_wf_level [OF assms(1)] assms(2)
    by (cases rule: Insert_cases [where sub = sub]) (simp_all add: contents_def)
  with Insert_wf [OF assms(1)] show ?thesis by (auto simp: wsame_def view_def fun_eq_iff)
qed

end
