(* ===== verification/Server_Steps.thy ===== *)
theory Server_Steps
  imports Server_Inv
begin

text \<open>
  The handlers as steps of the server, the proof that all of them keep the invariant of
  theory Server_Inv, and what follows for clients: a closed connection has no subscription
  left, a subscription is in the subject list exactly while its connection holds it, and the
  limits on deliveries and connections are respected.
\<close>

section \<open>Handlers that change no subscription\<close>

lemma keeps_view_simps [wf_intros]:
  "keeps_view (\<lambda>c. c\<lparr>pout := n\<rparr>)" "keeps_view (\<lambda>c. c\<lparr>ptmr := b\<rparr>)"
  "keeps_view (\<lambda>c. c\<lparr>rcache := g c\<rparr>)" "keeps_view (\<lambda>c. c\<lparr>croute := h c\<rparr>)"
  "keeps_view (\<lambda>c. c\<lparr>pcd := l c\<rparr>)"
  by (simp_all add: keeps_view_def)

lemma wsame_processPong: "wsame w (processPong me w)"
  by (auto simp: processPong_def intro: wf_intros)

lemma wsame_processPing:
  assumes "heap w me = Some c"
  shows "wsame w (processPing me w)"
proof (cases "nc c = None")
  case True
  with assms show ?thesis by (simp add: processPing_def the_client_def)
next
  case False
  obtain e c1 where p: "sendProto (''PONG'' @ [CR, LF]) True c = (e, c1)" by fastforce
  let ?c2 = "if e \<noteq> WOk then clearConnection c1 else c1"
  obtain first fl where f: "flag_setIfNotSet (flags ?c2) firstPongSent = (first, fl)" by fastforce
  let ?c3 = "?c2\<lparr>flags := (if first then flag_clear fl infoUpdated else fl)\<rparr>"
  have "ctyp ?c3 = ctyp c \<and> cid ?c3 = cid c \<and> subs ?c3 = subs c \<and> (nc ?c3 = None \<longleftrightarrow> nc c = None)"
    using sendProto_view [of "''PONG'' @ [CR, LF]" True c] clearConnection_view [of c1] p by auto
  then have same: "wsame w (w\<lparr>heap := (heap w)(me \<mapsto> ?c3)\<rparr>)"
    using assms by (intro wsame_put) auto
  then have "wsame w (upd_client me (sendInfo (infoJSON w)) (w\<lparr>heap := (heap w)(me \<mapsto> ?c3)\<rparr>))"
    by (rule wsame_trans) (intro wf_intros)
  with same show ?thesis
    using assms False p f by (auto simp: processPing_def the_client_def Let_def intro!: wsame_if split del: if_split)
qed

definition vrel :: "client \<Rightarrow> client \<Rightarrow> bool" where
  "vrel c c' \<longleftrightarrow> ctyp c' = ctyp c \<and> cid c' = cid c \<and> subs c' = subs c \<and> (nc c' = None \<longleftrightarrow> nc c = None)"

lemma vrel_trans: "vrel a b \<Longrightarrow> vrel b c \<Longrightarrow> vrel a c"
  by (simp add: vrel_def)

lemma vrel_facts:
  "vrel c (c\<lparr>ptmr := b\<rparr>)" "vrel c (c\<lparr>pout := n\<rparr>)" "vrel c (c\<lparr>ptmr := b, pout := n\<rparr>)"
  "vrel c (snd (sendProto p f c))" "vrel c (clearConnection c)"
  using sendProto_view [of p f c] clearConnection_view [of c] by (simp_all add: vrel_def)

lemma wsame_processPingTimer: "wsame w (processPingTimer me w)"
proof -
  let ?err = "''-ERR '' @ [CHR 0x27] @ ''Stale Connection'' @ [CHR 0x27, CR, LF]"
  let ?ping = "''PING'' @ [CR, LF]"
  define f where "f = (\<lambda>c0. let c = c0\<lparr>ptmr := False\<rparr> in
       case nc c of
         None \<Rightarrow> c
       | Some k \<Rightarrow>
           if ckind k \<noteq> TCPConn then c
           else
             let c1 = c\<lparr>pout := pout c + 1\<rparr> in
             if pout c1 > optMaxPingsOut w then clearConnection (snd (sendProto ?err True c1))
             else
               let (e, c2) = sendProto ?ping True c1
               in if e \<noteq> WOk then clearConnection c2 else c2\<lparr>ptmr := True\<rparr>)"
  have "vrel c (f c)" for c
  proof -
    let ?c1 = "c\<lparr>ptmr := False, pout := pout c + 1\<rparr>"
    have "vrel c (snd (sendProto p True ?c1))" for p by (rule vrel_trans [OF vrel_facts(3,4)])
    then have "vrel c (clearConnection (snd (sendProto p True ?c1)))"
      "vrel c ((snd (sendProto p True ?c1))\<lparr>ptmr := True\<rparr>)" for p
      by (blast intro: vrel_trans vrel_facts)+
    moreover have "f c = c\<lparr>ptmr := False\<rparr> \<or> f c = clearConnection (snd (sendProto ?err True ?c1)) \<or>
        f c = clearConnection (snd (sendProto ?ping True ?c1)) \<or> f c = (snd (sendProto ?ping True ?c1))\<lparr>ptmr := True\<rparr>"
      unfolding f_def Let_def case_prod_beta by (simp split: option.split)
    ultimately show ?thesis using vrel_facts(1) [of c False] by metis
  qed
  then have "keeps_view f" by (simp add: keeps_view_def vrel_def)
  moreover have "processPingTimer me w = upd_client me f w" by (simp add: processPingTimer_def f_def)
  ultimately show ?thesis by (simp add: wsame_upd_client)
qed

section \<open>Subscribing and unsubscribing\<close>

lemma Match_wsame:
  assumes "Match ev k (sl w) = (r, l)"
  shows "wsame w (w\<lparr>sl := l\<rparr>)"
proof -
  have "contents l = contents (sl w)" "root l = root (sl w)" "count l = count (sl w)"
    using assms by (auto simp: Match_def match_lookup_def match_fill_def contents_def Let_def
        split: prod.splits option.splits)
  then show ?thesis by (auto simp: wsame_def view_def fun_eq_iff sl_wf_def)
qed

lemma apply_unsub_safe:
  assumes "known w sub" "sub_client sub = Some me"
  shows "safe w (apply_unsub me fwd m sub w)"
proof -
  let ?w' = "w\<lparr>smax := (smax w)(sub_ptr sub := (if m > 0 then m else 0))\<rparr>"
  have same: "wsame w ?w'" by (auto simp: wsame_def view_def fun_eq_iff)
  then have "known ?w' sub" using assms(1) wsame_known [of ?w' w] by (simp add: wsame_def)
  then have s: "safe w (unsubscribe me sub ?w')"
    by (rule safe_trans [OF wsame_safe [OF same] unsubscribe_safe [OF _ assms(2)]])
  with safe_trans [OF s wsame_safe [OF wsame_broadcast(3)]] show ?thesis
    unfolding apply_unsub_def Let_def by (intro safe_if)
qed

lemma processUnsub_safe:
  assumes "heap w me = Some c"
  shows "safe w (snd (processUnsub me arg w))"
proof (cases "winv w")
  case False
  then show ?thesis by (simp add: safe_def)
next
  case True
  let ?f = "\<lambda>c. c\<lparr>rcache := rcache c\<lparr>rc_subs := rc_subs (rcache c) + 1\<rparr>\<rparr>"
  let ?w1 = "upd_client me ?f w"
  have same1: "wsame w ?w1" by (intro wf_intros)
  have inv1: "winv ?w1" using wsame_winv [OF same1 True] .
  have h1: "the_client me ?w1 = ?f c" "client_subs ?w1 me = subs c"
    using assms by (simp_all add: heap_upd_client the_client_def client_subs_def)
  have "safe ?w1 (case map_of (subs c) sid of None \<Rightarrow> ?w1 | Some sub \<Rightarrow> apply_unsub me fwd m sub ?w1)" (is "safe _ (?w2 sid fwd m)") for sid fwd m
  proof (cases "map_of (subs c) sid")
    case None
    then show ?thesis by simp
  next
    case (Some sub)
    then have mem: "(sid, sub) \<in> set (client_subs ?w1 me)" using h1 by (simp add: map_of_SomeD)
    then have "known ?w1 sub" "sub_client sub = Some me"
      using own_known [OF inv1 mem] subs_okD [OF _ mem] inv1 by (simp_all add: winv_def)
    then show ?thesis by (simp add: Some apply_unsub_safe)
  qed
  then have s: "safe w (?w2 sid fwd m)" for sid fwd m
    by (rule safe_trans [OF wsame_safe [OF same1]])
  have "safe w (upd_client me sendOK (?w2 sid fwd m))" for sid fwd m
    by (rule safe_trans [OF s], rule wsame_safe, rule wsame_upd_client, rule keeps_send)
  with s show ?thesis
    unfolding processUnsub_def Let_def h1 by (simp add: if_distrib [of snd] safe_if)
qed

section \<open>Adding a subscription\<close>

lemma wsame_next_ptr: "next_ptr w \<le> n \<Longrightarrow> wsame w (w\<lparr>next_ptr := n, nm := a, smax := b\<rparr>)"
  by (auto simp: wsame_def view_def fun_eq_iff)

lemma sub_allowed_view: "vrel c (snd (sub_allowed E k c))"
  by (auto simp: sub_allowed_def vrel_def Let_def split: option.split prod.split)

lemma parse_sub_sel:
  "parse_sub me p arg = Some sub \<Longrightarrow> sub_ptr sub = p \<and> sub_client sub = Some me"
  by (auto simp: parse_sub_def Let_def split: if_splits)

lemma register_sub_winv:
  assumes "winv w" "heap w me = Some c" "nc c \<noteq> None" "sub_client sub = Some me" "sub_ptr sub < next_ptr w"
    and fresh: "\<And>i x. x \<in> snd ` set (client_subs w i) \<Longrightarrow> sub_ptr x \<noteq> sub_ptr sub"
    and r: "register_sub me sub w = (err, fwd, w')"
  shows "winv w'"
proof (cases "map_of (subs c) (sub_sid sub) = None \<and> fst (Insert sub (sl w)) = None")
  case True
  obtain l where "Insert sub (sl w) = (None, l)" using True by (cases "Insert sub (sl w)") auto
  then have w': "w' = add_sub me sub w"
    using r True assms(2) by (auto simp: register_sub_def the_client_def add_sub_def Let_def)
  have "wf_level (root (sl w))" using assms(1) by (simp add: winv_def index_ok_def sl_wf_def)
  then have "insertable (tokens (sub_subject sub))"
    using True by (cases rule: Insert_cases [where sub = sub]) simp_all
  then show ?thesis unfolding w' using assms True by (intro add_sub_winv) auto
next
  case False
  have wf: "sl_wf (sl w)" using assms(1) by (simp add: winv_def index_ok_def)
  have "w' = w \<or> (fst (Insert sub (sl w)) \<noteq> None \<and> w' = w\<lparr>sl := snd (Insert sub (sl w))\<rparr>)"
    using r False assms(2)
    by (cases "Insert sub (sl w)") (auto simp: register_sub_def the_client_def Let_def split: if_splits option.splits)
  with assms(1) wsame_winv [OF Insert_fail_wsame [OF wf]] show ?thesis by auto
qed

lemma processSub_winv:
  assumes "winv w0" "heap w0 me = Some c0"
  shows "winv (snd (processSub E me arg w0))"
proof -
  let ?f = "\<lambda>c. c\<lparr>rcache := rcache c\<lparr>rc_subs := rc_subs (rcache c) + 1\<rparr>\<rparr>"
  let ?w = "upd_client me ?f w0"
  let ?p = "next_ptr ?w"
  have inv: "winv ?w" by (rule wsame_winv [OF wsame_upd_client assms(1)]) (intro wf_intros)
  show ?thesis
  proof (cases "parse_sub me ?p arg")
    case None
    with inv show ?thesis by (simp add: processSub_def Let_def)
  next
    case (Some sub)
    let ?w1 = "?w\<lparr>next_ptr := ?p + 1, nm := (nm ?w)(?p := 0), smax := (smax ?w)(?p := 0)\<rparr>"
    let ?c = "?f c0"
    have same1: "wsame ?w ?w1" by (rule wsame_next_ptr) simp
    have inv1: "winv ?w1" by (rule wsame_winv [OF same1 inv])
    have h1: "heap ?w1 me = Some ?c" using assms(2) by (simp add: heap_upd_client)
    then have tc: "the_client me ?w = ?f c0" by (simp add: the_client_def)
  obtain allowed c1 where al: "sub_allowed E (sub_subject sub) ?c = (allowed, c1)" by fastforce
    have v: "vrel ?c c1" using sub_allowed_view [of ?c E "sub_subject sub"] al by simp
    let ?w2 = "?w1\<lparr>heap := (heap ?w1)(me \<mapsto> c1)\<rparr>"
    have same2: "wsame ?w1 ?w2" using v by (intro wsame_put [OF h1]) (auto simp: vrel_def)
    have inv2: "winv ?w2" by (rule wsame_winv [OF same2 inv1])
    obtain err fwd w3 where rg: "register_sub me sub ?w2 = (err, fwd, w3)" by (cases "register_sub me sub ?w2") auto
    note ps = parse_sub_sel [OF Some]
    have "client_subs ?w2 = client_subs ?w"
      using view_client_subs [of ?w2 ?w] same1 same2 by (simp add: wsame_def)
    then have fresh: "sub_ptr x \<noteq> sub_ptr sub" if "x \<in> snd ` set (client_subs ?w2 i)" for i x
      using that subs_okD [of ?w] inv ps by (fastforce simp: winv_def)
    have inv3: "winv w3" if "nc ?c \<noteq> None"
    proof (rule register_sub_winv [OF inv2 _ _ _ _ fresh rg])
      show "heap ?w2 me = Some c1" by simp
      show "nc c1 \<noteq> None" using that v by (auto simp: vrel_def)
      show "sub_client sub = Some me" "sub_ptr sub < next_ptr ?w2" using ps by simp_all
    qed
    have send: "winv (upd_client me g v)" if "winv v" "keeps_view g" for v g
      by (rule wsame_winv [OF wsame_upd_client [OF that(2)] that(1)])
    have bc: "winv (broadcastSubscribe sub v)" if "winv v" for v
      by (rule wsame_winv [OF wsame_broadcast(2) that])
    show ?thesis
    proof (cases "nc ?c = None")
      case True
      with Some h1 inv1 show ?thesis by (simp add: processSub_def Let_def the_client_def)
    next
      case False
      note p3 = inv3 [OF False]
      have eq: "snd (processSub E me arg w0) =
          (if \<not> allowed then upd_client me (sendErr (''Permissions Violation for Subscription to '' @ e_quote E (sub_subject sub))) ?w2
           else if err \<noteq> None then upd_client me (sendErr ''Invalid Subject'') w3
           else let w4 = (if Verbose (copts c1) then upd_client me sendOK w3 else w3)
                in if fwd then broadcastSubscribe sub w4 else w4)"
        using Some h1 al rg False by (auto simp: processSub_def Let_def the_client_def)
      show ?thesis
        unfolding eq Let_def using p3 inv2 by (auto intro: send bc keeps_send)
    qed
  qed
qed

section \<open>Connecting\<close>

lemma put_safe: "heap w me = Some c \<Longrightarrow> vrel c c' \<Longrightarrow> safe w (w\<lparr>heap := (heap w)(me \<mapsto> c')\<rparr>)"
  by (intro wsame_safe wsame_put) (auto simp: vrel_def)

lemma checkAuth_view: "vrel c (snd (checkAuth E w c))"
  by (auto simp: checkAuth_def check_method_def RegisterUser_def vrel_def Let_def
      split: ctype.split option.split prod.split)

lemma cproto_safe: "safe w (w\<lparr>cproto := n\<rparr>)"
  by (intro wsame_safe) (auto simp: wsame_def view_def fun_eq_iff)

lemma send_safe: "keeps_view f \<Longrightarrow> safe w (upd_client me f w)"
  by (intro wsame_safe wsame_upd_client)

lemma processConnect_safe:
  assumes "heap w me = Some c0"
  shows "safe w (snd (processConnect E me arg w))"
proof -
  let ?c = "c0\<lparr>atmr := False\<rparr>"
  let ?w0 = "w\<lparr>heap := (heap w)(me \<mapsto> ?c)\<rparr>"
  obtain ok0 opts where un: "e_unmarshal E arg (copts ?c) = (ok0, opts)" by fastforce
  let ?c1 = "?c\<lparr>copts := opts, flags := flag_set (flags ?c) connectReceived\<rparr>"
  let ?w1 = "?w0\<lparr>heap := (heap ?w0)(me \<mapsto> ?c1), cproto := (if Protocol opts \<ge> ClientProtoInfo then cproto ?w0 + 1 else cproto ?w0)\<rparr>"
  obtain ok c2 where au: "checkAuth E ?w1 ?c1 = (ok, c2)" by fastforce
  let ?w2 = "?w1\<lparr>heap := (heap ?w1)(me \<mapsto> c2)\<rparr>"
  have s0: "safe w ?w0" using assms by (intro put_safe) (auto simp: vrel_def)
  have "safe ?w0 (?w0\<lparr>heap := (heap ?w0)(me \<mapsto> ?c1)\<rparr>)" by (rule put_safe [of _ _ ?c]) (auto simp: vrel_def)
  from safe_trans [OF safe_trans [OF s0 this] cproto_safe] have s1: "safe w ?w1" by simp
  have "safe ?w1 ?w2"
    using checkAuth_view [of ?c1 E ?w1] au by (intro put_safe [of _ _ ?c1]) simp_all
  with s1 have s2: "safe w ?w2" by (rule safe_trans)
  have timeout: "safe w (authTimeout me ?w0)"
    unfolding authTimeout_def by (rule safe_trans [OF s0 close_after_send_safe]) (auto intro: keeps_send)
  have close: "safe w (closeConnection me (upd_client me (sendErr m) ?w2))" for m
    by (rule safe_trans [OF s2 close_after_send_safe]) (auto intro: keeps_send)
  have "safe w (?w0\<lparr>heap := (heap ?w0)(me \<mapsto> ?c\<lparr>copts := opts\<rparr>)\<rparr>)"
    by (rule safe_trans [OF s0 put_safe [of _ _ ?c]]) (auto simp: vrel_def)
  moreover have "safe w (upd_client me (\<lambda>c. c\<lparr>croute := h c\<rparr>) ?w2)" for h
    by (rule safe_trans [OF s2 send_safe]) (rule keeps_view_simps)
  moreover have "safe w (upd_client me sendOK v)" if "safe w v" for v
    by (rule safe_trans [OF that send_safe]) (rule keeps_send)
  ultimately show ?thesis
    using timeout close s2 assms un au
    by (auto simp: processConnect_def the_client_def authViolation_def Let_def simp del: fun_upd_upd
        split: bool.split)
qed

section \<open>New connections\<close>

lemma new_id_free: "winv w \<Longrightarrow> heap w (gcid w + 1) = None"
proof (rule ccontr)
  assume "winv w" "heap w (gcid w + 1) \<noteq> None"
  then obtain c where "heap w (gcid w + 1) = Some c" by blast
  with \<open>winv w\<close> have "gcid w + 1 \<le> gcid w" unfolding winv_def tables_ok_def by blast
  then show False by simp
qed

lemma new_conn_winv:
  assumes "winv w" "subs c = []" "cid c = gcid w + 1"
    and tabs: "clients w' = clients w \<or> ctyp c \<noteq> ROUTER \<and> clients w' = List.insert (gcid w + 1) (clients w)"
    and w': "heap w' = (heap w)(gcid w + 1 \<mapsto> c)" "gcid w' = gcid w + 1" "sl w' = sl w"
      "next_ptr w' = next_ptr w" "routes w' = routes w"
  shows "winv w'"
proof -
  note free = new_id_free [OF assms(1)]
  have cs: "client_subs w' = client_subs w"
    using free assms(2) w' by (auto simp: client_subs_def fun_eq_iff)
  have "i \<noteq> gcid w + 1" if "(sid, s) \<in> set (client_subs w i)" for i sid s
    using that free by (auto simp: client_subs_def)
  then have "is_open w' i = is_open w i" if "(sid, s) \<in> set (client_subs w i)" for i sid s
    using that w' by (simp add: is_open_def)
  then have live: "live_subs w' = live_subs w"
    unfolding live_subs_def cs by blast
  have ok: "subs_ok w" "index_ok w" "tables_ok w" using assms(1) by (auto simp: winv_def)
  have "gcid w + 1 \<notin> set (clients w) \<union> set (routes w)" using ok(3) free by (auto simp: tables_ok_def)
  then have t: "tables_ok w'"
    using ok(3) free assms(3) tabs w' by (auto simp: tables_ok_def intro: le_SucI)
  show ?thesis using ok t cs live w' by (simp add: winv_def subs_ok_def index_ok_def)
qed

lemma new_client_winv:
  assumes "winv w" "subs c = []" "cid c = gcid w + 1" "ctyp c \<noteq> ROUTER"
  shows "winv (w\<lparr>gcid := gcid w + 1, totalClients := t, heap := (heap w)(gcid w + 1 \<mapsto> c)\<rparr>)"
    and "winv (w\<lparr>gcid := gcid w + 1, totalClients := t, heap := (heap w)(gcid w + 1 \<mapsto> c), clients := List.insert (gcid w + 1) (clients w)\<rparr>)"
  using assms by (auto intro: new_conn_winv [OF assms(1-3)])

lemma sendInfo_sel: "subs (sendInfo b c) = subs c" "cid (sendInfo b c) = cid c" "ctyp (sendInfo b c) = ctyp c"
  using sendProto_view [of b True c] by (simp_all add: sendInfo_def)

lemma createClient_winv:
  assumes "winv w"
  shows "winv (snd (createClient isInternal k handshake w))"
proof -
  let ?i = "gcid w + 1"
  let ?c0 = "initClient (if isInternal then INTERNALCLI else CLIENT) defaultOpts k (infoMaxPayload w) None ?i"
  let ?c2 = "sendInfo (infoJSON w) (?c0\<lparr>atmr := (\<not> isInternal \<and> infoAuthRequired w)\<rparr>)"
  let ?w1 = "w\<lparr>gcid := ?i, totalClients := totalClients w + 1, heap := (heap w)(?i \<mapsto> ?c2)\<rparr>"
  let ?w2 = "?w1\<lparr>clients := List.insert ?i (clients w)\<rparr>"
  have c2: "subs ?c2 = []" "cid ?c2 = gcid w + 1" "ctyp ?c2 \<noteq> ROUTER"
    by (simp_all add: sendInfo_sel initClient_def)
  have inv: "winv ?w1" "winv ?w2"
    using new_client_winv [OF assms c2] by simp_all
  have h: "heap ?w1 ?i \<noteq> None" "heap ?w2 ?i \<noteq> None" by simp_all
  have close: "winv (closeConnection ?i (upd_client ?i (sendErr e) v))" if "winv v" "heap v ?i \<noteq> None" for e v
    using close_after_send_safe [OF that(2) keeps_send(2)] that(1) by (simp add: safe_def)
  have upd: "winv (upd_client ?i f v)" if "winv v" "keeps_view f" for f v
    by (rule wsame_winv [OF wsame_upd_client [OF that(2)] that(1)])
  have tls: "keeps_view (\<lambda>c. c\<lparr>nc := map_option g (nc c)\<rparr>)" for g
    by (simp add: keeps_view_def)
  have timer: "winv (upd_client ?i (\<lambda>c. c\<lparr>ptmr := True\<rparr>) v)" if "winv v" for v
    by (rule upd [OF that]) (rule keeps_view_simps)
  show ?thesis
    using inv close [OF inv(1) h(1)] close [OF inv(2) h(2)] timer [OF inv(2)] timer [OF upd [OF inv(2) tls]]
    by (auto simp: createClient_def maxConnExceeded_def Let_def simp del: fun_upd_apply)
qed

lemma pub_allowed_view: "vrel c (snd (pub_allowed E k c))"
  by (auto simp: pub_allowed_def vrel_def Let_def split: option.split prod.split)

lemma cached_match_safe:
  assumes "heap w me = Some c"
  shows "safe w (snd (cached_match E me k w))"
    and "\<exists>c'. heap (snd (cached_match E me k w)) me = Some c' \<and> vrel c c'"
proof -
  obtain r l where m: "Match (e_ev E) k (sl w) = (r, l)" by fastforce
  have "wsame w (w\<lparr>sl := l\<rparr>)" by (rule Match_wsame [OF m])
  moreover have "wsame (w\<lparr>sl := l\<rparr>) (w\<lparr>sl := l, heap := (heap w)(me \<mapsto> c\<lparr>rcache := x\<rparr>)\<rparr>)" for x
    using assms by (auto simp: wsame_def view_def fun_eq_iff)
  ultimately have 1: "safe w (w\<lparr>sl := l, heap := (heap w)(me \<mapsto> c\<lparr>rcache := x\<rparr>)\<rparr>)" for x
    using wsame_trans wsame_safe by blast
  have 2: "safe w (w\<lparr>heap := (heap w)(me \<mapsto> c\<lparr>rcache := x\<rparr>)\<rparr>)" for x
    using assms by (intro put_safe) (auto simp: vrel_def)
  show "safe w (snd (cached_match E me k w))"
    unfolding cached_match_def Let_def m using assms 1 2 2 [of "rcache c", simplified]
    by (simp add: the_client_def split: option.split)
  show "\<exists>c'. heap (snd (cached_match E me k w)) me = Some c' \<and> vrel c c'"
    unfolding cached_match_def Let_def m using assms by (simp add: the_client_def vrel_def split: option.split)
qed

section \<open>Publishing\<close>

definition result_known :: "server \<Rightarrow> SublistResult \<Rightarrow> bool" where
  "result_known w r \<longleftrightarrow> [] \<notin> set (res_qsubs r) \<and>
     (\<forall>s \<in> set (result_subs r). known w s \<and> (\<exists>d c. sub_client s = Some d \<and> heap w d = Some c))"

lemma result_known_safe:
  assumes "winv w" "safe w w'" "result_known w r"
  shows "result_known w' r"
  using assms unfolding result_known_def safe_def by blast

lemma routeSid_known:
  assumes "winv w" "routeSidQueueSubscriber rsid w = (Some sub, b)"
  shows "known w sub" and "\<exists>d c. sub_client sub = Some d \<and> heap w d = Some c"
proof -
  obtain i sid where i: "i \<in> set (clients w)" "map_of (subs (the_client i w)) sid = Some sub"
    using assms(2) by (auto simp: routeSidQueueSubscriber_def Let_def split: if_splits option.splits prod.splits)
  then obtain c where c: "heap w i = Some c" using assms(1) by (auto simp: winv_def tables_ok_def)
  with i have m: "(sid, sub) \<in> set (client_subs w i)"
    by (simp add: client_subs_def the_client_def map_of_SomeD)
  show "known w sub" by (rule own_known [OF assms(1) m])
  show "\<exists>d c. sub_client sub = Some d \<and> heap w d = Some c"
    using subs_okD [OF _ m] assms(1) c by (auto simp: winv_def)
qed

lemma deliver_all_safe:
  assumes "result_known w r"
  shows "safe w (deliver_all E me pa msg r w)"
proof (cases "winv w")
  case False
  then show ?thesis by (simp add: safe_def)
next
  case True
  let ?h = "''MSG '' @ pa_subject pa @ '' ''"
  let ?isR = "ctyp (the_client me w) = ROUTER"
  let ?w1 = "deliver_plain me ?isR pa ?h msg [] (res_psubs r) w"
  have p: "safe w ?w1"
    using assms by (intro deliver_plain_safe) (auto simp: result_known_def result_subs_def)
  have "result_known ?w1 r" by (rule result_known_safe [OF True p assms])
  then have "safe ?w1 (deliver_queues E me pa ?h msg 0 (res_qsubs r) ?w1)"
    by (intro deliver_queues_safe) (auto simp: result_known_def result_subs_def)
  with p have q: "safe w (deliver_queues E me pa ?h msg 0 (res_qsubs r) ?w1)" by (rule safe_trans)
  have d: "safe w (deliverMsg me sub (msgHeader pa ?h sub) msg w)"
    if "routeSidQueueSubscriber (pa_sid pa) w = (Some sub, b)" for sub b
    using routeSid_known [OF True that] by (intro deliverMsg_safe) auto
  show ?thesis
    unfolding deliver_all_def Let_def using p q d
    by (auto split: prod.split option.split bool.split)
qed

lemma pubPermissionViolation_safe: "safe w (pubPermissionViolation E me k w)"
  unfolding pubPermissionViolation_def by (rule send_safe) (rule keeps_send)

text \<open>
  The state in which the deliveries of a message start, after the permission check and the
  lookup of the receivers.
\<close>

definition before_delivery :: "env \<Rightarrow> nat \<Rightarrow> pubArg \<Rightarrow> bytes \<Rightarrow> server \<Rightarrow> SublistResult \<times> server" where
  "before_delivery E me pa msg w0 =
     (let w = upd_client me (count_in msg) w0;
          c1 = snd (pub_allowed E (pa_subject pa) (the_client me w));
          w1 = w\<lparr>heap := (heap w)(me \<mapsto> c1)\<rparr>;
          w2 = (if Verbose (copts c1) then upd_client me sendOK w1 else w1)
      in cached_match E me (pa_subject pa) w2)"

lemma processMsg_safe:
  assumes "heap w0 me = Some c0"
    and r: "result_known (snd (before_delivery E me pa msg w0)) (fst (before_delivery E me pa msg w0))"
  shows "safe w0 (processMsg E me pa msg w0)"
proof -
  let ?f = "count_in msg"
  let ?w = "upd_client me ?f w0"
  have s: "safe w0 ?w" by (rule send_safe) (unfold count_in_def, rule keeps_view_simps)
  have h: "heap ?w me = Some (?f c0)" using assms(1) by (simp add: heap_upd_client)
  then have tc: "the_client me ?w = ?f c0" by (simp add: the_client_def)
  obtain allowed c1 where al: "pub_allowed E (pa_subject pa) (?f c0) = (allowed, c1)" by fastforce
  let ?w1 = "?w\<lparr>heap := (heap ?w)(me \<mapsto> c1)\<rparr>"
  have "vrel (?f c0) c1" using pub_allowed_view [of "?f c0" E "pa_subject pa"] al by simp
  from safe_trans [OF s put_safe [OF h this]] have s1: "safe w0 ?w1" .
  let ?w2 = "if Verbose (copts c1) then upd_client me sendOK ?w1 else ?w1"
  have "safe ?w1 (upd_client me sendOK ?w1)" by (rule send_safe) (rule keeps_send)
  with s1 safe_trans have s2: "safe w0 ?w2" by (intro safe_if) blast+
  have h2: "\<exists>c2. heap ?w2 me = Some c2" by (simp add: heap_upd_client)
  obtain rr w3 where cm: "cached_match E me (pa_subject pa) ?w2 = (rr, w3)" by fastforce
  from h2 cached_match_safe(1) [of ?w2 me _ E "pa_subject pa"] cm have "safe ?w2 w3" by auto
  with s2 have s3: "safe w0 w3" by (rule safe_trans)
  have bd: "before_delivery E me pa msg w0 = (rr, w3)"
    unfolding before_delivery_def Let_def tc al snd_conv by (rule cm)
  then have "safe w3 (deliver_all E me pa msg rr w3)" using r by (intro deliver_all_safe) simp
  with s3 have s4: "safe w0 (deliver_all E me pa msg rr w3)" by (rule safe_trans)
  have viol: "safe w0 (pubPermissionViolation E me (pa_subject pa) ?w)"
      "safe w0 (pubPermissionViolation E me (pa_subject pa) ?w1)"
    using safe_trans [OF s pubPermissionViolation_safe] safe_trans [OF s1 pubPermissionViolation_safe] by auto
  have eq: "processMsg E me pa msg w0 =
      (if is_reserved (pa_subject pa) then pubPermissionViolation E me (pa_subject pa) ?w
       else if \<not> allowed then pubPermissionViolation E me (pa_subject pa) ?w1
       else if res_psubs rr = [] \<and> res_qsubs rr = [] then w3
       else if Pedantic (copts c1) \<and> \<not> IsValidLiteralSubject (pa_subject pa) then w3
       else deliver_all E me pa msg rr w3)"
    unfolding processMsg_def Let_def tc al prod.case cm by (rule refl)
  show ?thesis unfolding eq by (intro safe_if viol s3 s4)
qed

lemma processPub_safe:
  assumes "heap w me \<noteq> None"
  shows "safe w (snd (snd (processPub me arg pa w)))"
proof -
  have "safe w (maxPayloadViolation me w)"
    unfolding maxPayloadViolation_def using assms by (intro close_after_send_safe keeps_send)
  moreover have "safe w (upd_client me (sendErr e) w)" for e by (rule send_safe) (rule keeps_send)
  ultimately show ?thesis by (auto simp: processPub_def Let_def split: option.split)
qed

end
