(* ===== verification/Route_Steps.thy ===== *)
theory Route_Steps
  imports Server_Steps
begin

text \<open>
  The handlers of routes keep the invariant, and the step relation of the whole server: every
  state the server reaches by accepting connections, handling their operations and closing
  them satisfies it.
\<close>

section \<open>Routes\<close>

lemma keeps_fold_safe: "(\<And>i. keeps_view (f i)) \<Longrightarrow> safe w (fold (\<lambda>i. upd_client i (f i)) is w)"
proof (induction "is" arbitrary: w)
  case (Cons a "is")
  then show ?case using safe_trans [OF send_safe [OF Cons.prems, of w a a]] by simp
qed simp

lemma keeps_start_route: "keeps_view (start_route conProto info solicited tls authReq)"
  using keeps_send(3) [of info] sendProto_view by (simp add: keeps_view_def start_route_def Let_def)

lemma createRoute_winv:
  assumes "winv w"
  shows "winv (snd (createRoute lower conProto k rURL handshake w))"
proof -
  let ?i = "gcid w + 1"
  let ?r = "\<lambda>e. \<lparr>remoteID = [], didSolicit = (rURL \<noteq> None), retry = False,
               routeType = e, url = rURL, authRequired = False, tlsRequired = False\<rparr>"
  let ?c = "\<lambda>e. initClient ROUTER emptyOpts k 0 (Some (?r e)) ?i"
  let ?w1 = "\<lambda>e. w\<lparr>gcid := ?i, heap := (heap w)(?i \<mapsto> ?c e)\<rparr>"
  let ?w2 = "\<lambda>e. (?w1 e)\<lparr>grTmpClients := List.insert ?i (grTmpClients (?w1 e))\<rparr>"
  have inv: "winv (?w1 e)" "winv (?w2 e)" for e
    by (rule new_conn_winv [OF assms, of "?c e"]; simp add: initClient_def)+
  have close: "winv (closeConnection ?i (upd_client ?i (sendErr m) (?w1 e)))" for e m
    using close_after_send_safe [of "?w1 e" ?i "sendErr m"] inv(1) [of e] keeps_send
    by (simp add: safe_def)
  have keep: "winv (upd_client ?i f (?w2 e))" if "keeps_view f" for f e
    using send_safe [OF that, of "?w2 e" ?i] inv(2) by (simp add: safe_def)
  show ?thesis
    unfolding createRoute_def Let_def using close keep [OF keeps_start_route]
    by (cases "handshake = Some False") (simp_all only: if_True if_False snd_conv simp_thms)
qed

lemma addRoute_safe:
  assumes "heap w i = Some c" "ctyp c = ROUTER"
  shows "safe w (snd (addRoute i w))" and "heap (snd (addRoute i w)) i \<noteq> None"
proof -
  let ?w1 = "\<lambda>id. w\<lparr>grTmpClients := removeAll i (grTmpClients w), routes := List.insert i (routes w),
                     remotes := AList.update id i (remotes w)\<rparr>"
  have 1: "safe w (?w1 id)" for id
    unfolding safe_def using assms
    by (auto simp: winv_def tables_ok_def subs_ok_def index_ok_def known_def client_subs_def live_subs_def is_open_def)
  have 2: "safe v (upd_client j (\<lambda>c. c\<lparr>croute := h\<rparr>) v)" for v j h
    by (rule send_safe, rule keeps_view_simps)
  show "safe w (snd (addRoute i w))"
    unfolding addRoute_def Let_def using 1 2 safe_trans [OF 1 2] safe_trans [OF 2 2] by (simp split: option.split)
  show "heap (snd (addRoute i w)) i \<noteq> None"
    unfolding addRoute_def Let_def using assms by (auto simp: heap_upd_client split: option.split)
qed

lemma processImplicitRoute_safe: "safe w (processImplicitRoute lower parseURL info w)"
proof -
  have "safe w (w\<lparr>dialing := d\<rparr>)" for d by (rule wsame_safe) (simp add: wsame_def view_def fun_eq_iff)
  then show ?thesis unfolding processImplicitRoute_def by (simp split: option.split)
qed

lemma updateServerINFO_safe: "safe w (snd (updateServerINFO gen urls w))"
proof -
  have "safe w (w\<lparr>connectURLs := u, infoJSON := j\<rparr>)" for u j by (rule wsame_safe) (simp add: wsame_def view_def fun_eq_iff)
  then show ?thesis unfolding updateServerINFO_def Let_def by simp
qed

lemma sendAsyncInfoToClients_safe: "safe w (sendAsyncInfoToClients w)"
proof -
  have "keeps_view (async_info j)" for j
    using keeps_send(3) [of j] by (simp add: keeps_view_def async_info_def)
  then show ?thesis unfolding sendAsyncInfoToClients_def by (simp add: keeps_fold_safe)
qed

lemma forwardNewRouteInfo_safe: "safe w (forwardNewRouteInfoToKnownServers fwd info w)"
  unfolding forwardNewRouteInfoToKnownServers_def using keeps_send(3) [of fwd]
  by (intro keeps_fold_safe) (simp add: keeps_view_def)

lemma sendLocalSubsToRoute_safe: "safe w (sendLocalSubsToRoute r w)"
  unfolding sendLocalSubsToRoute_def Let_def by (rule send_safe) (rule keeps_send)

lemma route_added_safe: "safe w (route_added gen fwd me info b w)"
proof -
  let ?w2 = "sendLocalSubsToRoute me w"
  let ?w3 = "if b then forwardNewRouteInfoToKnownServers fwd info ?w2 else ?w2"
  have 2: "safe w ?w2" by (rule sendLocalSubsToRoute_safe)
  have 3: "safe w ?w3" by (rule safe_if [OF safe_trans [OF 2 forwardNewRouteInfo_safe] 2])
  have 4: "safe w (snd (updateServerINFO gen us ?w3))" for us
    by (rule safe_trans [OF 3 updateServerINFO_safe])
  show ?thesis unfolding route_added_def Let_def case_prod_beta
    by (rule safe_if [OF safe_trans [OF 4 sendAsyncInfoToClients_safe] 4])
qed

lemma processRouteInfo_safe:
  assumes "heap w me = Some c" "ctyp c = ROUTER"
  shows "safe w (processRouteInfo lower parseURL gen fwd me info w)"
proof -
  let ?s = "\<lambda>r. upd_client me (\<lambda>c. c\<lparr>croute := Some r\<rparr>) w"
  have set: "safe w (?s r)" for r by (rule send_safe) (rule keeps_view_simps)
  have h: "heap (?s r) me = Some (c\<lparr>croute := Some r\<rparr>)" for r using assms by (simp add: heap_upd_client)
  have cl: "safe w (closeConnection me (?s r))" for r
    by (rule safe_trans [OF set closeConnection_safe]) (simp add: h)
  note ar = addRoute_safe [OF h]
  have add: "safe w (snd (addRoute me (?s r)))" for r
    by (rule safe_trans [OF set ar(1)]) (simp add: assms)
  have addcl: "safe w (closeConnection me (snd (addRoute me (?s r))))" for r
    by (rule safe_trans [OF add closeConnection_safe], rule ar(2)) (simp add: assms)
  have ra: "safe w (route_added gen fwd me info b (snd (addRoute me (?s r))))" for b r
    by (rule safe_trans [OF add route_added_safe])
  show ?thesis
    unfolding processRouteInfo_def Let_def case_prod_beta
    by (cases "croute (the_client me w)"; cases "nc (the_client me w)"; simp only: fst_conv snd_conv option.case)
      (intro safe_if cl addcl ra processImplicitRoute_safe safe_refl)+
qed

lemma Shutdown_safe:
  assumes "\<And>i. i \<in> set (ord (remdups (clients w @ grTmpClients w @ routes w))) \<Longrightarrow> heap w i \<noteq> None"
  shows "safe w (Shutdown ord w)"
proof (cases "winv w")
  case True
  have "safe w (w\<lparr>running := False\<rparr>)" by (rule wsame_safe) (simp add: wsame_def view_def fun_eq_iff)
  moreover have "safe w' (fold closeConnection is w')" if "winv w'" "\<And>i. i \<in> set is \<Longrightarrow> heap w' i \<noteq> None" for "is" w'
    using that
  proof (induction "is" arbitrary: w')
    case (Cons a "is")
    then have c: "safe w' (closeConnection a w')" by (intro closeConnection_safe) simp
    then have "safe (closeConnection a w') (fold closeConnection is (closeConnection a w'))"
      using Cons.prems by (intro Cons.IH) (auto simp: safe_def)
    with c show ?case by (auto intro: safe_trans)
  qed simp
  ultimately show ?thesis unfolding Shutdown_def Let_def using True assms
    by (auto simp: safe_def intro: safe_trans)
qed (simp add: safe_def)

end
