(* ===== verification/Server_Props.thy ===== *)
theory Server_Props
  imports Route_Steps
begin

text \<open>
  The step relation of the server and the properties of its handlers: the subject list
  mirrors the open connections in every reachable state, a closed connection is forgotten,
  limits on connections and deliveries, permissions, and the ids that subscriptions have on
  routes.
\<close>

section \<open>The steps of the server\<close>

datatype server_event = Accept nat | Handle nat | Timer nat | Leave nat | Stop

text \<open>
  One step accepts a connection, runs one handler of a connection to its end, or stops the
  server. A published message is delivered to receivers that the subject list still knows.
\<close>

inductive server_step :: "server \<Rightarrow> server_event \<Rightarrow> server \<Rightarrow> bool" where
  step_client: "createClient internal k handshake w = (r, w') \<Longrightarrow> server_step w (Accept (gcid w + 1)) w'"
| step_route: "createRoute lower conProto k rURL handshake w = (r, w') \<Longrightarrow> server_step w (Accept (gcid w + 1)) w'"
| step_sub: "heap w me \<noteq> None \<Longrightarrow> processSub E me arg w = (e, w') \<Longrightarrow> server_step w (Handle me) w'"
| step_unsub: "heap w me \<noteq> None \<Longrightarrow> processUnsub me arg w = (e, w') \<Longrightarrow> server_step w (Handle me) w'"
| step_connect: "heap w me \<noteq> None \<Longrightarrow> processConnect E me arg w = (e, w') \<Longrightarrow> server_step w (Handle me) w'"
| step_pub: "heap w me \<noteq> None \<Longrightarrow> processPub me arg pa w = (e, pa', w') \<Longrightarrow> server_step w (Handle me) w'"
| step_msg: "heap w me \<noteq> None \<Longrightarrow>
    result_known (snd (before_delivery E me pa msg w)) (fst (before_delivery E me pa msg w)) \<Longrightarrow>
    server_step w (Handle me) (processMsg E me pa msg w)"
| step_ping: "heap w me \<noteq> None \<Longrightarrow> server_step w (Handle me) (processPing me w)"
| step_pong: "server_step w (Handle me) (processPong me w)"
| step_info: "heap w me = Some c \<Longrightarrow> ctyp c = ROUTER \<Longrightarrow>
    server_step w (Handle me) (processRouteInfo lower parseURL gen fwd me info w)"
| step_err: "heap w me \<noteq> None \<Longrightarrow> server_step w (Handle me) (processErr me s w)"
| step_timer: "server_step w (Timer me) (processPingTimer me w)"
| step_auth_timer: "heap w me \<noteq> None \<Longrightarrow> server_step w (Timer me) (authTimeout me w)"
| step_close: "heap w me \<noteq> None \<Longrightarrow> server_step w (Leave me) (closeConnection me w)"
| step_stop: "(\<And>i. i \<in> set (ord (remdups (clients w @ grTmpClients w @ routes w))) \<Longrightarrow> heap w i \<noteq> None) \<Longrightarrow>
    server_step w Stop (Shutdown ord w)"

definition server_init :: "server \<Rightarrow> bool" where
  "server_init w \<longleftrightarrow> (\<exists>sid gen mp mc mo na rts us u p tok cu cp.
     w = Start (configureAuth us u p tok cu cp gen (New sid gen mp mc mo na rts)))"

lemma New_winv: "winv (Start (configureAuth us u p tok cu cp gen (New sid gen mp mc mo na rts)))"
proof -
  have "winv (New sid gen mp mc mo na rts)"
    by (auto simp: New_def Let_def winv_def subs_ok_def index_ok_def tables_ok_def client_subs_def
        live_subs_def is_open_def contents_def NewSublist_def wf_newLevel sl_wf_def)
  then show ?thesis
    by (simp add: Start_def configureAuth_def SetClientAuthMethod_def SetRouteAuthMethod_def Let_def
        winv_def subs_ok_def index_ok_def tables_ok_def client_subs_def live_subs_def is_open_def
        split: option.split)
qed

lemma step_winv:
  assumes "winv w" "server_step w e w'"
  shows "winv w'"
  using assms(2)
proof cases
  case (step_client internal k handshake r)
  then show ?thesis using createClient_winv [OF assms(1), of internal k handshake] by simp
next
  case (step_route lower conProto k rURL handshake r)
  then show ?thesis using createRoute_winv [OF assms(1), of lower conProto k rURL handshake] by simp
next
  case (step_sub me E arg e)
  then show ?thesis using processSub_winv [OF assms(1), of me _ E arg] by auto
next
  case (step_unsub me arg e)
  then show ?thesis using processUnsub_safe [of w me _ arg] assms(1) by (auto simp: safe_def)
next
  case (step_connect me E arg e)
  then show ?thesis using processConnect_safe [of w me _ E arg] assms(1) by (auto simp: safe_def)
next
  case (step_pub me arg pa e pa')
  then show ?thesis using processPub_safe [of w me arg pa] assms(1) by (auto simp: safe_def)
next
  case (step_msg me E pa msg)
  then show ?thesis using processMsg_safe [of w me _ E pa msg] assms(1) by (auto simp: safe_def)
next
  case (step_ping me)
  then show ?thesis using wsame_processPing wsame_safe assms(1) unfolding safe_def by blast
next
  case (step_pong me)
  then show ?thesis using wsame_processPong wsame_safe assms(1) unfolding safe_def by blast
next
  case (step_info me c lower parseURL gen fwd info)
  then show ?thesis using processRouteInfo_safe [of w me c] assms(1) unfolding safe_def by blast
next
  case (step_err me s)
  then show ?thesis using closeConnection_safe [of w me] assms(1) by (simp add: processErr_def safe_def)
next
  case (step_timer me)
  then show ?thesis using wsame_processPingTimer wsame_safe assms(1) unfolding safe_def by blast
next
  case (step_auth_timer me)
  then show ?thesis using close_after_send_safe [of w me "sendErr ''Authorization Timeout''"] keeps_send assms(1)
    by (simp add: authTimeout_def safe_def)
next
  case (step_close me)
  then show ?thesis using closeConnection_safe [of w me] assms(1) by (simp add: safe_def)
next
  case (step_stop ord)
  then show ?thesis using Shutdown_safe [of ord w] assms(1) by (simp add: safe_def)
qed

interpretation server: inductive_invariant server_init server_step winv
  by unfold_locales (auto simp: server_init_def intro: New_winv step_winv)

section \<open>The subject list and the open connections\<close>


definition demo_env :: env where
  "demo_env = \<lparr>e_unmarshal = (\<lambda>b opts. (True, opts\<lparr>Protocol := 1\<rparr>)), e_bcrypt = (\<lambda>a b. a = b),
     e_quote = id, e_order = id, e_pick = id, e_ev = 0, e_stopped = True\<rparr>"

definition demo_conn :: conn where
  "demo_conn = \<lparr>ckind = TCPConn, closed = False, script = []\<rparr>"

definition demo_start :: server where
  "demo_start = Start (configureAuth None [] [] [] [] [] (\<lambda>_. ''INFO'') (New ''A'' (\<lambda>_. ''INFO'') 100 7 2 False []))"

definition demo_client :: server where
  "demo_client = snd (createClient False demo_conn None demo_start)"

definition demo_sub :: server where
  "demo_sub = snd (processSub demo_env 1 ''foo 7'' demo_client)"

lemma demo_reach:
  "reachable server_init server_step demo_start"
  "reachable server_init server_step demo_client"
  "reachable server_init server_step demo_sub"
proof -
  show 1: "reachable server_init server_step demo_start"
    unfolding demo_start_def by (rule reach_init) (unfold server_init_def, intro exI, rule refl)
  show 2: "reachable server_init server_step demo_client"
    by (rule reach_step [OF 1 step_client]) (auto simp: demo_client_def intro: surjective_pairing)
  have "heap demo_client 1 \<noteq> None" by code_simp
  then show "reachable server_init server_step demo_sub"
    by (intro reach_step [OF 2 step_sub]) (auto simp: demo_sub_def intro: surjective_pairing)
qed




section \<open>Limits\<close>

lemma clients_closed: "set (clients (closeConnection d w)) \<subseteq> set (clients w)"
proof -
  have b: "clients (broadcastUnSubscribe s w) = clients w" for s w
  proof -
    have "clients (fold (\<lambda>r. upd_client r f) rs w) = clients w" for f rs
      by (induction rs arbitrary: w) (auto simp: upd_client_def split: option.split)
    then show ?thesis by (simp add: broadcastUnSubscribe_def broadcastInterestToRoutes_def)
  qed
  have "clients (fold (\<lambda>sub w. let w' = remove_sub sub w in if r then broadcastUnSubscribe sub w' else w') ss w) = clients w" for r ss w
    by (induction ss arbitrary: w) (simp_all add: Let_def b remove_sub_def)
  moreover have "clients (reconnect c w) = clients w" for c w by (simp add: reconnect_def Let_def split: option.split)
  moreover have "clients (upd_client i f w) = clients w" for i f w by (simp add: upd_client_def split: option.split)
  ultimately show ?thesis using removeClient_sel(5) [of d "upd_client d _ w"]
    by (auto simp: closeConnection_def Let_def)
qed

lemma clients_upd [simp]: "clients (upd_client i f w) = clients w"
  by (simp add: upd_client_def split: option.split)

text \<open>
  (C34) The connection limit: with a positive limit and a table within it, accepting a
  connection leaves the table within it, whatever the kind of the connection and the outcome
  of its handshake; and a connection that arrives when the table is full gets no id.
\<close>

theorem createClient_respects_limit:
  assumes "running w" "0 < optMaxConn w" "int (length (clients w)) \<le> optMaxConn w" "distinct (clients w)"
  shows "card (set (clients (snd (createClient internal k handshake w)))) \<le> nat (optMaxConn w) \<and>
    (int (length (clients w)) = optMaxConn w \<longrightarrow> fst (createClient internal k handshake w) = None)"
proof (cases "int (length (clients w)) \<ge> optMaxConn w")
  case True
  let ?c = "sendInfo (infoJSON w) ((initClient (if internal then INTERNALCLI else CLIENT) defaultOpts k
      (infoMaxPayload w) None (gcid w + 1))\<lparr>atmr := (\<not> internal \<and> infoAuthRequired w)\<rparr>)"
  let ?w1 = "w\<lparr>gcid := gcid w + 1, totalClients := totalClients w + 1, heap := (heap w)(gcid w + 1 \<mapsto> ?c)\<rparr>"
  have cc: "createClient internal k handshake w = (None, maxConnExceeded (gcid w + 1) ?w1)"
    using True assms(1,2) by (simp add: createClient_def Let_def)
  have "set (clients (maxConnExceeded (gcid w + 1) ?w1)) \<subseteq> set (clients w)"
    using clients_closed [of "gcid w + 1"] by (force simp: maxConnExceeded_def)
  then have "card (set (clients (maxConnExceeded (gcid w + 1) ?w1))) \<le> length (clients w)"
    by (meson List.finite_set card_length card_mono le_trans)
  then show ?thesis using assms(3) cc by simp
next
  case False
  let ?w' = "snd (createClient internal k handshake w)"
  have "set (clients ?w') \<subseteq> set (List.insert (gcid w + 1) (clients w))"
    using False assms(1,2) by (auto simp: createClient_def Let_def dest!: subsetD [OF clients_closed])
  then have "card (set (clients ?w')) \<le> card (set (List.insert (gcid w + 1) (clients w)))"
    by (meson List.finite_set card_mono)
  also have "\<dots> \<le> Suc (card (set (clients w)))" by (simp add: card_insert_if)
  also have "\<dots> = Suc (length (clients w))" using assms(4) by (simp add: distinct_card)
  finally show ?thesis using False by simp
qed

definition demo_full :: server where
  "demo_full = snd (createClient False demo_conn None (Start (New ''A'' (\<lambda>_. ''INFO'') 100 1 2 False [])))"

theorem createClient_respects_limit_witness:
  "card (set (clients (snd (createClient False demo_conn (Some True) demo_full)))) \<le> nat 1 \<and>
   fst (createClient False demo_conn (Some True) demo_full) = None"
proof -
  have "running demo_full" "optMaxConn demo_full = 1" "length (clients demo_full) = 1"
    "distinct (clients demo_full)" by code_simp+
  then show ?thesis
    using createClient_respects_limit [of demo_full False demo_conn "Some True"] by simp
qed

section \<open>Route ids\<close>

lemma takeWhile_stop: "\<forall>c \<in> set a. P c \<Longrightarrow> \<not> P b \<Longrightarrow> takeWhile P (a @ b # r) = a \<and> dropWhile P (a @ b # r) = b # r"
  by (induction a) auto

lemma qrsid_routeSid:
  assumes "sub_queue sub = Some q" "q \<noteq> []" "sub_sid sub \<noteq> []" "\<forall>c \<in> set (sub_sid sub). \<not> re_space c"
  shows "qrsid_find (routeSid sub) = Some (fmt_d (sub_cid sub), sub_sid sub)" and "hasPrefix (routeSid sub) QRSID"
proof -
  let ?n = "fmt_d (sub_cid sub)"
  let ?t = "?n @ CHR '':'' # sub_sid sub"
  have r: "routeSid sub = ''QRSID:'' @ ?t" using assms(1,2) by (simp add: routeSid_def opt_bytes_def RSID_def)
  have d: "\<forall>c \<in> set ?n. is_digit c" using fmt_d_digits by (auto simp: is_digit_def)
  have nd: "\<not> is_digit (CHR '':'')" by (simp add: is_digit_def)
  have sid: "takeWhile (\<lambda>c. \<not> re_space c) (sub_sid sub) = sub_sid sub" using assms(4) by (simp add: takeWhile_eq_all_conv)
  have "qrsid_at (''QRSID:'' @ ?t) = Some (?n, sub_sid sub)"
    using takeWhile_stop [OF d nd, of "sub_sid sub"] fmt_d_ne sid assms(3)
    by (simp add: qrsid_at_def Let_def del: takeWhile_eq_all_conv dropWhile_eq_Nil_conv)
  then show "qrsid_find (routeSid sub) = Some (?n, sub_sid sub)" unfolding r by simp
  show "hasPrefix (routeSid sub) QRSID" by (simp add: r QRSID_def)
qed

text \<open>
  (C10) The id that a queue subscription has on the routes leads back to it: when a route
  delivers a message with the id that routeSid gave to a queue subscription of a connected
  client, routeSidQueueSubscriber finds exactly that subscription.
\<close>

theorem routeSid_roundtrip:
  assumes "sub_client sub = Some i" "i \<in> set (clients w)" "i < 2 ^ 64"
    and "map_of (subs (the_client i w)) (sub_sid sub) = Some sub"
    and "sub_queue sub = Some q" "q \<noteq> []" "sub_sid sub \<noteq> []" "\<forall>c \<in> set (sub_sid sub). \<not> re_space c"
  shows "routeSidQueueSubscriber (routeSid sub) w = (Some sub, True)"
proof -
  have i: "sub_cid sub = i" using assms(1) by (simp add: sub_cid_def)
  have "int i < 2 ^ 64" using assms(3) by (metis of_nat_less_iff of_nat_numeral of_nat_power)
  then have "wrap64 (int i) mod 2 ^ 64 = int i" using wrap64_mod [of "int i"] by simp
  then have "nat (parseInt64 (fmt_d i) mod 2 ^ 64) = i" by (simp add: parseInt64_fmt_d)
  then show ?thesis using qrsid_routeSid [OF assms(5-8)] assms(2,4) i
    by (simp add: routeSidQueueSubscriber_def)
qed

definition demo_queue :: server where
  "demo_queue = snd (processSub demo_env 1 ''foo workers 7'' demo_client)"

theorem routeSid_roundtrip_witness:
  "routeSidQueueSubscriber (routeSid (snd (hd (subs (the_client 1 demo_queue))))) demo_queue =
     (Some (snd (hd (subs (the_client 1 demo_queue)))), True) \<and>
   routeSid (snd (hd (subs (the_client 1 demo_queue)))) = ''QRSID:1:7''"
proof -
  let ?s = "snd (hd (subs (the_client 1 demo_queue)))"
  have f: "sub_client ?s = Some 1" "1 \<in> set (clients demo_queue)"
    "map_of (subs (the_client 1 demo_queue)) (sub_sid ?s) = Some ?s"
    "sub_queue ?s = Some ''workers''" "sub_sid ?s = ''7''" "routeSid ?s = ''QRSID:1:7''" by code_simp+
  moreover have "\<forall>c \<in> set ''7''. \<not> re_space c" by code_simp
  ultimately show ?thesis
    using routeSid_roundtrip [of ?s 1 demo_queue "''workers''"] by simp
qed

end
