(* ===== verification/Delivery_Props.thy ===== *)
theory Delivery_Props
  imports Server_Props
begin

text \<open>
  Properties of single handlers: the limit that UNSUB sets on the messages of a subscription,
  permissions, rejected CONNECTs, and the behaviours of closing and of the permission cache
  that differ from what the code intends.
\<close>

section \<open>The limit of a subscription\<close>

lemma counters_upd [simp]: "nm (upd_client i f w) = nm w" "smax (upd_client i f w) = smax w" "routes (upd_client i f w) = routes w"
  by (simp_all add: upd_client_def split: option.split)

lemma broadcast_sel [simp]:
  "nm (broadcastUnSubscribe s w) = nm w" "smax (broadcastUnSubscribe s w) = smax w"
proof -
  have "nm (fold (\<lambda>r. upd_client r f) rs w) = nm w \<and> smax (fold (\<lambda>r. upd_client r f) rs w) = smax w" for f rs
    by (induction rs arbitrary: w) auto
  then show "nm (broadcastUnSubscribe s w) = nm w" "smax (broadcastUnSubscribe s w) = smax w"
    by (simp_all add: broadcastUnSubscribe_def broadcastInterestToRoutes_def)
qed

lemma broadcast_other: "d \<notin> set (routes w) \<Longrightarrow> heap (broadcastUnSubscribe s w) d = heap w d"
proof -
  assume d: "d \<notin> set (routes w)"
  have "d \<notin> set rs \<Longrightarrow> heap (fold (\<lambda>r. upd_client r f) rs v) d = heap v d" for f rs v
    by (induction rs arbitrary: v) (auto simp: heap_upd_client)
  then show ?thesis using d by (simp add: broadcastUnSubscribe_def broadcastInterestToRoutes_def)
qed

lemma closeConnection_counters [simp]: "nm (closeConnection d w) = nm w" "smax (closeConnection d w) = smax w"
proof -
  have f: "nm (fold (\<lambda>sub w. let w' = remove_sub sub w in if r then broadcastUnSubscribe sub w' else w') ss v) = nm v \<and>
      smax (fold (\<lambda>sub w. let w' = remove_sub sub w in if r then broadcastUnSubscribe sub w' else w') ss v) = smax v" for r ss v
    by (induction ss arbitrary: v) (simp_all add: Let_def remove_sub_def)
  have r: "nm (reconnect c v) = nm v" "smax (reconnect c v) = smax v" for c v
    by (simp_all add: reconnect_def Let_def split: option.split)
  have m: "nm (removeClient i v) = nm v" "smax (removeClient i v) = smax v" for i v
    by (simp_all add: removeClient_def Let_def split: ctype.split)
  show "nm (closeConnection d w) = nm w" "smax (closeConnection d w) = smax w"
    by (simp_all add: closeConnection_def Let_def f [unfolded Let_def] r m)
qed

lemma deliver_body_counters [simp]: "nm (deliver_body me d mh msg w) = nm w" "smax (deliver_body me d mh msg w) = smax w"
  by (simp_all add: deliver_body_def Let_def split: prod.split wres.split)

lemma drop_sub_gone:
  assumes "\<not> (0 < smax w (sub_ptr sub) \<and> nm w (sub_ptr sub) < smax w (sub_ptr sub))"
    "heap w d = Some c" "d \<notin> set (routes w)"
  shows "map_of (client_subs (drop_sub d fwd sub w) d) (sub_sid sub) = None"
    and "out (the_client d (drop_sub d fwd sub w)) = out c"
proof -
  have "heap (unsubscribe d sub w) d = Some (c\<lparr>subs := AList.delete (sub_sid sub) (subs c)\<rparr>)"
      "routes (unsubscribe d sub w) = routes w"
    using assms(1,2) by (auto simp: unsubscribe_def Let_def remove_sub_def heap_upd_client)
  then have h: "heap (drop_sub d fwd sub w) d = Some (c\<lparr>subs := AList.delete (sub_sid sub) (subs c)\<rparr>)"
    using broadcast_other [of d "unsubscribe d sub w"] assms(3) by (simp add: drop_sub_def Let_def)
  then show "map_of (client_subs (drop_sub d fwd sub w) d) (sub_sid sub) = None"
    by (simp add: client_subs_def AList.delete_eq map_of_eq_None_iff) force
  show "out (the_client d (drop_sub d fwd sub w)) = out c" using h by (simp add: the_client_def)
qed

lemma routes_closed: "set (routes (closeConnection d w)) \<subseteq> set (routes w)"
proof -
  have b: "routes (broadcastUnSubscribe s w) = routes w" for s w
  proof -
    have "routes (fold (\<lambda>r. upd_client r f) rs w) = routes w" for f rs
      by (induction rs arbitrary: w) auto
    then show ?thesis by (simp add: broadcastUnSubscribe_def broadcastInterestToRoutes_def)
  qed
  have "routes (fold (\<lambda>sub w. if r then broadcastUnSubscribe sub (remove_sub sub w) else remove_sub sub w) ss w) = routes w" for r ss w
    by (induction ss arbitrary: w) (simp_all add: b remove_sub_def)
  moreover have "routes (reconnect c w) = routes w" for c w by (simp add: reconnect_def Let_def split: option.split)
  ultimately show ?thesis using removeClient_sel(6) [of d "upd_client d _ w"]
    by (auto simp: closeConnection_def Let_def)
qed

lemma deliver_body_routes: "set (routes (deliver_body me d mh msg w)) \<subseteq> set (routes w)"
  by (auto simp: deliver_body_def Let_def split: prod.splits wres.splits dest!: subsetD [OF routes_closed])

text \<open>
  (C7) The limit an UNSUB puts on a subscription: the delivery that reaches it removes the
  subscription from its client, and a delivery that comes after that writes nothing to the
  client.
\<close>

theorem deliveries_stop_at_limit:
  assumes "reachable server_init server_step w" "sub_client sub = Some d" "heap w d = Some c" "ctyp c \<noteq> ROUTER"
    and "0 < smax w (sub_ptr sub)" "nm w (sub_ptr sub) < 2 ^ 63 - 1" "- (2 ^ 63) \<le> nm w (sub_ptr sub)"
  shows "(smax w (sub_ptr sub) \<le> nm w (sub_ptr sub) + 1 \<longrightarrow>
       map_of (client_subs (deliverMsg me sub mh msg w) d) (sub_sid sub) = None) \<and>
    (smax w (sub_ptr sub) \<le> nm w (sub_ptr sub) \<longrightarrow> out (the_client d (deliverMsg me sub mh msg w)) = out c)"
proof -
  let ?p = "sub_ptr sub"
  have inv: "winv w" by (rule server.reachable_inv [OF assms(1)])
  then have d: "d \<notin> set (routes w)" using assms(3,4) by (auto simp: winv_def tables_ok_def)
  have n: "wrap64 (nm w ?p + 1) = nm w ?p + 1" using assms(6,7) by (intro wrap64_id) (simp add: in_int64_def)
  let ?w1 = "w\<lparr>nm := (nm w)(?p := nm w ?p + 1)\<rparr>"
  let ?b = "deliver_body me d mh msg ?w1"
  have w1: "safe w ?w1" by (rule wsame_safe) (simp add: wsame_def view_def fun_eq_iff)
  have b: "safe ?w1 ?b" by (rule deliver_body_safe) (simp add: assms(3))
  then have "heap ?b d \<noteq> None" using inv w1 assms(3) by (simp add: safe_def)
  then obtain c' where c': "heap ?b d = Some c'" by blast
  have rt: "d \<notin> set (routes ?b)" using deliver_body_routes [of me d mh msg ?w1] d by auto
  have eq: "deliverMsg me sub mh msg w =
      (if nm w ?p + 1 = smax w ?p then drop_sub d True sub ?b
       else if nm w ?p + 1 > smax w ?p then drop_sub d True sub ?w1 else ?b)"
    using assms unfolding deliverMsg_def Let_def n by (simp add: the_client_def)
  show ?thesis
    using drop_sub_gone [OF _ c' rt, of sub True] drop_sub_gone [of ?w1 sub d c True] assms(3) d
    unfolding eq by auto
qed

definition demo_limit :: server where
  "demo_limit = snd (processUnsub 1 ''7 1'' demo_sub)"

theorem deliveries_stop_at_limit_witness:
  "let s = snd (hd (subs (the_client 1 demo_limit))); w = demo_limit in
   map_of (client_subs (deliverMsg 1 s [] [] w) 1) (sub_sid s) = None \<and> smax w (sub_ptr s) = 1"
proof -
  let ?s = "snd (hd (subs (the_client 1 demo_limit)))"
  have f: "heap demo_sub 1 \<noteq> None" "heap demo_limit 1 \<noteq> None" "ctyp (the (heap demo_limit 1)) \<noteq> ROUTER" "sub_client ?s = Some 1"
    "smax demo_limit (sub_ptr ?s) = 1" "nm demo_limit (sub_ptr ?s) = 0" by code_simp+
  have "reachable server_init server_step demo_limit"
    using f(1) by (intro reach_step [OF demo_reach(3) step_unsub]) (auto simp: demo_limit_def intro: surjective_pairing)
  from deliveries_stop_at_limit [OF this f(4), of "the (heap demo_limit 1)"] show ?thesis using f by auto
qed

section \<open>Permissions\<close>

lemma permission_list:
  assumes "\<forall>s \<in> set ss. acceptable s" "proper_literal k"
  shows "res_psubs (fst (Match ev k (perm_list ss))) \<noteq> [] \<longleftrightarrow>
    (\<exists>s \<in> set ss. insertable (tokens s) \<and> subject_matches s k)"
proof -
  define es where "es = map perm_entry (enumerate 0 ss)"
  have mem: "x \<in> set es \<longleftrightarrow> (\<exists>i < length ss. x = perm_entry (i, ss ! i))" for x
    unfolding in_set_conv_nth es_def by (auto simp: nth_enumerate_eq)
  have sel: "sub_subject (perm_entry (i, s)) = s" "sub_queue (perm_entry (i, s)) = None" for i s
    by (simp_all add: perm_entry_def)
  have "\<forall>x \<in> set es. acceptable (sub_subject x)" using assms(1) by (auto simp: mem sel)
  note ins = sl_index.ins_all [OF NewSublist_inv this]
  let ?l = "fold (\<lambda>s i. snd (Insert s i)) es NewSublist"
  have c: "(q, x) \<in># contents ?l \<longleftrightarrow> x \<in> set es \<and> insertable (tokens (sub_subject x)) \<and> q = path_of (sub_subject x)" for q x
    unfolding conjunct2 [OF ins] by (auto simp: entry_of_def contents_def NewSublist_def)
  have fi: "x \<in> set (res_psubs (fst (Match ev k ?l))) \<longleftrightarrow> sub_queue x = None \<and> x \<in> set es \<and>
      insertable (tokens (sub_subject x)) \<and> subject_matches (sub_subject x) k" for x
    unfolding sl_index.found_iff [OF conjunct1 [OF ins] assms(2)] subject_matches_def c by auto
  have "(\<exists>x. x \<in> set (res_psubs (fst (Match ev k ?l)))) \<longleftrightarrow>
      (\<exists>i < length ss. insertable (tokens (ss ! i)) \<and> subject_matches (ss ! i) k)"
    unfolding fi mem using sel by metis
  also have "\<dots> \<longleftrightarrow> (\<exists>s \<in> set ss. insertable (tokens s) \<and> subject_matches s k)"
    by (metis in_set_conv_nth)
  finally have "(\<exists>x. x \<in> set (res_psubs (fst (Match ev k ?l)))) \<longleftrightarrow>
      (\<exists>s \<in> set ss. insertable (tokens s) \<and> subject_matches s k)" .
  moreover have "perm_list ss = ?l" by (simp add: perm_list_def es_def)
  ultimately show ?thesis by (metis last_in_set list.set_intros(1) neq_Nil_conv empty_iff empty_set)
qed

text \<open>
  (C25) The permissions of a user are decided by subject matching: after RegisterUser the client
  may subscribe or publish to a subject exactly when one of the patterns that its permissions
  list for this operation is a valid subject that matches.
\<close>

theorem permissions_decide:
  assumes "UPermissions user = Some p" "proper_literal k"
    and "\<forall>s \<in> set (Subscribe p) \<union> set (Publish p). acceptable s"
  shows "(fst (sub_allowed E k (RegisterUser user c)) \<longleftrightarrow>
            (\<exists>s \<in> set (Subscribe p). insertable (tokens s) \<and> subject_matches s k)) \<and>
         (fst (pub_allowed E k (RegisterUser user c)) \<longleftrightarrow>
            (\<exists>s \<in> set (Publish p). insertable (tokens s) \<and> subject_matches s k))"
  using permission_list [of "Subscribe p" k "e_ev E"] permission_list [of "Publish p" k "e_ev E"] assms
  by (simp add: sub_allowed_def pub_allowed_def RegisterUser_def Let_def case_prod_beta)

definition demo_user :: User where
  "demo_user = \<lparr>UUsername = ''u'', UPassword = ''p'',
     UPermissions = Some \<lparr>Publish = [''foo.*''], Subscribe = [''bar.>'']\<rparr>\<rparr>"

theorem permissions_decide_witness:
  "(fst (sub_allowed demo_env ''bar.x.y'' (RegisterUser demo_user (the_client 1 demo_client))) \<longleftrightarrow>
      (\<exists>s \<in> set [''bar.>'']. insertable (tokens s) \<and> subject_matches s ''bar.x.y'')) \<and>
   (fst (pub_allowed demo_env ''bar.x.y'' (RegisterUser demo_user (the_client 1 demo_client))) \<longleftrightarrow>
      (\<exists>s \<in> set [''foo.*'']. insertable (tokens s) \<and> subject_matches s ''bar.x.y''))"
proof -
  have "proper_literal ''bar.x.y''" "acceptable ''foo.*''" "acceptable ''bar.>''" by code_simp+
  then show ?thesis
    using permissions_decide [of demo_user "\<lparr>Publish = [''foo.*''], Subscribe = [''bar.>'']\<rparr>" "''bar.x.y''" demo_env "the_client 1 demo_client"]
    by (simp add: demo_user_def)
qed

text \<open>
  The cache of publish permissions is never pruned: each new subject that is checked adds
  an entry, also beyond \<open>maxPermCacheSize\<close>. The loop that should delete entries deletes
  from the result cache of the read loop instead.
\<close>

theorem permission_cache_grows:
  assumes "perms c = Some ps" "map_of (pcache ps) k = None"
  shows "\<exists>ps'. perms (snd (pub_allowed E k c)) = Some ps' \<and> length (pcache ps') = length (pcache ps) + 1"
proof -
  have "length (AList.update k v xs) = length xs + 1" if "map_of xs k = None" for v :: bool and xs
    using that by (induction xs) (auto split: if_splits)
  then show ?thesis using assms by (simp add: pub_allowed_def Let_def case_prod_beta)
qed

theorem permission_cache_grows_witness:
  "let c = RegisterUser demo_user (the_client 1 demo_client) in
   \<exists>ps'. perms (snd (pub_allowed demo_env ''a'' c)) = Some ps' \<and> length (pcache ps') = 0 + 1"
  using permission_cache_grows [of "RegisterUser demo_user (the_client 1 demo_client)" _ "''a''" demo_env]
  by (simp add: RegisterUser_def demo_user_def)

section \<open>Rejected connections\<close>

text \<open>
  A CONNECT whose credentials the configured method does not accept is answered with the
  authorization error, and the connection is closed.
\<close>

theorem connect_rejected:
  assumes "reachable server_init server_step w" "heap w me = Some c" "e_stopped E"
    and "e_unmarshal E arg (copts c) = (True, opts)"
    and "\<not> fst (checkAuth E w (c\<lparr>atmr := False, copts := opts, flags := flag_set (flags c) connectReceived\<rparr>))"
  shows "fst (processConnect E me arg w) = Some ErrAuthorization \<and> \<not> is_open (snd (processConnect E me arg w)) me"
proof -
  have inv: "winv w" by (rule server.reachable_inv [OF assms(1)])
  let ?c1 = "c\<lparr>atmr := False, copts := opts, flags := flag_set (flags c) connectReceived\<rparr>"
  obtain c2 where c2: "checkAuth E w ?c1 = (False, c2)" using assms(5) by (cases "checkAuth E w ?c1") auto
  have v: "vrel c c2" using vrel_trans [OF _ checkAuth_view [of ?c1 E w]] c2 by (simp add: vrel_def)
  let ?n = "if Protocol opts \<ge> ClientProtoInfo then cproto w + 1 else cproto w"
  have same: "checkAuth E (w\<lparr>heap := h, cproto := n\<rparr>) d = checkAuth E w d" for h n d
    by (simp add: checkAuth_def split: ctype.split)
  have pc: "processConnect E me arg w = (Some ErrAuthorization, authViolation me (w\<lparr>cproto := ?n, heap := (heap w)(me \<mapsto> c2)\<rparr>))"
    using assms(2-4) c2 same by (simp add: processConnect_def Let_def the_client_def)
  let ?w2 = "w\<lparr>cproto := ?n, heap := (heap w)(me \<mapsto> c2)\<rparr>"
  have "safe w ?w2"
    using safe_trans [OF cproto_safe put_safe [of "w\<lparr>cproto := ?n\<rparr>" me c c2]] assms(2) v by simp
  then have "winv ?w2" using inv by (simp add: safe_def)
  moreover let ?w3 = "upd_client me (sendErr ''Authorization Violation'') ?w2"
  have "safe ?w2 ?w3" by (rule send_safe) (rule keeps_send)
  ultimately have "winv ?w3" by (simp add: safe_def)
  from closeConnection_winv(4) [OF this, of me] have "\<not> is_open (closeConnection me ?w3) me"
    by (simp add: heap_upd_client)
  then show ?thesis unfolding pc by (simp add: authViolation_def)
qed

definition demo_auth_client :: server where
  "demo_auth_client = snd (createClient False demo_conn None
     (Start (configureAuth None ''u'' ''p'' [] [] [] (\<lambda>_. ''INFO'') (New ''A'' (\<lambda>_. ''INFO'') 100 7 2 False []))))"

theorem connect_rejected_witness:
  "fst (processConnect demo_env 1 [] demo_auth_client) = Some ErrAuthorization \<and>
   \<not> is_open (snd (processConnect demo_env 1 [] demo_auth_client)) 1 \<and> is_open demo_auth_client 1"
proof -
  let ?c = "the (heap demo_auth_client 1)"
  have init: "server_init (Start (configureAuth None ''u'' ''p'' [] [] [] (\<lambda>_. ''INFO'') (New ''A'' (\<lambda>_. ''INFO'') 100 7 2 False [])))"
    by (unfold server_init_def, intro exI, rule refl)
  have r: "reachable server_init server_step demo_auth_client"
    by (rule reach_step [OF reach_init [of server_init _ server_step, OF init] step_client]) (auto simp: demo_auth_client_def intro: surjective_pairing)
  have f: "heap demo_auth_client 1 \<noteq> None" "e_stopped demo_env"
    "\<not> fst (checkAuth demo_env demo_auth_client (?c\<lparr>atmr := False, copts := (copts ?c)\<lparr>Protocol := 1\<rparr>, flags := flag_set (flags ?c) connectReceived\<rparr>))"
    "is_open demo_auth_client 1"
    by code_simp+
  show ?thesis
    using connect_rejected [OF r, of 1 ?c demo_env "[]" "(copts ?c)\<lparr>Protocol := 1\<rparr>"] f by (auto simp: demo_env_def)
qed

section \<open>What closing leaves behind\<close>

text \<open>
  The count of clients that understand asynchronous INFO drifts: a client that sends
  CONNECT twice is counted twice and subtracted once, so the count stays positive when no
  client is left.
\<close>

theorem cproto_leaks:
  "let w = closeConnection 1 (snd (processConnect demo_env 1 [] (snd (processConnect demo_env 1 [] demo_client))))
   in clients w = [] \<and> cproto w = 1"
  by code_simp

text \<open>
  A closed internal connection stays in the table of clients, keeps its subscriptions
  there, and a route that joins later is told of them although the subject list no longer
  has them.
\<close>

definition demo_internal :: server where
  "demo_internal = closeConnection 1 (snd (processSub demo_env 1 ''foo 7'' (snd (createClient True demo_conn None demo_start))))"

definition demo_join :: server where
  "demo_join = snd (createRoute id [] demo_conn None None demo_internal)"

theorem internal_client_stays:
  "clients demo_internal = [1] \<and> size (contents (sl demo_internal)) = 0 \<and>
   out (the_client 2 (sendLocalSubsToRoute 2 demo_join)) =
     out (the_client 2 demo_join) @ ''SUB foo  RSID:1:7'' @ [CR, LF]"
  by code_simp

text \<open>
  When a client leaves while an UNSUB with a limit is pending for one of its
  subscriptions, the routes are told of the limit and not of the end: the last bytes a route
  gets for the subscription still carry the limit, so the other server keeps its interest.
\<close>

definition demo_info :: Info where
  "demo_info = \<lparr>InfoID = ''B'', InfoHostPort = ''h:1'', InfoAuthRequired = False, InfoTLSRequired = False,
     InfoIP = [], InfoConnectURLs = []\<rparr>"

definition demo_pending :: server where
  "demo_pending = snd (processUnsub 1 ''7 5''
     (processRouteInfo id Some (\<lambda>_. []) [] 2 demo_info (snd (createRoute id [] demo_conn None None demo_sub))))"

theorem close_keeps_remote_interest:
  "routes demo_pending = [2] \<and> size (contents (sl (closeConnection 1 demo_pending))) = 0 \<and>
   out (the_client 2 (closeConnection 1 demo_pending)) =
     out (the_client 2 demo_pending) @ ''UNSUB RSID:1:7 5'' @ [CR, LF]"
  by code_simp

end
