(* ===== verification/Parser.thy ===== *)
theory Parser
  imports Server_Ops
begin

text \<open>
  The protocol parser (src/server/parser.go) and the read loop that feeds it
  (src/server/client.go, readLoop). The parser is a state machine over the bytes of one read;
  arguments and payloads that do not end within a read are kept in \<open>argBuf\<close> and \<open>msgBuf\<close>.
  Indices are 64-bit; a slice expression that is out of range is the result \<open>Panicked\<close>.
\<close>

datatype (plugins only: code) pstate = OP_START | OP_PLUS | OP_PLUS_O | OP_PLUS_OK | OP_MINUS | OP_MINUS_E | OP_MINUS_ER
  | OP_MINUS_ERR | OP_MINUS_ERR_SPC | MINUS_ERR_ARG | OP_C | OP_CO | OP_CON | OP_CONN | OP_CONNE
  | OP_CONNEC | OP_CONNECT | CONNECT_ARG | OP_P | OP_PU | OP_PUB | OP_PUB_SPC | PUB_ARG | OP_PI
  | OP_PIN | OP_PING | OP_PO | OP_PON | OP_PONG | MSG_PAYLOAD | MSG_END | OP_S | OP_SU | OP_SUB
  | OP_SUB_SPC | SUB_ARG | OP_U | OP_UN | OP_UNS | OP_UNSU | OP_UNSUB | OP_UNSUB_SPC | UNSUB_ARG
  | OP_M | OP_MS | OP_MSG | OP_MSG_SPC | MSG_ARG | OP_I | OP_IN | OP_INF | OP_INFO | INFO_ARG

record parseState =
  ps_state :: pstate
  ps_as :: int
  ps_drop :: int
  ps_pa :: pubArg
  ps_argBuf :: "bytes option"
  ps_msgBuf :: "bytes option"

definition MAX_CONTROL_LINE_SIZE :: int where "MAX_CONTROL_LINE_SIZE = 1024"
definition PROTO_SNIPPET_SIZE :: int where "PROTO_SNIPPET_SIZE = 32"

text \<open>
  What the parser takes from outside besides the environment of the handlers: the limit of a
  control line, and for INFO the JSON decoder and the functions on URLs and on server
  information that processRouteInfo needs.
\<close>

record penv = env +
  e_mcl :: int
  e_info :: "bytes \<Rightarrow> Info option"
  e_lower :: "bytes \<Rightarrow> bytes"
  e_parseURL :: "bytes \<Rightarrow> bytes option"
  e_gen :: "server \<Rightarrow> bytes"
  e_fwd :: "Info \<Rightarrow> bytes"

definition the_env :: "penv \<Rightarrow> env" where
  "the_env E = env.truncate E"

definition processInfo :: "penv \<Rightarrow> nat \<Rightarrow> bytes \<Rightarrow> server \<Rightarrow> perr option \<times> server" where
  "processInfo E me arg w =
     (case e_info E arg of
        None \<Rightarrow> (Some (ErrText ''json''), w)
      | Some info \<Rightarrow>
          (None, if ctyp (the_client me w) = ROUTER
                 then processRouteInfo (e_lower E) (e_parseURL E) (e_gen E) (e_fwd E info) me info w
                 else w))"

definition isAuthTimerSet :: "nat \<Rightarrow> server \<Rightarrow> bool" where
  "isAuthTimerSet me w = atmr (the_client me w)"

section \<open>One byte\<close>

definition slice :: "bytes \<Rightarrow> int \<Rightarrow> int \<Rightarrow> bytes option" where
  "slice buf a b =
     (if 0 \<le> a \<and> a \<le> b \<and> b \<le> int (length buf) then Some (take (nat (b - a)) (drop (nat a) buf)) else None)"

definition is_blank :: "char \<Rightarrow> bool" where
  "is_blank b \<longleftrightarrow> b = SPC \<or> b = TAB"

text \<open>The states that read the letters of an operation, and those that skip blanks before an argument.\<close>

definition start_state :: "bool \<Rightarrow> char \<Rightarrow> pstate option" where
  "start_state isClient b =
     (if b = CHR ''P'' \<or> b = CHR ''p'' then Some OP_P
      else if b = CHR ''S'' \<or> b = CHR ''s'' then Some OP_S
      else if b = CHR ''U'' \<or> b = CHR ''u'' then Some OP_U
      else if b = CHR ''M'' \<or> b = CHR ''m'' then (if isClient then None else Some OP_M)
      else if b = CHR ''C'' \<or> b = CHR ''c'' then Some OP_C
      else if b = CHR ''I'' \<or> b = CHR ''i'' then Some OP_I
      else if b = CHR ''+'' then Some OP_PLUS
      else if b = CHR ''-'' then Some OP_MINUS
      else None)"

definition on :: "char \<Rightarrow> char \<Rightarrow> pstate \<Rightarrow> char \<Rightarrow> pstate option" where
  "on up low s b = (if b = up \<or> b = low then Some s else None)"

definition on_blank :: "pstate \<Rightarrow> char \<Rightarrow> pstate option" where
  "on_blank s b = (if is_blank b then Some s else None)"

definition pub_letters :: "pstate \<Rightarrow> (char \<Rightarrow> pstate option) option" where
  "pub_letters s =
     (case s of
        OP_P \<Rightarrow> Some (\<lambda>b. if b = CHR ''U'' \<or> b = CHR ''u'' then Some OP_PU
                          else if b = CHR ''I'' \<or> b = CHR ''i'' then Some OP_PI
                          else if b = CHR ''O'' \<or> b = CHR ''o'' then Some OP_PO else None)
      | OP_PU \<Rightarrow> Some (on (CHR ''B'') (CHR ''b'') OP_PUB)
      | OP_PUB \<Rightarrow> Some (on_blank OP_PUB_SPC)
      | _ \<Rightarrow> None)"

definition sub_letters :: "pstate \<Rightarrow> (char \<Rightarrow> pstate option) option" where
  "sub_letters s =
     (case s of
        OP_S \<Rightarrow> Some (on (CHR ''U'') (CHR ''u'') OP_SU)
      | OP_SU \<Rightarrow> Some (on (CHR ''B'') (CHR ''b'') OP_SUB)
      | OP_SUB \<Rightarrow> Some (on_blank OP_SUB_SPC)
      | _ \<Rightarrow> None)"

definition unsub_letters :: "pstate \<Rightarrow> (char \<Rightarrow> pstate option) option" where
  "unsub_letters s =
     (case s of
        OP_U \<Rightarrow> Some (on (CHR ''N'') (CHR ''n'') OP_UN)
      | OP_UN \<Rightarrow> Some (on (CHR ''S'') (CHR ''s'') OP_UNS)
      | OP_UNS \<Rightarrow> Some (on (CHR ''U'') (CHR ''u'') OP_UNSU)
      | OP_UNSU \<Rightarrow> Some (on (CHR ''B'') (CHR ''b'') OP_UNSUB)
      | OP_UNSUB \<Rightarrow> Some (on_blank OP_UNSUB_SPC)
      | _ \<Rightarrow> None)"

definition ping_letters :: "pstate \<Rightarrow> (char \<Rightarrow> pstate option) option" where
  "ping_letters s =
     (case s of
        OP_PI \<Rightarrow> Some (on (CHR ''N'') (CHR ''n'') OP_PIN)
      | OP_PIN \<Rightarrow> Some (on (CHR ''G'') (CHR ''g'') OP_PING)
      | _ \<Rightarrow> None)"

definition pong_letters :: "pstate \<Rightarrow> (char \<Rightarrow> pstate option) option" where
  "pong_letters s =
     (case s of
        OP_PO \<Rightarrow> Some (on (CHR ''N'') (CHR ''n'') OP_PON)
      | OP_PON \<Rightarrow> Some (on (CHR ''G'') (CHR ''g'') OP_PONG)
      | _ \<Rightarrow> None)"

definition connect_letters :: "pstate \<Rightarrow> (char \<Rightarrow> pstate option) option" where
  "connect_letters s =
     (case s of
        OP_C \<Rightarrow> Some (on (CHR ''O'') (CHR ''o'') OP_CO)
      | OP_CO \<Rightarrow> Some (on (CHR ''N'') (CHR ''n'') OP_CON)
      | OP_CON \<Rightarrow> Some (on (CHR ''N'') (CHR ''n'') OP_CONN)
      | OP_CONN \<Rightarrow> Some (on (CHR ''E'') (CHR ''e'') OP_CONNE)
      | OP_CONNE \<Rightarrow> Some (on (CHR ''C'') (CHR ''c'') OP_CONNEC)
      | OP_CONNEC \<Rightarrow> Some (on (CHR ''T'') (CHR ''t'') OP_CONNECT)
      | _ \<Rightarrow> None)"

definition msg_letters :: "pstate \<Rightarrow> (char \<Rightarrow> pstate option) option" where
  "msg_letters s =
     (case s of
        OP_M \<Rightarrow> Some (on (CHR ''S'') (CHR ''s'') OP_MS)
      | OP_MS \<Rightarrow> Some (on (CHR ''G'') (CHR ''g'') OP_MSG)
      | OP_MSG \<Rightarrow> Some (on_blank OP_MSG_SPC)
      | _ \<Rightarrow> None)"

definition info_letters :: "pstate \<Rightarrow> (char \<Rightarrow> pstate option) option" where
  "info_letters s =
     (case s of
        OP_I \<Rightarrow> Some (on (CHR ''N'') (CHR ''n'') OP_IN)
      | OP_IN \<Rightarrow> Some (on (CHR ''F'') (CHR ''f'') OP_INF)
      | OP_INF \<Rightarrow> Some (on (CHR ''O'') (CHR ''o'') OP_INFO)
      | _ \<Rightarrow> None)"

definition plus_letters :: "pstate \<Rightarrow> (char \<Rightarrow> pstate option) option" where
  "plus_letters s =
     (case s of
        OP_PLUS \<Rightarrow> Some (on (CHR ''O'') (CHR ''o'') OP_PLUS_O)
      | OP_PLUS_O \<Rightarrow> Some (on (CHR ''K'') (CHR ''k'') OP_PLUS_OK)
      | _ \<Rightarrow> None)"

definition minus_letters :: "pstate \<Rightarrow> (char \<Rightarrow> pstate option) option" where
  "minus_letters s =
     (case s of
        OP_MINUS \<Rightarrow> Some (on (CHR ''E'') (CHR ''e'') OP_MINUS_E)
      | OP_MINUS_E \<Rightarrow> Some (on (CHR ''R'') (CHR ''r'') OP_MINUS_ER)
      | OP_MINUS_ER \<Rightarrow> Some (on (CHR ''R'') (CHR ''r'') OP_MINUS_ERR)
      | OP_MINUS_ERR \<Rightarrow> Some (on_blank OP_MINUS_ERR_SPC)
      | _ \<Rightarrow> None)"

definition first_of :: "'a option list \<Rightarrow> 'a option" where
  "first_of xs = fold (\<lambda>x acc. case acc of Some y \<Rightarrow> Some y | None \<Rightarrow> x) xs None"

definition letter :: "pstate \<Rightarrow> (char \<Rightarrow> pstate option) option" where
  "letter s = first_of [pub_letters s, sub_letters s, unsub_letters s, ping_letters s, pong_letters s, connect_letters s, msg_letters s, info_letters s, plus_letters s, minus_letters s]"

lemmas letter_defs = letter_def first_of_def pub_letters_def sub_letters_def unsub_letters_def ping_letters_def pong_letters_def connect_letters_def msg_letters_def info_letters_def plus_letters_def minus_letters_def

definition arg_after :: "pstate \<Rightarrow> pstate option" where
  "arg_after s =
     (case s of
        OP_PUB_SPC \<Rightarrow> Some PUB_ARG
      | OP_SUB_SPC \<Rightarrow> Some SUB_ARG
      | OP_UNSUB_SPC \<Rightarrow> Some UNSUB_ARG
      | OP_CONNECT \<Rightarrow> Some CONNECT_ARG
      | OP_MSG_SPC \<Rightarrow> Some MSG_ARG
      | OP_INFO \<Rightarrow> Some INFO_ARG
      | OP_MINUS_ERR_SPC \<Rightarrow> Some MINUS_ERR_ARG
      | _ \<Rightarrow> None)"

definition is_arg :: "pstate \<Rightarrow> bool" where
  "is_arg s \<longleftrightarrow> s = SUB_ARG \<or> s = UNSUB_ARG \<or> s = PUB_ARG \<or> s = MSG_ARG \<or> s = MINUS_ERR_ARG \<or>
     s = CONNECT_ARG \<or> s = INFO_ARG"

text \<open>
  The outcome of the body of the loop at index \<open>i\<close>: the index before its increment, the state
  of the parser, \<open>authSet\<close> and the server; or one of the ways out.
\<close>

datatype step_res =
    Go int parseState bool server
  | GotoParseErr parseState server
  | GotoAuthErr parseState server
  | Return perr parseState server
  | Panicked

text \<open>
  The jump over a payload. When the sum leaves the 64-bit range the index becomes negative
  and the next access to the buffer panics.
\<close>

definition jump :: "int \<Rightarrow> parseState \<Rightarrow> bool \<Rightarrow> server \<Rightarrow> step_res" where
  "jump j ps authSet w = (if j + 1 \<ge> 2 ^ 63 then Panicked else Go j ps authSet w)"

text \<open>The end of a control line: the handler, then back to the start or on to the payload.\<close>

definition line_done :: "int \<Rightarrow> parseState \<Rightarrow> bool \<Rightarrow> perr option \<times> server \<Rightarrow> step_res" where
  "line_done i ps authSet r =
     (case r of
        (Some x, w') \<Rightarrow> Return x (ps\<lparr>ps_argBuf := None\<rparr>) w'
      | (None, w') \<Rightarrow> Go i (ps\<lparr>ps_argBuf := None, ps_drop := 0, ps_as := i + 1, ps_state := OP_START\<rparr>) authSet w')"

definition sub_line :: "penv \<Rightarrow> nat \<Rightarrow> int \<Rightarrow> bytes \<Rightarrow> parseState \<Rightarrow> bool \<Rightarrow> server \<Rightarrow> step_res" where
  "sub_line E me i arg ps authSet w = line_done i ps authSet (processSub (the_env E) me arg w)"

definition unsub_line :: "nat \<Rightarrow> int \<Rightarrow> bytes \<Rightarrow> parseState \<Rightarrow> bool \<Rightarrow> server \<Rightarrow> step_res" where
  "unsub_line me i arg ps authSet w = line_done i ps authSet (processUnsub me arg w)"

definition info_line :: "penv \<Rightarrow> nat \<Rightarrow> int \<Rightarrow> bytes \<Rightarrow> parseState \<Rightarrow> bool \<Rightarrow> server \<Rightarrow> step_res" where
  "info_line E me i arg ps authSet w = line_done i ps authSet (processInfo E me arg w)"

definition err_line :: "nat \<Rightarrow> int \<Rightarrow> bytes \<Rightarrow> parseState \<Rightarrow> bool \<Rightarrow> server \<Rightarrow> step_res" where
  "err_line me i arg ps authSet w = line_done i ps authSet (None, processErr me arg w)"

definition connect_line :: "penv \<Rightarrow> nat \<Rightarrow> int \<Rightarrow> bytes \<Rightarrow> parseState \<Rightarrow> server \<Rightarrow> step_res" where
  "connect_line E me i arg ps w =
     (case processConnect (the_env E) me arg w of
        (Some x, w') \<Rightarrow> Return x (ps\<lparr>ps_argBuf := None\<rparr>) w'
      | (None, w') \<Rightarrow> Go i (ps\<lparr>ps_argBuf := None, ps_drop := 0, ps_state := OP_START\<rparr>) (isAuthTimerSet me w') w')"

definition pub_arg_line :: "nat \<Rightarrow> int \<Rightarrow> bytes \<Rightarrow> parseState \<Rightarrow> bool \<Rightarrow> server \<Rightarrow> step_res" where
  "pub_arg_line me i arg ps authSet w =
     (case processPub me arg (ps_pa ps) w of
        (Some x, pa, w') \<Rightarrow> Return x (ps\<lparr>ps_pa := pa\<rparr>) w'
      | (None, pa, w') \<Rightarrow>
          let ps' = ps\<lparr>ps_pa := pa, ps_drop := 0, ps_as := i + 1, ps_state := MSG_PAYLOAD\<rparr>
          in if ps_msgBuf ps' = None then jump (ps_as ps' + pa_size pa - LEN_CR_LF) ps' authSet w'
             else Go i ps' authSet w')"

definition msg_arg_line :: "int \<Rightarrow> bytes \<Rightarrow> parseState \<Rightarrow> bool \<Rightarrow> server \<Rightarrow> step_res" where
  "msg_arg_line i arg ps authSet w =
     (case processMsgArgs arg (ps_pa ps) of
        (Some x, pa) \<Rightarrow> Return x (ps\<lparr>ps_pa := pa\<rparr>) w
      | (None, pa) \<Rightarrow>
          let ps' = ps\<lparr>ps_pa := pa, ps_drop := 0, ps_as := i + 1, ps_state := MSG_PAYLOAD\<rparr>
          in jump (ps_as ps' + pa_size pa - 1) ps' authSet w)"

definition arg_line :: "penv \<Rightarrow> nat \<Rightarrow> int \<Rightarrow> bytes \<Rightarrow> parseState \<Rightarrow> bool \<Rightarrow> server \<Rightarrow> step_res" where
  "arg_line E me i arg ps authSet w =
     (case ps_state ps of
        SUB_ARG \<Rightarrow> sub_line E me i arg ps authSet w
      | UNSUB_ARG \<Rightarrow> unsub_line me i arg ps authSet w
      | INFO_ARG \<Rightarrow> info_line E me i arg ps authSet w
      | MINUS_ERR_ARG \<Rightarrow> err_line me i arg ps authSet w
      | CONNECT_ARG \<Rightarrow> connect_line E me i arg ps w
      | PUB_ARG \<Rightarrow> pub_arg_line me i arg ps authSet w
      | MSG_ARG \<Rightarrow> msg_arg_line i arg ps authSet w
      | _ \<Rightarrow> GotoParseErr ps w)"

lemmas arg_line_defs = arg_line_def sub_line_def unsub_line_def info_line_def err_line_def connect_line_def
  pub_arg_line_def msg_arg_line_def line_done_def

definition arg_byte :: "penv \<Rightarrow> nat \<Rightarrow> bytes \<Rightarrow> int \<Rightarrow> char \<Rightarrow> parseState \<Rightarrow> bool \<Rightarrow> server \<Rightarrow> step_res" where
  "arg_byte E me buf i b ps authSet w =
     (if b = CR then Go i (ps\<lparr>ps_drop := 1\<rparr>) authSet w
      else if b = LF then
        (case (case ps_argBuf ps of Some a \<Rightarrow> Some a | None \<Rightarrow> slice buf (ps_as ps) (i - ps_drop ps)) of
           None \<Rightarrow> Panicked
         | Some arg \<Rightarrow> arg_line E me i arg ps authSet w)
      else Go i (ps\<lparr>ps_argBuf := map_option (\<lambda>a. a @ [b]) (ps_argBuf ps)\<rparr>) authSet w)"

definition payload_byte :: "bytes \<Rightarrow> int \<Rightarrow> char \<Rightarrow> parseState \<Rightarrow> bool \<Rightarrow> server \<Rightarrow> step_res" where
  "payload_byte buf i b ps authSet w =
     (case ps_msgBuf ps of
        Some m \<Rightarrow>
          let avail = int (length buf) - i;
              want = pa_size (ps_pa ps) - int (length m);
              toCopy = (if avail < want then avail else want);
              (m', j) = (if toCopy > 0 then (m @ take (nat toCopy) (drop (nat i) buf), i + toCopy - 1)
                         else (m @ [b], i));
              s = (if int (length m') \<ge> pa_size (ps_pa ps) then MSG_END else MSG_PAYLOAD)
          in Go j (ps\<lparr>ps_msgBuf := Some m', ps_state := s\<rparr>) authSet w
      | None \<Rightarrow>
          Go i (if i - ps_as ps \<ge> pa_size (ps_pa ps) then ps\<lparr>ps_state := MSG_END\<rparr> else ps) authSet w)"

definition end_byte :: "penv \<Rightarrow> nat \<Rightarrow> bytes \<Rightarrow> int \<Rightarrow> char \<Rightarrow> parseState \<Rightarrow> bool \<Rightarrow> server \<Rightarrow> step_res" where
  "end_byte E me buf i b ps authSet w =
     (if b = LF then
        (case (case ps_msgBuf ps of Some m \<Rightarrow> Some (m @ [b]) | None \<Rightarrow> slice buf (ps_as ps) (i + 1)) of
           None \<Rightarrow> Panicked
         | Some msg \<Rightarrow>
             if int (length msg) \<noteq> wrap64 (pa_size (ps_pa ps) + LEN_CR_LF)
             then GotoParseErr (ps\<lparr>ps_msgBuf := Some msg\<rparr>) w
             else Go i (ps\<lparr>ps_argBuf := None, ps_msgBuf := None, ps_drop := 0, ps_as := i + 1, ps_state := OP_START\<rparr>)
                    authSet (processMsg (the_env E) me (ps_pa ps) msg w))
      else Go i (ps\<lparr>ps_msgBuf := map_option (\<lambda>m. m @ [b]) (ps_msgBuf ps)\<rparr>) authSet w)"

definition byte_step :: "penv \<Rightarrow> nat \<Rightarrow> bytes \<Rightarrow> int \<Rightarrow> char \<Rightarrow> parseState \<Rightarrow> bool \<Rightarrow> server \<Rightarrow> step_res" where
  "byte_step E me buf i b ps authSet w =
     (let s = ps_state ps;
          next = (\<lambda>r. case r of Some s' \<Rightarrow> Go i (ps\<lparr>ps_state := s'\<rparr>) authSet w | None \<Rightarrow> GotoParseErr ps w)
      in if s = OP_START then
           if b \<noteq> CHR ''C'' \<and> b \<noteq> CHR ''c'' \<and> authSet then GotoAuthErr ps w
           else next (start_state (ctyp (the_client me w) = CLIENT) b)
         else if s = OP_PING then
           if b = LF then Go i (ps\<lparr>ps_drop := 0, ps_state := OP_START\<rparr>) authSet (processPing me w)
           else Go i ps authSet w
         else if s = OP_PONG then
           if b = LF then Go i (ps\<lparr>ps_drop := 0, ps_state := OP_START\<rparr>) authSet (processPong me w)
           else Go i ps authSet w
         else if s = OP_PLUS_OK then
           if b = LF then Go i (ps\<lparr>ps_drop := 0, ps_state := OP_START\<rparr>) authSet w
           else Go i ps authSet w
         else if s = MSG_PAYLOAD then payload_byte buf i b ps authSet w
         else if s = MSG_END then end_byte E me buf i b ps authSet w
         else if is_arg s then arg_byte E me buf i b ps authSet w
         else case arg_after s of
           Some s' \<Rightarrow> if is_blank b then Go i ps authSet w
                      else Go i (ps\<lparr>ps_state := s', ps_as := i\<rparr>) authSet w
         | None \<Rightarrow> (case letter s of Some f \<Rightarrow> next (f b) | None \<Rightarrow> GotoParseErr ps w))"

section \<open>The size that the handlers accept\<close>

lemma processPub_size: "processPub me arg pa w = (None, pa', w') \<Longrightarrow> 0 \<le> pa_size pa'"
  by (auto simp: processPub_def Let_def split: option.splits if_splits)

lemma processMsgArgs_size: "processMsgArgs arg pa = (None, pa') \<Longrightarrow> 0 \<le> pa_size pa'"
  by (auto simp: processMsgArgs_def split: option.splits if_splits)

section \<open>The loop over a read\<close>

definition loop_measure :: "bytes \<Rightarrow> int \<Rightarrow> parseState \<Rightarrow> nat" where
  "loop_measure buf i ps = nat (2 * (int (length buf) - i) + (if ps_state ps = PUB_ARG then 1 else 0))"

lemma jump_Go: "jump j ps a w = Go i' ps' a' w' \<longleftrightarrow> j + 1 < 2 ^ 63 \<and> i' = j \<and> ps' = ps \<and> a' = a \<and> w' = w"
  by (auto simp: jump_def)

lemma arg_line_progress:
  assumes "arg_line E me i arg ps a w = Go i' ps' a' w'"
  shows "i \<le> i' \<or> (ps_state ps = PUB_ARG \<and> ps_state ps' = MSG_PAYLOAD \<and> i \<le> i' + 1)"
proof (cases "ps_state ps = PUB_ARG")
  case True
  obtain e pa v where p: "processPub me arg (ps_pa ps) w = (e, pa, v)" by (metis prod_cases3)
  show ?thesis
  proof (cases e)
    case None
    with p have "0 \<le> pa_size pa" by (auto dest: processPub_size)
    with assms True p None show ?thesis
      by (auto simp: arg_line_defs Let_def jump_Go LEN_CR_LF_def split: if_splits)
  next
    case (Some x)
    with assms True p show ?thesis by (simp add: arg_line_defs)
  qed
next
  case False
  have "i \<le> i'"
  proof (cases "ps_state ps = MSG_ARG")
    case True
    obtain e pa where p: "processMsgArgs arg (ps_pa ps) = (e, pa)" by fastforce
    show ?thesis
    proof (cases e)
      case None
      with p have "0 \<le> pa_size pa" by (auto dest: processMsgArgs_size)
      with assms True p None show ?thesis by (auto simp: arg_line_defs Let_def jump_Go split: if_splits)
    next
      case (Some x)
      with assms True p show ?thesis by (simp add: arg_line_defs)
    qed
  next
    case F2: False
    show ?thesis
      using assms False F2 by (cases "ps_state ps") (auto simp: arg_line_defs Let_def split: prod.splits option.splits)
  qed
  then show ?thesis ..
qed

lemma byte_step_progress:
  assumes "byte_step E me buf i b ps a w = Go i' ps' a' w'" "0 \<le> i" "i < int (length buf)"
  shows "i \<le> i' \<or> (ps_state ps = PUB_ARG \<and> ps_state ps' = MSG_PAYLOAD \<and> i \<le> i' + 1)"
proof -
  have pay: "i \<le> i'" if "payload_byte buf i b ps a w = Go i' ps' a' w'"
    using that assms(2,3) by (auto simp: payload_byte_def Let_def split: option.splits if_splits prod.splits)
  have en: "i \<le> i'" if "end_byte E me buf i b ps a w = Go i' ps' a' w'"
    using that by (auto simp: end_byte_def split: option.splits if_splits)
  have ar: ?thesis if "arg_byte E me buf i b ps a w = Go i' ps' a' w'"
  proof (cases "b = LF \<and> b \<noteq> CR")
    case True
    with that obtain arg where "arg_line E me i arg ps a w = Go i' ps' a' w'"
      by (auto simp: arg_byte_def split: option.splits if_splits)
    then show ?thesis by (rule arg_line_progress)
  next
    case False
    with that show ?thesis by (auto simp: arg_byte_def split: if_splits)
  qed
  show ?thesis
    using assms(1) pay en ar unfolding byte_step_def Let_def by (auto split: if_splits option.splits)
qed

datatype loop_out =
    Done int parseState server
  | OutParseErr int parseState server
  | OutAuthErr parseState server
  | OutReturn perr parseState server
  | OutPanic

function parse_loop :: "penv \<Rightarrow> nat \<Rightarrow> bytes \<Rightarrow> int \<Rightarrow> parseState \<Rightarrow> bool \<Rightarrow> server \<Rightarrow> loop_out" where
  "parse_loop E me buf i ps authSet w =
     (if i < int (length buf) then
        if i < 0 then OutPanic
        else case byte_step E me buf i (buf ! nat i) ps authSet w of
          Go i' ps' a' w' \<Rightarrow> parse_loop E me buf (i' + 1) ps' a' w'
        | GotoParseErr ps' w' \<Rightarrow> OutParseErr i ps' w'
        | GotoAuthErr ps' w' \<Rightarrow> OutAuthErr ps' w'
        | Return x ps' w' \<Rightarrow> OutReturn x ps' w'
        | Panicked \<Rightarrow> OutPanic
      else Done i ps w)"
  by pat_completeness auto
termination
proof (relation "measure (\<lambda>(E, me, buf, i, ps, a, w). loop_measure buf i ps)")
  fix E me buf i ps authSet w i' ps' a' w'
  assume "i < int (length buf)" "\<not> i < 0" "byte_step E me buf i (buf ! nat i) ps authSet w = Go i' ps' a' w'"
  then show "((E, me, buf, i' + 1, ps', a', w'), E, me, buf, i, ps, authSet, w)
      \<in> measure (\<lambda>(E, me, buf, i, ps, a, w). loop_measure buf i ps)"
    using byte_step_progress [of E me buf i "buf ! nat i" ps authSet w i' ps' a' w']
    by (auto simp: loop_measure_def)
qed simp

declare parse_loop.simps [simp del]

text \<open>The end of a read inside an argument or a payload.\<close>

definition clonePubArg :: "parseState \<Rightarrow> parseState" where
  "clonePubArg ps =
     (let pa = ps_pa ps;
          rep = opt_bytes (pa_reply pa)
      in ps\<lparr>ps_argBuf := Some (pa_subject pa @ rep @ pa_sid pa @ pa_szb pa)\<rparr>)"

datatype parse_res = ParseOk | ParseErr perr | ParsePanic

definition typeString :: "client \<Rightarrow> bytes" where
  "typeString c = (case ctyp c of CLIENT \<Rightarrow> ''Client'' | ROUTER \<Rightarrow> ''Router'' | INTERNALCLI \<Rightarrow> ''Unknown Type'')"

definition protoSnippet :: "(bytes \<Rightarrow> bytes) \<Rightarrow> int \<Rightarrow> bytes \<Rightarrow> bytes option" where
  "protoSnippet quote start buf =
     (let stop = start + PROTO_SNIPPET_SIZE;
          bufSize = int (length buf);
          stop' = (if stop > bufSize then bufSize - 1 else stop)
      in if start \<ge> bufSize then Some [CHR 0x22, CHR 0x22] else map_option quote (slice buf start stop'))"

text \<open>The text of the error leaves out the numbers of the state and of the index.\<close>

definition parse_error :: "penv \<Rightarrow> nat \<Rightarrow> bytes \<Rightarrow> int \<Rightarrow> parseState \<Rightarrow> server \<Rightarrow> parse_res \<times> parseState \<times> server" where
  "parse_error E me buf i ps w =
     (let w' = upd_client me (sendErr ''Unknown Protocol Operation'') w
      in case protoSnippet (e_quote E) i buf of
        None \<Rightarrow> (ParsePanic, ps, w')
      | Some snip \<Rightarrow> (ParseErr (ErrText (typeString (the_client me w') @ '' Parser ERROR: '' @ snip)), ps, w'))"

definition save_msg :: "penv \<Rightarrow> nat \<Rightarrow> bytes \<Rightarrow> int \<Rightarrow> parseState \<Rightarrow> server \<Rightarrow> parse_res \<times> parseState \<times> server" where
  "save_msg E me buf i ps0 w =
     (let ps = (if ps_argBuf ps0 = None then clonePubArg ps0 else ps0) in
      case slice buf (ps_as ps) (int (length buf)) of
        None \<Rightarrow> (ParsePanic, ps, w)
      | Some rest \<Rightarrow>
          if pa_size (ps_pa ps) > MAX_CONTROL_LINE_SIZE - int (length (opt_bytes (ps_argBuf ps))) \<and>
             int (length rest) > wrap64 (pa_size (ps_pa ps) + LEN_CR_LF)
          then parse_error E me buf i ps w
          else (ParseOk, ps\<lparr>ps_msgBuf := Some rest\<rparr>, w))"

definition split_buffer :: "penv \<Rightarrow> nat \<Rightarrow> bytes \<Rightarrow> int \<Rightarrow> parseState \<Rightarrow> server \<Rightarrow> parse_res \<times> parseState \<times> server" where
  "split_buffer E me buf i ps w =
     (if is_arg (ps_state ps) then
        (case (case ps_argBuf ps of Some a \<Rightarrow> Some a | None \<Rightarrow> slice buf (ps_as ps) (i - ps_drop ps)) of
           None \<Rightarrow> (ParsePanic, ps, w)
         | Some a \<Rightarrow>
             let ps' = ps\<lparr>ps_argBuf := Some a\<rparr> in
             if int (length a) > e_mcl E then
               (ParseErr ErrMaxControlLine, ps', closeConnection me (upd_client me (sendErr ''Maximum Control Line Exceeded'') w))
             else (ParseOk, ps', w))
      else if (ps_state ps = MSG_PAYLOAD \<or> ps_state ps = MSG_END) \<and> ps_msgBuf ps = None then save_msg E me buf i ps w
      else (ParseOk, ps, w))"

definition parse :: "penv \<Rightarrow> nat \<Rightarrow> bytes \<Rightarrow> parseState \<Rightarrow> server \<Rightarrow> parse_res \<times> parseState \<times> server" where
  "parse E me buf ps w =
     (case parse_loop E me buf 0 ps (isAuthTimerSet me w) w of
        Done i ps' w' \<Rightarrow> split_buffer E me buf i ps' w'
      | OutParseErr i ps' w' \<Rightarrow> parse_error E me buf i ps' w'
      | OutAuthErr ps' w' \<Rightarrow> (ParseErr ErrAuthorization, ps', authViolation me w')
      | OutReturn x ps' w' \<Rightarrow> (ParseErr x, ps', w')
      | OutPanic \<Rightarrow> (ParsePanic, ps, w))"

section \<open>The read loop\<close>

definition startBufSize :: nat where "startBufSize = 512"
definition minBufSize :: nat where "minBufSize = 128"
definition maxBufSize :: nat where "maxBufSize = 65536"

definition resize :: "nat \<Rightarrow> nat \<Rightarrow> nat" where
  "resize n len =
     (let len1 = (if n = len \<and> len < maxBufSize then len * 2 else len)
      in if n < len1 div 2 \<and> len1 > minBufSize then len1 div 2 else len1)"

text \<open>Flushing one client that has output pending.\<close>

definition flush_pending :: "nat \<Rightarrow> server \<Rightarrow> server" where
  "flush_pending d w =
     (let c = the_client d w in
      if nc c = None then w
      else
        let (e, c1) = bw_flush c;
            w1 = w\<lparr>heap := (heap w)(d \<mapsto> c1)\<rparr>
        in if e \<noteq> WOk then closeConnection d w1 else w1)"

definition reset_cache :: "client \<Rightarrow> client" where
  "reset_cache c = c\<lparr>rcache := (rcache c)\<lparr>rc_inMsgs := 0, rc_inBytes := 0, rc_subs := 0\<rparr>\<rparr>"

definition add_stats :: "nat \<Rightarrow> server \<Rightarrow> server" where
  "add_stats me w =
     (let rc = rcache (the_client me w);
          w1 = upd_client me (\<lambda>c. c\<lparr>inMsgs := wrap64 (inMsgs c + rc_inMsgs rc), inBytes := wrap64 (inBytes c + rc_inBytes rc)\<rparr>) w
      in w1\<lparr>sInMsgs := wrap64 (sInMsgs w1 + rc_inMsgs rc), sInBytes := wrap64 (sInBytes w1 + rc_inBytes rc)\<rparr>)"

text \<open>
  One turn of the read loop: \<open>None\<close> is an error of the read. The first result tells whether
  the loop goes on.
\<close>

definition read_turn :: "penv \<Rightarrow> nat \<Rightarrow> bytes option \<Rightarrow> parseState \<Rightarrow> server \<Rightarrow> bool \<times> parse_res \<times> parseState \<times> server" where
  "read_turn E me input ps w =
     (case input of
        None \<Rightarrow> (False, ParseOk, ps, closeConnection me w)
      | Some buf \<Rightarrow>
          (case parse E me buf ps (upd_client me reset_cache w) of
             (ParsePanic, ps', w') \<Rightarrow> (False, ParsePanic, ps', w')
           | (ParseErr x, ps', w') \<Rightarrow>
               (False, ParseErr x, ps',
                if x \<noteq> ErrMaxPayload \<and> x \<noteq> ErrAuthorization
                then closeConnection me (upd_client me (sendErr ''Parser Error'') w') else w')
           | (ParseOk, ps', w') \<Rightarrow>
               let w1 = add_stats me w';
                   w2 = fold flush_pending (pcd (the_client me w1)) w1;
                   w3 = upd_client me (\<lambda>c. c\<lparr>pcd := []\<rparr>) w2
               in (nc (the_client me w3) \<noteq> None, ParseOk, ps', w3)))"

fun readLoop :: "penv \<Rightarrow> nat \<Rightarrow> bytes option list \<Rightarrow> parseState \<Rightarrow> server \<Rightarrow> parse_res \<times> parseState \<times> server" where
  "readLoop E me [] ps w = (ParseOk, ps, w)"
| "readLoop E me (r # rs) ps w =
     (case read_turn E me r ps w of
        (True, x, ps', w') \<Rightarrow> readLoop E me rs ps' w'
      | (False, x, ps', w') \<Rightarrow> (x, ps', w'))"

end
