(* ===== verification/Parser_Keeps.thy ===== *)
theory Parser_Keeps
  imports Parser Server_Inv
begin

text \<open>
  What the parser relies on of the handlers it calls: none of them changes the kind of a
  connection or its limit on payloads, and none sets an authorization timer.
\<close>

definition mrel :: "client \<Rightarrow> client \<Rightarrow> bool" where
  "mrel c c' \<longleftrightarrow> mpay c' = mpay c \<and> ctyp c' = ctyp c \<and> (atmr c' \<longrightarrow> atmr c)"

definition mkeeps :: "server \<Rightarrow> server \<Rightarrow> bool" where
  "mkeeps w w' \<longleftrightarrow> (\<forall>i c. heap w i = Some c \<longrightarrow> (\<exists>c'. heap w' i = Some c' \<and> mrel c c'))"

lemma mrel_refl [simp]: "mrel c c"
  by (simp add: mrel_def)

lemma mrel_trans: "mrel a b \<Longrightarrow> mrel b c \<Longrightarrow> mrel a c"
  by (simp add: mrel_def)

lemma mkeeps_refl [simp]: "mkeeps w w"
  by (simp add: mkeeps_def)

lemma mkeeps_trans: "mkeeps a b \<Longrightarrow> mkeeps b c \<Longrightarrow> mkeeps a c"
  unfolding mkeeps_def by (metis mrel_trans)

lemma mkeeps_upd: "(\<And>c. mrel c (f c)) \<Longrightarrow> mkeeps w (upd_client i f w)"
  by (auto simp: mkeeps_def heap_upd_client)

lemma mkeeps_put: "heap w i = Some c \<Longrightarrow> mrel c c' \<Longrightarrow> mkeeps w (w\<lparr>heap := (heap w)(i \<mapsto> c')\<rparr>)"
  by (auto simp: mkeeps_def)

lemma mkeeps_heap: "heap w' = heap w \<Longrightarrow> mkeeps w w'"
  by (simp add: mkeeps_def)

lemma mkeeps_if: "mkeeps w a \<Longrightarrow> mkeeps w b \<Longrightarrow> mkeeps w (if P then a else b)"
  by simp

lemma mkeeps_fold: "(\<And>x w. mkeeps w (f x w)) \<Longrightarrow> mkeeps w (fold f xs w)"
  by (induction xs arbitrary: w) (auto intro: mkeeps_trans)

section \<open>Writing\<close>

lemma bw_mrel: "mrel c (snd (bw_write b c))" "mrel c (snd (bw_flush c))"
  by (auto simp: bw_write_def bw_flush_def mrel_def Let_def split: option.split prod.split)

lemma sendProto_mrel: "mrel c (snd (sendProto b f c))"
proof -
  obtain e c1 where w: "bw_write b c = (e, c1)" by fastforce
  then have "mrel c c1" using bw_mrel(1) [of c b] by simp
  then show ?thesis using w bw_mrel(2) [of c1] mrel_trans by (auto simp: sendProto_def)
qed

lemma send_mrel: "mrel c (sendInfo b c)" "mrel c (sendErr e c)" "mrel c (sendOK c)" "mrel c (clearConnection c)"
  using sendProto_mrel by (auto simp: sendInfo_def sendErr_def sendOK_def Let_def mrel_def clearConnection_def split: option.split)

lemma mkeeps_broadcast: "mkeeps w (broadcastSubscribe s w)" "mkeeps w (broadcastUnSubscribe s w)"
proof -
  have "mkeeps w (broadcastInterestToRoutes p w)" for p
    unfolding broadcastInterestToRoutes_def by (rule mkeeps_fold, rule mkeeps_upd, rule sendProto_mrel)
  then show "mkeeps w (broadcastSubscribe s w)" "mkeeps w (broadcastUnSubscribe s w)"
    by (simp_all add: broadcastSubscribe_def broadcastUnSubscribe_def)
qed

section \<open>Closing\<close>

lemma mkeeps_closeConnection: "mkeeps w (closeConnection d w)"
proof -
  let ?w1 = "upd_client d (\<lambda>c. c\<lparr>atmr := False, ptmr := False, nc := None\<rparr>) w"
  have 1: "mkeeps w ?w1" by (rule mkeeps_upd) (simp add: mrel_def)
  have 2: "mkeeps v (removeClient i v)" for i v by (rule mkeeps_heap) (simp add: removeClient_sel)
  have 3: "mkeeps v (fold (\<lambda>sub w. if r then broadcastUnSubscribe sub (remove_sub sub w) else remove_sub sub w) ss v)" for r ss v
  proof (rule mkeeps_fold)
    fix sub v
    have r: "mkeeps v (remove_sub sub v)" by (rule mkeeps_heap) (simp add: remove_sub_def)
    show "mkeeps v (if r then broadcastUnSubscribe sub (remove_sub sub v) else remove_sub sub v)"
      by (rule mkeeps_if [OF mkeeps_trans [OF r mkeeps_broadcast(2)] r])
  qed
  have 4: "mkeeps v (reconnect c v)" for c v
    by (rule mkeeps_heap) (simp add: reconnect_def Let_def split: option.split)
  show ?thesis unfolding closeConnection_def Let_def
    by (rule mkeeps_if [OF mkeeps_refl mkeeps_trans [OF mkeeps_trans [OF mkeeps_trans [OF 1 2] 3] 4]])
qed

lemma mkeeps_close_err: "mkeeps w (closeConnection d (upd_client d (sendErr e) w))"
  by (rule mkeeps_trans [OF mkeeps_upd mkeeps_closeConnection]) (rule send_mrel)

section \<open>Subscriptions\<close>

lemma mkeeps_unsubscribe: "mkeeps w (unsubscribe d sub w)"
proof -
  have "mkeeps w (upd_client d (\<lambda>c. c\<lparr>subs := AList.delete (sub_sid sub) (subs c)\<rparr>) w)"
    by (rule mkeeps_upd) (simp add: mrel_def)
  then show ?thesis by (simp add: unsubscribe_def Let_def remove_sub_def mkeeps_def)
qed

lemma mkeeps_processUnsub: "mkeeps w (snd (processUnsub me arg w))"
proof -
  let ?w1 = "upd_client me (\<lambda>c. c\<lparr>rcache := rcache c\<lparr>rc_subs := rc_subs (rcache c) + 1\<rparr>\<rparr>) w"
  have 1: "mkeeps w ?w1" by (rule mkeeps_upd) (simp add: mrel_def)
  have 2: "mkeeps v (apply_unsub me f m sub v)" for f m sub v
  proof -
    let ?v = "v\<lparr>smax := (smax v)(sub_ptr sub := (if m > 0 then m else 0))\<rparr>"
    have u: "mkeeps v (unsubscribe me sub ?v)"
      by (rule mkeeps_trans [OF mkeeps_heap mkeeps_unsubscribe]) simp
    show ?thesis unfolding apply_unsub_def Let_def
      by (rule mkeeps_if [OF mkeeps_trans [OF u mkeeps_broadcast(2)] u])
  qed
  have 3: "mkeeps w (case r of None \<Rightarrow> ?w1 | Some sub \<Rightarrow> apply_unsub me f m sub ?w1)" for r f m
    using 1 mkeeps_trans [OF 1 2] by (simp split: option.split)
  have 4: "mkeeps w (if v then upd_client me sendOK (case r of None \<Rightarrow> ?w1 | Some sub \<Rightarrow> apply_unsub me f m sub ?w1)
      else (case r of None \<Rightarrow> ?w1 | Some sub \<Rightarrow> apply_unsub me f m sub ?w1))" for v r f m
    by (rule mkeeps_if [OF mkeeps_trans [OF 3 mkeeps_upd] 3]) (rule send_mrel)
  show ?thesis unfolding processUnsub_def Let_def using 4 by simp
qed

lemma register_sub_mkeeps: "mkeeps w (snd (snd (register_sub me sub w)))"
proof -
  have "mkeeps w (upd_client me (\<lambda>c. c\<lparr>subs := AList.update (sub_sid sub) sub (subs c)\<rparr>) (w\<lparr>sl := l\<rparr>))" for l
    by (rule mkeeps_trans [OF mkeeps_heap mkeeps_upd]) (simp_all add: mrel_def)
  moreover have "mkeeps w (w\<lparr>sl := l\<rparr>)" for l by (rule mkeeps_heap) simp
  ultimately show ?thesis by (auto simp: register_sub_def Let_def split: option.split prod.split)
qed

lemma mkeeps_send:
  assumes "mkeeps w v"
  shows "mkeeps w (upd_client me (sendErr m) v)" "mkeeps w (upd_client me sendOK v)" "mkeeps w (upd_client me (sendInfo b) v)"
  by (rule mkeeps_trans [OF assms mkeeps_upd], rule send_mrel)+

lemma mkeeps_processSub:
  assumes "heap w0 me = Some c0"
  shows "mkeeps w0 (snd (processSub E me arg w0))"
proof -
  define f :: "client \<Rightarrow> client" where "f = (\<lambda>c. c\<lparr>rcache := rcache c\<lparr>rc_subs := rc_subs (rcache c) + 1\<rparr>\<rparr>)"
  define w where "w = upd_client me f w0"
  define w1 where "w1 = w\<lparr>next_ptr := next_ptr w + 1, nm := (nm w)(next_ptr w := 0), smax := (smax w)(next_ptr w := 0)\<rparr>"
  have 0: "mkeeps w0 w" unfolding w_def by (rule mkeeps_upd) (simp add: mrel_def f_def)
  then have 1: "mkeeps w0 w1" by (simp add: mkeeps_def w1_def)
  have h: "heap w1 me = Some (f c0)" using assms by (simp add: heap_upd_client w1_def w_def)
  then have tc: "the_client me w1 = f c0" by (simp add: the_client_def)
  show ?thesis
  proof (cases "parse_sub me (next_ptr w) arg")
    case None
    then show ?thesis using 0 by (simp add: processSub_def Let_def flip: f_def w_def)
  next
    case (Some sub)
    obtain al c1 where a: "sub_allowed E (sub_subject sub) (f c0) = (al, c1)" by fastforce
    then have m: "mrel (f c0) c1" by (auto simp: sub_allowed_def mrel_def Let_def split: option.splits prod.splits)
    define w2 where "w2 = w1\<lparr>heap := (heap w1)(me \<mapsto> c1)\<rparr>"
    have 2: "mkeeps w0 w2" unfolding w2_def by (rule mkeeps_trans [OF 1 mkeeps_put [OF h m]])
    obtain err fwd w3 where r: "register_sub me sub w2 = (err, fwd, w3)" by (metis prod_cases3)
    have 3: "mkeeps w0 w3" using mkeeps_trans [OF 2 register_sub_mkeeps [of w2 me sub]] r by simp
    define w4 where "w4 = (if Verbose (copts c1) then upd_client me sendOK w3 else w3)"
    have 4: "mkeeps w0 w4" unfolding w4_def by (rule mkeeps_if [OF mkeeps_send(2) [OF 3] 3])
    have "snd (processSub E me arg w0) =
        (if nc (f c0) = None then w1
         else if \<not> al then upd_client me (sendErr (''Permissions Violation for Subscription to '' @ e_quote E (sub_subject sub))) w2
         else if err \<noteq> None then upd_client me (sendErr ''Invalid Subject'') w3
         else if fwd then broadcastSubscribe sub w4 else w4)"
      unfolding processSub_def Let_def f_def [symmetric] w_def [symmetric] Some option.case w1_def [symmetric] tc a
        prod.case w2_def [symmetric] r w4_def [symmetric] by (simp only: if_distrib [of snd] snd_conv)
    then show ?thesis
      using 1 mkeeps_send(1) [OF 2] mkeeps_send(1) [OF 3] 4 mkeeps_trans [OF 4 mkeeps_broadcast(1)]
      by (simp only: mkeeps_if)
  qed
qed

section \<open>Publishing and delivering\<close>

lemma mkeeps_deliver_body: "mkeeps w (deliver_body me d mh msg w)"
proof -
  define c where "c = the_client d w"
  define m where "m = int (length msg) - LEN_CR_LF"
  define c1 where "c1 = c\<lparr>outMsgs := wrap64 (outMsgs c + 1), outBytes := wrap64 (outBytes c + m)\<rparr>"
  define w1 where "w1 = w\<lparr>sOutMsgs := wrap64 (sOutMsgs w + 1), sOutBytes := wrap64 (sOutBytes w + m)\<rparr>"
  obtain e1 c2 where b1: "bw_write mh c1 = (e1, c2)" by fastforce
  obtain e c3 where b2: "(if e1 \<noteq> WOk then (e1, c2) else bw_write msg c2) = (e, c3)" by fastforce
  have "mrel c1 c2" "mrel c2 c3" using bw_mrel(1) [of c1 mh] bw_mrel(1) [of c2 msg] b1 b2 by (auto split: if_splits)
  then have r: "mrel c c3" by (auto simp: mrel_def c1_def)
  let ?w2 = "w1\<lparr>heap := (heap w1)(d \<mapsto> c3)\<rparr>"
  have 2: "mkeeps w ?w2" using r by (auto simp: mkeeps_def w1_def c_def the_client_def)
  have 3: "mkeeps w (closeConnection d (?w2\<lparr>slowConsumers := n\<rparr>))" for n
    by (rule mkeeps_trans [OF mkeeps_trans [OF 2 mkeeps_heap] mkeeps_closeConnection]) simp
  have 4: "mkeeps w (upd_client me (\<lambda>c. c\<lparr>pcd := List.insert d (pcd c)\<rparr>) ?w2)"
    by (rule mkeeps_trans [OF 2 mkeeps_upd]) (simp add: mrel_def)
  have eq: "deliver_body me d mh msg w = (if nc c = None then w else
      case e of WOk \<Rightarrow> upd_client me (\<lambda>c. c\<lparr>pcd := List.insert d (pcd c)\<rparr>) ?w2
        | WTimeout \<Rightarrow> closeConnection d (?w2\<lparr>slowConsumers := wrap64 (slowConsumers ?w2 + 1)\<rparr>)
        | WErr \<Rightarrow> ?w2)"
    unfolding deliver_body_def Let_def c_def [symmetric] m_def [symmetric] c1_def [symmetric] w1_def [symmetric] b1 prod.case b2 ..
  show ?thesis unfolding eq using 2 3 4 by (cases e) simp_all
qed

lemma mkeeps_drop_sub: "mkeeps w (drop_sub d f sub w)"
  unfolding drop_sub_def Let_def
  by (rule mkeeps_if [OF mkeeps_trans [OF mkeeps_unsubscribe mkeeps_broadcast(2)] mkeeps_unsubscribe])

lemma mkeeps_dom: "mkeeps w w' \<Longrightarrow> heap w i \<noteq> None \<Longrightarrow> heap w' i \<noteq> None"
  by (auto simp: mkeeps_def)

lemma mkeeps_deliverMsg: "mkeeps w (deliverMsg me sub mh msg w)"
proof (cases "sub_client sub")
  case None
  then show ?thesis by (simp add: deliverMsg_def)
next
  case (Some d)
  let ?w1 = "w\<lparr>nm := (nm w)(sub_ptr sub := wrap64 (nm w (sub_ptr sub) + 1))\<rparr>"
  have 1: "mkeeps w ?w1" by (rule mkeeps_heap) simp
  have 2: "mkeeps w (deliver_body me d mh msg ?w1)"
    by (rule mkeeps_trans [OF 1 mkeeps_deliver_body])
  show ?thesis
    unfolding deliverMsg_def Let_def Some option.case
    by (intro mkeeps_if 2 mkeeps_trans [OF 2 mkeeps_drop_sub] mkeeps_trans [OF 1 mkeeps_drop_sub])
qed

lemma mkeeps_deliver_plain: "mkeeps w (deliver_plain me isRoute pa mh msg rmap ss w)"
proof (induction ss arbitrary: rmap w)
  case (Cons s ss)
  obtain ok r' where "send_to isRoute rmap (the_client (sub_cid s) w) = (ok, r')" by fastforce
  then show ?case
    using mkeeps_trans [OF mkeeps_deliverMsg Cons.IH] Cons.IH by simp
qed simp

lemma mkeeps_deliver_queues: "mkeeps w (deliver_queues E me pa mh msg n qs w)"
proof (induction qs arbitrary: n w)
  case (Cons q qs)
  show ?case using mkeeps_trans [OF mkeeps_deliverMsg Cons.IH] by (simp add: Let_def)
qed simp

lemma mkeeps_deliver_all: "mkeeps w (deliver_all E me pa msg r w)"
  unfolding deliver_all_def Let_def
  using mkeeps_deliverMsg mkeeps_deliver_plain mkeeps_trans [OF mkeeps_deliver_plain mkeeps_deliver_queues]
  by (auto split: prod.split option.split bool.split)

lemma cached_match_mkeeps:
  assumes "heap w me = Some c"
  shows "mkeeps w (snd (cached_match E me k w))"
proof -
  have m: "mkeeps w (w\<lparr>sl := l, heap := (heap w)(me \<mapsto> c\<lparr>rcache := x\<rparr>)\<rparr>)" for l x
    using assms by (auto simp: mkeeps_def mrel_def)
  have n: "mkeeps w (w\<lparr>heap := (heap w)(me \<mapsto> c\<lparr>rcache := x\<rparr>)\<rparr>)" for x
    using assms by (auto simp: mkeeps_def mrel_def)
  have tc: "the_client me w = c" using assms by (simp add: the_client_def)
  obtain r l where ma: "Match (e_ev E) k (sl w) = (r, l)" by fastforce
  show ?thesis unfolding cached_match_def Let_def tc ma using m n n [of "rcache c", simplified]
    by (simp split: option.split)
qed

lemma mkeeps_processMsg:
  assumes "heap w0 me = Some c0"
  shows "mkeeps w0 (processMsg E me pa msg w0)"
proof -
  define w where "w = upd_client me (count_in msg) w0"
  have 0: "mkeeps w0 w" unfolding w_def by (rule mkeeps_upd) (simp add: mrel_def count_in_def)
  have h: "heap w me = Some (count_in msg c0)" using assms by (simp add: heap_upd_client w_def)
  then have tc: "the_client me w = count_in msg c0" by (simp add: the_client_def)
  obtain al c1 where a: "pub_allowed E (pa_subject pa) (count_in msg c0) = (al, c1)" by fastforce
  then have m: "mrel (count_in msg c0) c1"
    by (auto simp: pub_allowed_def mrel_def Let_def split: option.splits prod.splits if_splits)
  define w1 where "w1 = w\<lparr>heap := (heap w)(me \<mapsto> c1)\<rparr>"
  have 1: "mkeeps w0 w1" unfolding w1_def by (rule mkeeps_trans [OF 0 mkeeps_put [OF h m]])
  define w2 where "w2 = (if Verbose (copts c1) then upd_client me sendOK w1 else w1)"
  have 2: "mkeeps w0 w2" unfolding w2_def by (rule mkeeps_if [OF mkeeps_send(2) [OF 1] 1])
  then obtain c2 where h2: "heap w2 me = Some c2" using assms by (auto simp: mkeeps_def)
  obtain r w3 where cm: "cached_match E me (pa_subject pa) w2 = (r, w3)" by fastforce
  have 3: "mkeeps w0 w3" using mkeeps_trans [OF 2 cached_match_mkeeps [OF h2, of E "pa_subject pa"]] cm by simp
  have "processMsg E me pa msg w0 =
      (if is_reserved (pa_subject pa) then pubPermissionViolation E me (pa_subject pa) w
       else if \<not> al then pubPermissionViolation E me (pa_subject pa) w1
       else if res_psubs r = [] \<and> res_qsubs r = [] then w3
       else if Pedantic (copts c1) \<and> \<not> IsValidLiteralSubject (pa_subject pa) then w3
       else deliver_all E me pa msg r w3)"
    unfolding processMsg_def Let_def w_def [symmetric] tc a prod.case w1_def [symmetric] w2_def [symmetric] cm ..
  then show ?thesis
    using mkeeps_send(1) [OF 0] mkeeps_send(1) [OF 1] 3 mkeeps_trans [OF 3 mkeeps_deliver_all]
    unfolding pubPermissionViolation_def by (simp only: mkeeps_if)
qed

section \<open>The other handlers\<close>

lemma mkeeps_processPub: "mkeeps w (snd (snd (processPub me arg pa w)))"
  using mkeeps_close_err mkeeps_send(1) [OF mkeeps_refl]
  by (auto simp: processPub_def maxPayloadViolation_def Let_def split: option.split)

lemma mkeeps_processPong: "mkeeps w (processPong me w)"
  unfolding processPong_def by (rule mkeeps_upd) (simp add: mrel_def)

lemma mkeeps_processErr: "mkeeps w (processErr me e w)"
  unfolding processErr_def by (rule mkeeps_closeConnection)

lemma mkeeps_processPing:
  assumes "heap w me = Some c"
  shows "mkeeps w (processPing me w)"
proof -
  obtain e c1 where s: "sendProto (''PONG'' @ [CR, LF]) True c = (e, c1)" by fastforce
  then have m: "mrel c c1" using sendProto_mrel [of c "''PONG'' @ [CR, LF]" True] by simp
  define c2 where "c2 = (if e \<noteq> WOk then clearConnection c1 else c1)"
  have m2: "mrel c c2" using mrel_trans [OF m send_mrel(4)] m by (simp add: c2_def)
  obtain fi fl where f: "flag_setIfNotSet (flags c2) firstPongSent = (fi, fl)" by fastforce
  define w1 where "w1 = w\<lparr>heap := (heap w)(me \<mapsto> c2\<lparr>flags := (if fi then flag_clear fl infoUpdated else fl)\<rparr>)\<rparr>"
  have 1: "mkeeps w w1" unfolding w1_def by (rule mkeeps_put [OF assms]) (use m2 in \<open>simp add: mrel_def\<close>)
  have tc: "the_client me w = c" using assms by (simp add: the_client_def)
  have "processPing me w = (if nc c = None then w
      else if fi \<and> Protocol (copts c2) \<ge> ClientProtoInfo \<and> flag_isSet fl infoUpdated then upd_client me (sendInfo (infoJSON w)) w1 else w1)"
    unfolding processPing_def Let_def tc s prod.case c2_def [symmetric] f w1_def [symmetric] ..
  then show ?thesis using 1 mkeeps_send(3) [OF 1] by (simp only: mkeeps_if mkeeps_refl)
qed

lemma mkeeps_route: "mkeeps w (upd_client me (\<lambda>c. c\<lparr>croute := r c\<rparr>) w)"
  by (rule mkeeps_upd) (simp add: mrel_def)

lemma mkeeps_addRoute: "mkeeps w (snd (addRoute i w))"
proof -
  let ?w1 = "\<lambda>id. w\<lparr>grTmpClients := removeAll i (grTmpClients w), routes := List.insert i (routes w),
                     remotes := AList.update id i (remotes w)\<rparr>"
  have 1: "mkeeps w (?w1 id)" for id by (rule mkeeps_heap) simp
  show ?thesis
    unfolding addRoute_def Let_def
    using 1 mkeeps_trans [OF 1 mkeeps_route] mkeeps_trans [OF mkeeps_route mkeeps_route]
    by (simp split: option.split)
qed

lemma mkeeps_async: "mkeeps w (sendAsyncInfoToClients w)"
proof -
  have m: "mrel c (async_info p c)" for p c using send_mrel(1) [of c p] by (simp add: async_info_def mrel_def)
  have "mkeeps v (fold (\<lambda>i. upd_client i (async_info p)) xs v)" for p xs v
    by (rule mkeeps_fold) (rule mkeeps_upd [OF m])
  then show ?thesis by (simp add: sendAsyncInfoToClients_def)
qed

lemma mkeeps_route_added: "mkeeps w (route_added gen fwd me info b w)"
proof -
  let ?w2 = "sendLocalSubsToRoute me w"
  let ?w3 = "if b then forwardNewRouteInfoToKnownServers fwd info ?w2 else ?w2"
  have 2: "mkeeps w ?w2"
    unfolding sendLocalSubsToRoute_def Let_def by (rule mkeeps_upd) (rule sendProto_mrel)
  have "mkeeps v (forwardNewRouteInfoToKnownServers fwd info v)" for v
    unfolding forwardNewRouteInfoToKnownServers_def
    by (rule mkeeps_fold, rule mkeeps_upd) (simp add: send_mrel)
  then have 3: "mkeeps w ?w3" using 2 mkeeps_trans by (intro mkeeps_if) blast+
  have u: "mkeeps v (snd (updateServerINFO gen us v))" for us v
    by (rule mkeeps_heap) (simp add: updateServerINFO_def Let_def)
  have 4: "mkeeps w (snd (updateServerINFO gen us ?w3))" for us by (rule mkeeps_trans [OF 3 u])
  have 5: "mkeeps w (sendAsyncInfoToClients (snd (updateServerINFO gen us ?w3)))" for us
    by (rule mkeeps_trans [OF 4 mkeeps_async])
  show ?thesis unfolding route_added_def Let_def case_prod_beta by (rule mkeeps_if [OF 5 4])
qed

lemma mkeeps_processRouteInfo: "mkeeps w (processRouteInfo lower parseURL gen fwd me info w)"
proof -
  let ?s = "\<lambda>r. upd_client me (\<lambda>c. c\<lparr>croute := Some r\<rparr>) w"
  have cl: "mkeeps w (closeConnection me (?s r))" for r
    by (rule mkeeps_trans [OF mkeeps_route mkeeps_closeConnection])
  have add: "mkeeps w (snd (addRoute me (?s r)))" for r by (rule mkeeps_trans [OF mkeeps_route mkeeps_addRoute])
  have addcl: "mkeeps w (closeConnection me (snd (addRoute me (?s r))))" for r
    by (rule mkeeps_trans [OF add mkeeps_closeConnection])
  have ra: "mkeeps w (route_added gen fwd me info b (snd (addRoute me (?s r))))" for b r
    by (rule mkeeps_trans [OF add mkeeps_route_added])
  have im: "mkeeps w (processImplicitRoute lower parseURL info w)"
    by (rule mkeeps_heap) (simp add: processImplicitRoute_def split: option.split)
  show ?thesis
    unfolding processRouteInfo_def Let_def case_prod_beta
    by (cases "croute (the_client me w)"; cases "nc (the_client me w)"; simp only: fst_conv snd_conv option.case)
      (intro mkeeps_if cl addcl ra im mkeeps_refl)+
qed

lemma mkeeps_processInfo: "mkeeps w (snd (processInfo E me arg w))"
  using mkeeps_processRouteInfo by (simp add: processInfo_def split: option.split)

lemma mkeeps_processConnect:
  assumes "heap w me = Some c0"
  shows "mkeeps w (snd (processConnect E me arg w))"
    and "fst (processConnect E me arg w) = None \<Longrightarrow> \<not> isAuthTimerSet me (snd (processConnect E me arg w))"
proof -
  define c where "c = c0\<lparr>atmr := False\<rparr>"
  define w0 where "w0 = w\<lparr>heap := (heap w)(me \<mapsto> c)\<rparr>"
  have 0: "mkeeps w w0" unfolding w0_def c_def by (rule mkeeps_put [OF assms]) (simp add: mrel_def)
  have h0: "heap w0 me = Some c" "\<not> atmr c" by (simp_all add: w0_def c_def)
  have off: "\<not> isAuthTimerSet me v" if "mkeeps w0 v" for v
    using that h0 unfolding mkeeps_def mrel_def isAuthTimerSet_def the_client_def by fastforce
  have tc: "the_client me w = c0" using assms by (simp add: the_client_def)
  obtain ok0 opts where un: "e_unmarshal E arg (copts c) = (ok0, opts)" by fastforce
  define c1 where "c1 = c\<lparr>copts := opts, flags := flag_set (flags c) connectReceived\<rparr>"
  define w1 where "w1 = w0\<lparr>heap := (heap w0)(me \<mapsto> c1), cproto := (if Protocol opts \<ge> ClientProtoInfo then cproto w0 + 1 else cproto w0)\<rparr>"
  obtain ok c2 where ca: "checkAuth E w1 c1 = (ok, c2)" by fastforce
  have "mrel c1 c2"
    using ca by (auto simp: checkAuth_def check_method_def RegisterUser_def mrel_def Let_def split: ctype.splits option.splits prod.splits)
  then have m2: "mrel c c2" by (simp add: mrel_def c1_def)
  define w2 where "w2 = w1\<lparr>heap := (heap w1)(me \<mapsto> c2)\<rparr>"
  have 2: "mkeeps w0 w2" using h0 m2 by (auto simp: mkeeps_def w2_def w1_def)
  define w3 where "w3 = (if ctyp c2 = ROUTER
      then upd_client me (\<lambda>c. c\<lparr>croute := map_option (\<lambda>r. r\<lparr>remoteID := Name opts\<rparr>) (croute c)\<rparr>) w2 else w2)"
  have 3: "mkeeps w0 w3" unfolding w3_def by (rule mkeeps_if [OF mkeeps_trans [OF 2 mkeeps_route] 2])
  define r where "r = (if \<not> ok then (Some ErrAuthorization, authViolation me w2)
          else if ctyp c2 = CLIENT \<and> (Protocol opts < ClientProtoZero \<or> Protocol opts > ClientProtoInfo) then
            (Some ErrBadClientProtocol, closeConnection me (upd_client me (sendErr ''Invalid Client Protocol'') w2))
          else if ctyp c2 = ROUTER \<and> Lang opts \<noteq> [] then
            (Some ErrClientConnectedToRoutePort, closeConnection me (upd_client me (sendErr ''Attempted To Connect To Route Port'') w2))
          else (None, if Verbose opts then upd_client me sendOK w3 else w3))"
  have eq: "processConnect E me arg w = (if atmr c0 \<and> \<not> e_stopped E then (None, authTimeout me w0)
      else if \<not> ok0 then (Some (ErrText ''json''), w0\<lparr>heap := (heap w0)(me \<mapsto> c\<lparr>copts := opts\<rparr>)\<rparr>) else r)"
    unfolding processConnect_def Let_def tc c_def [symmetric] w0_def [symmetric] un prod.case
      c1_def [symmetric] w1_def [symmetric] ca w2_def [symmetric] w3_def [symmetric] r_def [symmetric]
    by (cases ok0) simp_all
  have t: "mkeeps w0 (authTimeout me w0)" unfolding authTimeout_def by (rule mkeeps_close_err)
  have j: "mkeeps w0 (w0\<lparr>heap := (heap w0)(me \<mapsto> c\<lparr>copts := opts\<rparr>)\<rparr>)"
    by (rule mkeeps_put [OF h0(1)]) (simp add: mrel_def)
  have rr: "mkeeps w0 (snd r)"
    unfolding r_def authViolation_def if_distrib [of snd] snd_conv
    by (intro mkeeps_if mkeeps_trans [OF 2 mkeeps_close_err] mkeeps_send(2) 3)
  have all: "mkeeps w0 (snd (processConnect E me arg w))"
    unfolding eq if_distrib [of snd] snd_conv by (intro mkeeps_if t j rr)
  show "mkeeps w (snd (processConnect E me arg w))" by (rule mkeeps_trans [OF 0 all])
  show "\<not> isAuthTimerSet me (snd (processConnect E me arg w))" by (rule off [OF all])
qed

end
