(* ===== verification/Parser_Split.thy ===== *)
theory Parser_Split
  imports Parser_Keeps
begin

text \<open>
  The parser against a machine that sees one byte at a time. The machine has no read buffer,
  no indices and no jumps: it keeps the argument and the payload it has read so far. The
  parser does what the machine does however the stream is cut into reads, as long as the
  stream stays clean: a carriage return in an argument is followed by the line feed, no
  argument is longer than the limit, and a payload is followed by two bytes of which only
  the second is a line feed.
\<close>

record line_state =
  ls_state :: pstate
  ls_arg :: bytes
  ls_cr :: bool
  ls_pay :: bytes
  ls_pa :: pubArg

datatype abs_res =
    ANext line_state server
  | AParseErr server
  | AAuthErr server
  | AReturn perr server
  | AUnclean

definition max_size :: int where "max_size = 2 ^ 62"

definition abs_line :: "penv \<Rightarrow> nat \<Rightarrow> line_state \<Rightarrow> server \<Rightarrow> abs_res" where
  "abs_line E me A w =
     (let s = ls_state A;
          arg = ls_arg A;
          start = A\<lparr>ls_state := OP_START, ls_arg := [], ls_cr := False\<rparr>;
          fin = (\<lambda>(e, w'). case e of Some x \<Rightarrow> AReturn x w' | None \<Rightarrow> ANext start w');
          pay = (\<lambda>pa w'. if pa_size pa \<ge> max_size then AUnclean
                          else ANext (start\<lparr>ls_pa := pa, ls_state := MSG_PAYLOAD, ls_pay := []\<rparr>) w')
      in if s = SUB_ARG then fin (processSub (the_env E) me arg w)
         else if s = UNSUB_ARG then fin (processUnsub me arg w)
         else if s = INFO_ARG then fin (processInfo E me arg w)
         else if s = MINUS_ERR_ARG then fin (None, processErr me arg w)
         else if s = CONNECT_ARG then fin (processConnect (the_env E) me arg w)
         else if s = PUB_ARG then
           (case processPub me arg (ls_pa A) w of (Some x, pa, w') \<Rightarrow> AReturn x w' | (None, pa, w') \<Rightarrow> pay pa w')
         else
           (case processMsgArgs arg (ls_pa A) of (Some x, pa) \<Rightarrow> AReturn x w | (None, pa) \<Rightarrow> pay pa w))"

definition abs_arg :: "penv \<Rightarrow> nat \<Rightarrow> char \<Rightarrow> line_state \<Rightarrow> server \<Rightarrow> abs_res" where
  "abs_arg E me b A w =
     (if b = CR then (if ls_cr A then AUnclean else ANext (A\<lparr>ls_cr := True\<rparr>) w)
      else if b = LF then abs_line E me A w
      else if ls_cr A \<or> int (length (ls_arg A)) + 1 > e_mcl E then AUnclean
      else ANext (A\<lparr>ls_arg := ls_arg A @ [b]\<rparr>) w)"

definition abs_pay :: "penv \<Rightarrow> nat \<Rightarrow> char \<Rightarrow> line_state \<Rightarrow> server \<Rightarrow> abs_res" where
  "abs_pay E me b A w =
     (let n = int (length (ls_pay A)); size = pa_size (ls_pa A) in
      if n < size then ANext (A\<lparr>ls_pay := ls_pay A @ [b]\<rparr>) w
      else if n = size then (if b = LF then AUnclean else ANext (A\<lparr>ls_pay := ls_pay A @ [b]\<rparr>) w)
      else if b = LF then
        ANext (A\<lparr>ls_state := OP_START, ls_pay := []\<rparr>) (processMsg (the_env E) me (ls_pa A) (ls_pay A @ [b]) w)
      else AUnclean)"

definition abs_step :: "penv \<Rightarrow> nat \<Rightarrow> char \<Rightarrow> line_state \<Rightarrow> server \<Rightarrow> abs_res" where
  "abs_step E me b A w =
     (let s = ls_state A;
          next = (\<lambda>r. case r of Some s' \<Rightarrow> ANext (A\<lparr>ls_state := s'\<rparr>) w | None \<Rightarrow> AParseErr w)
      in if s = OP_START then
           if b \<noteq> CHR ''C'' \<and> b \<noteq> CHR ''c'' \<and> isAuthTimerSet me w then AAuthErr w
           else next (start_state (ctyp (the_client me w) = CLIENT) b)
         else if s = OP_PING then
           if b = LF then ANext (A\<lparr>ls_state := OP_START\<rparr>) (processPing me w) else ANext A w
         else if s = OP_PONG then
           if b = LF then ANext (A\<lparr>ls_state := OP_START\<rparr>) (processPong me w) else ANext A w
         else if s = OP_PLUS_OK then
           if b = LF then ANext (A\<lparr>ls_state := OP_START\<rparr>) w else ANext A w
         else if s = MSG_PAYLOAD then abs_pay E me b A w
         else if is_arg s then abs_arg E me b A w
         else case arg_after s of
           Some s' \<Rightarrow> if is_blank b then ANext A w
                      else if 1 > e_mcl E then AUnclean
                      else ANext (A\<lparr>ls_state := s', ls_arg := [b], ls_cr := False\<rparr>) w
         | None \<Rightarrow> (case letter s of Some f \<Rightarrow> next (f b) | None \<Rightarrow> AParseErr w))"

fun abs_run :: "penv \<Rightarrow> nat \<Rightarrow> bytes \<Rightarrow> line_state \<Rightarrow> server \<Rightarrow> abs_res" where
  "abs_run E me [] A w = ANext A w"
| "abs_run E me (b # bs) A w =
     (case abs_step E me b A w of ANext A' w' \<Rightarrow> abs_run E me bs A' w' | r \<Rightarrow> r)"

lemma abs_run_append:
  "abs_run E me (xs @ ys) A w = (case abs_run E me xs A w of ANext A' w' \<Rightarrow> abs_run E me ys A' w' | r \<Rightarrow> r)"
  by (induction xs arbitrary: A w) (auto split: abs_res.split)

lemma abs_run_payload:
  assumes "ls_state A = MSG_PAYLOAD" "int (length (ls_pay A) + length xs) \<le> pa_size (ls_pa A)"
  shows "abs_run E me (xs @ ys) A w = abs_run E me ys (A\<lparr>ls_pay := ls_pay A @ xs\<rparr>) w"
  using assms
proof (induction xs arbitrary: A)
  case (Cons x xs)
  then have "abs_step E me x A w = ANext (A\<lparr>ls_pay := ls_pay A @ [x]\<rparr>) w"
    by (simp add: abs_step_def abs_pay_def is_arg_def)
  then show ?case using Cons.IH [of "A\<lparr>ls_pay := ls_pay A @ [x]\<rparr>"] Cons.prems by simp
qed simp

section \<open>States\<close>

definition plain_state :: "pstate \<Rightarrow> bool" where
  "plain_state s \<longleftrightarrow> \<not> is_arg s \<and> s \<noteq> MSG_PAYLOAD \<and> s \<noteq> MSG_END"

definition conn_state :: "pstate \<Rightarrow> bool" where
  "conn_state s \<longleftrightarrow> s = OP_START \<or> s = OP_C \<or> s = OP_CO \<or> s = OP_CON \<or> s = OP_CONN \<or> s = OP_CONNE \<or>
     s = OP_CONNEC \<or> s = OP_CONNECT \<or> s = CONNECT_ARG"

lemma start_plain: "start_state c b = Some s \<Longrightarrow> plain_state s"
  by (auto simp: start_state_def plain_state_def is_arg_def split: if_splits)

lemma start_conn: "start_state c b = Some s \<Longrightarrow> b = CHR ''C'' \<or> b = CHR ''c'' \<Longrightarrow> conn_state s"
  by (auto simp: start_state_def conn_state_def split: if_splits)

lemma letter_plain: "letter s = Some f \<Longrightarrow> f b = Some s' \<Longrightarrow> plain_state s'"
  by (cases s) (auto simp: letter_defs on_def on_blank_def plain_state_def is_arg_def split: if_splits)

lemma letter_conn: "letter s = Some f \<Longrightarrow> f b = Some s' \<Longrightarrow> conn_state s \<Longrightarrow> conn_state s'"
  by (auto simp: conn_state_def letter_defs on_def on_blank_def split: if_splits)

lemma arg_after_arg: "arg_after s = Some s' \<Longrightarrow> is_arg s'"
  by (cases s) (auto simp: arg_after_def is_arg_def)

lemma arg_after_conn: "arg_after s = Some s' \<Longrightarrow> conn_state s \<Longrightarrow> conn_state s'"
  by (auto simp: conn_state_def arg_after_def)

lemma conn_arg: "conn_state s \<Longrightarrow> is_arg s \<Longrightarrow> s = CONNECT_ARG"
  by (auto simp: conn_state_def is_arg_def)

section \<open>Slices\<close>

lemma slice_self: "0 \<le> i \<Longrightarrow> i \<le> int (length buf) \<Longrightarrow> slice buf i i = Some []"
  by (simp add: slice_def)

lemma slice_bounds: "slice buf a i = Some x \<Longrightarrow> 0 \<le> a \<and> a \<le> i \<and> i \<le> int (length buf) \<and> int (length x) = i - a"
  by (auto simp: slice_def split: if_splits)

lemma slice_extend:
  assumes "slice buf a i = Some x" "i \<le> k" "k \<le> int (length buf)"
  shows "slice buf a k = Some (x @ take (nat (k - i)) (drop (nat i) buf))"
proof -
  have b: "0 \<le> a" "a \<le> i" using slice_bounds [OF assms(1)] by auto
  have x: "x = take (nat (i - a)) (drop (nat a) buf)" using assms(1) by (auto simp: slice_def split: if_splits)
  have "nat (k - a) = nat (i - a) + nat (k - i)" "nat i = nat (i - a) + nat a" using b assms(2) by auto
  then show ?thesis using b assms(2,3) x by (simp add: slice_def take_add add.commute)
qed

lemma slice_snoc:
  assumes "slice buf a i = Some x" "i < int (length buf)"
  shows "slice buf a (i + 1) = Some (x @ [buf ! nat i])"
proof -
  have i: "0 \<le> i" using slice_bounds [OF assms(1)] by auto
  then have "nat (i + 1 - i) = 1" "nat i < length buf" using assms(2) by auto
  then have "take (nat (i + 1 - i)) (drop (nat i) buf) = [buf ! nat i]" by (simp add: take_Suc_conv_app_nth hd_drop_conv_nth)
  then show ?thesis using slice_extend [OF assms(1), of "i + 1"] assms(2) by simp
qed

lemma slice_butlast:
  assumes "slice buf a i = Some (x @ [c])"
  shows "slice buf a (i - 1) = Some x"
proof -
  have b: "0 \<le> a" "i \<le> int (length buf)" "int (length x) + 1 = i - a" using slice_bounds [OF assms] by auto
  have t: "take (nat (i - a)) (drop (nat a) buf) = x @ [c]" using assms by (simp add: slice_def split: if_splits)
  have "nat (i - 1 - a) = length x" "length x \<le> nat (i - a)" using b by auto
  then have "take (nat (i - 1 - a)) (drop (nat a) buf) = take (length x) (take (nat (i - a)) (drop (nat a) buf))"
    by (simp add: min_def)
  then have "take (nat (i - 1 - a)) (drop (nat a) buf) = x" unfolding t by simp
  then show ?thesis using b by (simp add: slice_def)
qed

section \<open>The relation\<close>

definition arg_rel :: "penv \<Rightarrow> bytes \<Rightarrow> int \<Rightarrow> parseState \<Rightarrow> line_state \<Rightarrow> bool" where
  "arg_rel E buf i ps A \<longleftrightarrow>
     ls_arg A \<noteq> [] \<and> int (length (ls_arg A)) \<le> e_mcl E \<and> ps_state ps = ls_state A \<and> ps_msgBuf ps = None \<and> ps_pa ps = ls_pa A \<and>
     (ps_argBuf ps = Some (ls_arg A) \<or>
      ps_argBuf ps = None \<and> ps_drop ps = (if ls_cr A then 1 else 0) \<and>
      slice buf (ps_as ps) i = Some (ls_arg A @ (if ls_cr A then [CR] else [])))"

definition pay_rel :: "bytes \<Rightarrow> int \<Rightarrow> parseState \<Rightarrow> line_state \<Rightarrow> bool" where
  "pay_rel buf i ps A \<longleftrightarrow>
     (let n = int (length (ls_pay A)); size = pa_size (ls_pa A) in
      ps_pa ps = ls_pa A \<and> 0 \<le> size \<and> size < max_size \<and> n \<le> size + 1 \<and>
      (ps_msgBuf ps = None \<and> slice buf (ps_as ps) i = Some (ls_pay A) \<and>
         ps_state ps = (if n \<le> size then MSG_PAYLOAD else MSG_END) \<or>
       ps_msgBuf ps = Some (ls_pay A) \<and>
         (ps_state ps = MSG_PAYLOAD \<and> n \<le> size \<or> ps_state ps = MSG_END \<and> size \<le> n)))"

definition prel :: "penv \<Rightarrow> bytes \<Rightarrow> int \<Rightarrow> parseState \<Rightarrow> line_state \<Rightarrow> bool" where
  "prel E buf i ps A \<longleftrightarrow>
     (if is_arg (ls_state A) then arg_rel E buf i ps A
      else if ls_state A = MSG_PAYLOAD then pay_rel buf i ps A
      else plain_state (ls_state A) \<and> ps_state ps = ls_state A \<and> ps_argBuf ps = None \<and> ps_msgBuf ps = None \<and>
        ps_drop ps = 0 \<and> ps_pa ps = ls_pa A)"

definition arel :: "nat \<Rightarrow> line_state \<Rightarrow> bool \<Rightarrow> server \<Rightarrow> bool" where
  "arel me A a w \<longleftrightarrow> heap w me \<noteq> None \<and> a = isAuthTimerSet me w \<and> (a \<longrightarrow> conn_state (ls_state A))"

definition step_sim :: "penv \<Rightarrow> nat \<Rightarrow> bytes \<Rightarrow> int \<Rightarrow> abs_res \<Rightarrow> step_res \<Rightarrow> bool" where
  "step_sim E me buf i r sr =
     (case r of
        ANext A' w' \<Rightarrow> \<exists>ps' a'. sr = Go i ps' a' w' \<and> prel E buf (i + 1) ps' A' \<and> arel me A' a' w'
      | AParseErr w' \<Rightarrow> \<exists>ps'. sr = GotoParseErr ps' w'
      | AAuthErr w' \<Rightarrow> \<exists>ps'. sr = GotoAuthErr ps' w'
      | AReturn x w' \<Rightarrow> \<exists>ps'. sr = Return x ps' w'
      | AUnclean \<Rightarrow> True)"

lemma arel_keep:
  assumes "arel me A False w" "mkeeps w w'"
  shows "arel me A' False w'"
proof -
  from assms(1) obtain c where c: "heap w me = Some c" "\<not> atmr c"
    by (auto simp: arel_def isAuthTimerSet_def the_client_def)
  with assms(2) obtain c' where "heap w' me = Some c'" "mrel c c'" by (auto simp: mkeeps_def)
  with c show ?thesis by (auto simp: arel_def isAuthTimerSet_def the_client_def mrel_def)
qed

lemma arel_same: "arel me A a w \<Longrightarrow> (a \<Longrightarrow> conn_state (ls_state A) \<Longrightarrow> conn_state (ls_state A')) \<Longrightarrow> arel me A' a w"
  by (auto simp: arel_def)

lemma prel_start: "plain_state s \<Longrightarrow> ls_state A = s \<Longrightarrow> ps_state ps = s \<Longrightarrow> ps_argBuf ps = None \<Longrightarrow> ps_msgBuf ps = None \<Longrightarrow>
  ps_drop ps = 0 \<Longrightarrow> ps_pa ps = ls_pa A \<Longrightarrow> prel E buf i ps A"
  by (auto simp: prel_def plain_state_def)

lemma sim_go:
  "prel E buf (i + 1) ps' A' \<Longrightarrow> arel me A' a' w' \<Longrightarrow> step_sim E me buf i (ANext A' w') (Go i ps' a' w')"
  by (auto simp: step_sim_def)

lemma sim_out_simps [simp]:
  "step_sim E me buf i (AParseErr w') (GotoParseErr ps w')" "step_sim E me buf i (AAuthErr w') (GotoAuthErr ps w')"
  "step_sim E me buf i (AReturn x w') (Return x ps w')" "step_sim E me buf i AUnclean sr"
  by (simp_all add: step_sim_def)

lemma plain_START [simp]: "plain_state OP_START"
  by (simp add: plain_state_def is_arg_def)

lemma plain_sim:
  assumes "prel E buf i ps A" "arel me A a w" "plain_state (ls_state A)" "0 \<le> i" "i < int (length buf)"
  shows "step_sim E me buf i (abs_step E me (buf ! nat i) A w) (byte_step E me buf i (buf ! nat i) ps a w)"
proof -
  let ?b = "buf ! nat i" and ?s = "ls_state A"
  have na: "\<not> is_arg ?s" "?s \<noteq> MSG_PAYLOAD" "?s \<noteq> MSG_END" using assms(3) by (auto simp: plain_state_def)
  have p: "ps_state ps = ?s" "ps_argBuf ps = None" "ps_msgBuf ps = None" "ps_drop ps = 0" "ps_pa ps = ls_pa A"
    using assms(1) na by (auto simp: prel_def)
  obtain c where c: "heap w me = Some c" and a: "a = isAuthTimerSet me w" "a \<Longrightarrow> conn_state ?s"
    using assms(2) by (auto simp: arel_def)
  have nxt: "step_sim E me buf i (ANext (A\<lparr>ls_state := s'\<rparr>) w) (Go i (ps\<lparr>ps_state := s'\<rparr>) a w)"
    if "plain_state s'" "a \<Longrightarrow> conn_state s'" for s'
    by (rule sim_go; (rule prel_start [OF that(1)])?) (use that p assms(2) in \<open>simp_all add: arel_def\<close>)
  have stay: "step_sim E me buf i (ANext A w) (Go i ps a w)"
    by (rule sim_go [OF prel_start [OF assms(3)] assms(2)]) (use p in simp_all)
  have fin: "step_sim E me buf i (ANext (A\<lparr>ls_state := OP_START\<rparr>) w') (Go i (ps\<lparr>ps_drop := 0, ps_state := OP_START\<rparr>) a w')"
    if "\<not> a" "mkeeps w w'" for w'
    by (rule sim_go [OF prel_start [OF plain_START]])
      (use that p arel_keep [of me A w w'] assms(2) in simp_all)
  consider (start) "?s = OP_START" | (ping) "?s = OP_PING" | (pong) "?s = OP_PONG" | (ok) "?s = OP_PLUS_OK"
    | (other) "?s \<noteq> OP_START" "?s \<noteq> OP_PING" "?s \<noteq> OP_PONG" "?s \<noteq> OP_PLUS_OK" by blast
  then show ?thesis
  proof cases
    case start
    show ?thesis
    proof (cases "?b \<noteq> CHR ''C'' \<and> ?b \<noteq> CHR ''c'' \<and> a")
      case True
      then show ?thesis using start p a by (simp add: abs_step_def byte_step_def step_sim_def)
    next
      case False
      then have conn: "conn_state s'" if "start_state t ?b = Some s'" a for t s' using that start_conn by blast
      show ?thesis
      proof (cases "start_state (ctyp (the_client me w) = CLIENT) ?b")
        case None
        then show ?thesis using start p a False by (auto simp: abs_step_def byte_step_def)
      next
        case (Some s')
        then show ?thesis using start p a False nxt [OF start_plain [OF Some]] conn by (auto simp: abs_step_def byte_step_def)
      qed
    qed
  next
    case ping
    then have "\<not> a" using a by (auto simp: conn_state_def)
    from fin [OF this mkeeps_processPing [OF c]] stay show ?thesis
      using ping p by (simp add: abs_step_def byte_step_def)
  next
    case pong
    then have "\<not> a" using a by (auto simp: conn_state_def)
    from fin [OF this mkeeps_processPong] stay show ?thesis
      using pong p by (simp add: abs_step_def byte_step_def)
  next
    case ok
    then have "\<not> a" using a by (auto simp: conn_state_def)
    from fin [OF this mkeeps_refl] stay show ?thesis
      using ok p by (simp add: abs_step_def byte_step_def)
  next
    case other
    show ?thesis
    proof (cases "arg_after ?s")
      case None
      show ?thesis
      proof (cases "letter ?s")
        case N2: None
        then show ?thesis using None other na p by (simp add: abs_step_def byte_step_def)
      next
        case (Some f)
        show ?thesis
        proof (cases "f ?b")
          case N3: None
          then show ?thesis using None Some other na p by (simp add: abs_step_def byte_step_def)
        next
          case S3: (Some s')
          from nxt [OF letter_plain [OF Some S3] letter_conn [OF Some S3 a(2)]]
          show ?thesis using None Some S3 other na p by (simp add: abs_step_def byte_step_def)
        qed
      qed
    next
      case (Some s')
      let ?ps = "ps\<lparr>ps_state := s', ps_as := i\<rparr>" and ?A = "A\<lparr>ls_state := s', ls_arg := [?b], ls_cr := False\<rparr>"
      have "slice buf i (i + 1) = Some [?b]" using slice_snoc [OF slice_self [of i buf]] assms(4,5) by simp
      then have "prel E buf (i + 1) ?ps ?A" if "1 \<le> e_mcl E"
        using p that arg_after_arg [OF Some] by (simp add: arg_rel_def prel_def)
      then have "step_sim E me buf i (ANext ?A w) (Go i ?ps a w)" if "1 \<le> e_mcl E"
        by (rule sim_go) (use that assms(2) arg_after_conn [OF Some] in \<open>auto simp: arel_def\<close>)
      with stay show ?thesis using Some other na p by (simp add: abs_step_def byte_step_def)
    qed
  qed
qed

section \<open>Arguments\<close>

lemma arg_value:
  assumes "arg_rel E buf i ps A"
  shows "(case ps_argBuf ps of Some a \<Rightarrow> Some a | None \<Rightarrow> slice buf (ps_as ps) (i - ps_drop ps)) = Some (ls_arg A)"
  using assms slice_butlast [of buf "ps_as ps" i "ls_arg A" CR] by (auto simp: arg_rel_def split: if_splits)

lemma line_sim:
  assumes ar: "arel me A a w" and s: "is_arg (ls_state A)" "ls_state A \<noteq> PUB_ARG" "ls_state A \<noteq> MSG_ARG"
    and p: "ps_state ps = ls_state A" "ps_msgBuf ps = None" "ps_pa ps = ls_pa A"
  shows "step_sim E me buf i (abs_line E me A w) (arg_line E me i (ls_arg A) ps a w)"
proof -
  obtain c where c: "heap w me = Some c" using ar by (auto simp: arel_def)
  let ?A = "A\<lparr>ls_state := OP_START, ls_arg := [], ls_cr := False\<rparr>"
  have pr: "prel E buf (i + 1) (ps\<lparr>ps_argBuf := None, ps_drop := 0, ps_state := OP_START\<rparr>) ?A"
      "prel E buf (i + 1) (ps\<lparr>ps_argBuf := None, ps_drop := 0, ps_as := i + 1, ps_state := OP_START\<rparr>) ?A"
    by (rule prel_start [OF plain_START]; use p in simp)+
  have fin: "step_sim E me buf i (case e of Some x \<Rightarrow> AReturn x w' | None \<Rightarrow> ANext ?A w')
      (case e of Some x \<Rightarrow> Return x (ps\<lparr>ps_argBuf := None\<rparr>) w'
        | None \<Rightarrow> Go i (ps\<lparr>ps_argBuf := None, ps_drop := 0, ps_as := i + 1, ps_state := OP_START\<rparr>) a w')"
    if "ls_state A \<noteq> CONNECT_ARG" "mkeeps w w'" for e w'
  proof -
    have "\<not> a" using that(1) ar s(1) conn_arg by (auto simp: arel_def)
    then have "arel me ?A a w'" using arel_keep [OF _ that(2)] ar by auto
    then show ?thesis using sim_go [OF pr(2)] by (cases e) auto
  qed
  consider (sub) "ls_state A = SUB_ARG" | (unsub) "ls_state A = UNSUB_ARG" | (info) "ls_state A = INFO_ARG"
    | (err) "ls_state A = MINUS_ERR_ARG" | (conn) "ls_state A = CONNECT_ARG" using s by (auto simp: is_arg_def)
  then show ?thesis
  proof cases
    case sub
    with p fin [OF _ mkeeps_processSub [OF c, of "the_env E" "ls_arg A"], of "fst (processSub (the_env E) me (ls_arg A) w)"]
    show ?thesis by (simp add: Let_def abs_line_def arg_line_defs case_prod_beta)
  next
    case unsub
    with p fin [OF _ mkeeps_processUnsub [of w me "ls_arg A"], of "fst (processUnsub me (ls_arg A) w)"]
    show ?thesis by (simp add: Let_def abs_line_def arg_line_defs case_prod_beta)
  next
    case info
    with p fin [OF _ mkeeps_processInfo [of w E me "ls_arg A"], of "fst (processInfo E me (ls_arg A) w)"]
    show ?thesis by (simp add: Let_def abs_line_def arg_line_defs case_prod_beta)
  next
    case err
    with p fin [OF _ mkeeps_processErr [of w me "ls_arg A"], of None]
    show ?thesis by (simp add: Let_def abs_line_def arg_line_defs)
  next
    case conn
    let ?r = "processConnect (the_env E) me (ls_arg A) w"
    obtain e w' where r: "?r = (e, w')" by fastforce
    note k = mkeeps_processConnect [OF c, of "the_env E" "ls_arg A", unfolded r]
    show ?thesis
    proof (cases e)
      case None
      then have "arel me ?A (isAuthTimerSet me w') w'" using k mkeeps_dom [of w w' me] c by (auto simp: arel_def)
      from sim_go [OF pr(1) this] show ?thesis using conn p r None by (simp add: Let_def abs_line_def arg_line_defs)
    next
      case (Some x)
      then show ?thesis using conn p r by (simp add: Let_def abs_line_def arg_line_defs)
    qed
  qed
qed

text \<open>The end of the control line of a message: the parser jumps into or over the payload.\<close>

lemma pub_line_sim:
  assumes ar: "arel me A a w" and s: "ls_state A = PUB_ARG \<or> ls_state A = MSG_ARG"
    and p: "ps_state ps = ls_state A" "ps_msgBuf ps = None" "ps_pa ps = ls_pa A"
    and i: "0 \<le> i" "i < int (length buf)" "int (length buf) < max_size"
  shows "(\<exists>x w' ps'. abs_line E me A w = AReturn x w' \<and> arg_line E me i (ls_arg A) ps a w = Return x ps' w') \<or>
    abs_line E me A w = AUnclean \<or>
    (\<exists>j ps' A' w'. abs_line E me A w = ANext A' w' \<and> arg_line E me i (ls_arg A) ps a w = Go j ps' a w' \<and>
       i \<le> j + 1 \<and> j \<le> i + pa_size (ls_pa A') \<and> prel E buf (i + 1) ps' A' \<and> ls_state A' = MSG_PAYLOAD \<and> ls_pay A' = [] \<and>
       ps_msgBuf ps' = None \<and> ps_as ps' = i + 1 \<and> (j + 1 = i \<longrightarrow> pa_size (ls_pa A') = 0) \<and> arel me A' a w')"
proof -
  have na: "\<not> a" using ar s by (auto simp: arel_def conn_state_def)
  define A' where "A' pa = A\<lparr>ls_state := MSG_PAYLOAD, ls_arg := [], ls_cr := False, ls_pa := pa, ls_pay := []\<rparr>" for pa
  define ps' where "ps' pa = ps\<lparr>ps_pa := pa, ps_drop := 0, ps_as := i + 1, ps_state := MSG_PAYLOAD\<rparr>" for pa
  have pr: "prel E buf (i + 1) (ps' pa) (A' pa)" if "0 \<le> pa_size pa" "pa_size pa < max_size" for pa
    using that p(2) i slice_self [of "i + 1" buf] by (simp add: prel_def pay_rel_def A'_def ps'_def is_arg_def)
  have ar': "arel me (A' pa) a w'" if "mkeeps w w'" for pa w' using arel_keep [OF _ that] ar na by auto
  have nj: "i + 1 + pa_size pa < 2 ^ 63" if "pa_size pa < max_size" for pa using that i by (simp add: max_size_def)
  from s show ?thesis
  proof
    assume s: "ls_state A = PUB_ARG"
    obtain e pa w' where r: "processPub me (ls_arg A) (ls_pa A) w = (e, pa, w')" by (metis prod_cases3)
    have k: "mkeeps w w'" using mkeeps_processPub [of w me "ls_arg A" "ls_pa A"] r by simp
    show ?thesis
    proof (cases e)
      case None
      note sz = processPub_size [OF r [unfolded None]]
      have "arg_line E me i (ls_arg A) ps a w = Go (i + 1 + pa_size pa - LEN_CR_LF) (ps' pa) a w'" if "pa_size pa < max_size"
        using s p r None nj [OF that] by (simp add: Let_def arg_line_defs jump_def ps'_def LEN_CR_LF_def)
      moreover have "abs_line E me A w = (if pa_size pa \<ge> max_size then AUnclean else ANext (A' pa) w')"
        using s r None by (simp add: Let_def abs_line_def A'_def)
      ultimately show ?thesis using pr [OF sz] ar' [OF k] p(2) sz
        by (auto simp: LEN_CR_LF_def A'_def ps'_def)
    next
      case (Some x)
      then show ?thesis using s p r by (simp add: Let_def abs_line_def arg_line_defs)
    qed
  next
    assume s: "ls_state A = MSG_ARG"
    obtain e pa where r: "processMsgArgs (ls_arg A) (ls_pa A) = (e, pa)" by fastforce
    show ?thesis
    proof (cases e)
      case None
      note sz = processMsgArgs_size [OF r [unfolded None]]
      have "arg_line E me i (ls_arg A) ps a w = Go (i + 1 + pa_size pa - 1) (ps' pa) a w" if "pa_size pa < max_size"
        using s p r None nj [OF that] by (simp add: Let_def arg_line_defs jump_def ps'_def)
      moreover have "abs_line E me A w = (if pa_size pa \<ge> max_size then AUnclean else ANext (A' pa) w)"
        using s r None by (simp add: Let_def abs_line_def A'_def)
      ultimately show ?thesis using pr [OF sz] ar' [OF mkeeps_refl] p(2) sz
        by (auto simp: A'_def ps'_def)
    next
      case (Some x)
      then show ?thesis using s p r by (simp add: Let_def abs_line_def arg_line_defs)
    qed
  qed
qed

lemma arg_sim:
  assumes rel: "prel E buf i ps A" and ar: "arel me A a w" and s: "is_arg (ls_state A)"
    and i: "0 \<le> i" "i < int (length buf)" and lf: "buf ! nat i = LF \<Longrightarrow> ls_state A \<noteq> PUB_ARG \<and> ls_state A \<noteq> MSG_ARG"
  shows "step_sim E me buf i (abs_step E me (buf ! nat i) A w) (byte_step E me buf i (buf ! nat i) ps a w)"
proof -
  let ?b = "buf ! nat i"
  have r: "arg_rel E buf i ps A" using rel s by (simp add: prel_def)
  then have p: "ps_state ps = ls_state A" "ps_msgBuf ps = None" "ps_pa ps = ls_pa A" by (auto simp: arg_rel_def)
  have st: "abs_step E me ?b A w = abs_arg E me ?b A w" "byte_step E me buf i ?b ps a w = arg_byte E me buf i ?b ps a w"
    using s p by (auto simp: abs_step_def byte_step_def is_arg_def)
  have keep: "arel me (A\<lparr>ls_cr := x, ls_arg := y\<rparr>) a w" for x y using ar by (simp add: arel_def)
  consider (cr) "?b = CR" | (lf) "?b = LF" | (other) "?b \<noteq> CR" "?b \<noteq> LF" by blast
  then show ?thesis
  proof cases
    case cr
    have "prel E buf (i + 1) (ps\<lparr>ps_drop := 1\<rparr>) (A\<lparr>ls_cr := True\<rparr>)" if "\<not> ls_cr A"
      using r s cr that slice_snoc [of buf "ps_as ps" i "ls_arg A"] i by (auto simp: prel_def arg_rel_def)
    from sim_go [OF this] show ?thesis unfolding st abs_arg_def arg_byte_def
      using cr ar by (auto simp: arel_def)
  next
    case lf
    then have "ls_state A \<noteq> PUB_ARG" "ls_state A \<noteq> MSG_ARG" using assms(6) by auto
    from line_sim [OF ar s this p, of E buf i] show ?thesis
      unfolding st abs_arg_def arg_byte_def arg_value [OF r] using lf by simp
  next
    case other
    let ?ps = "ps\<lparr>ps_argBuf := map_option (\<lambda>a. a @ [?b]) (ps_argBuf ps)\<rparr>"
    have "prel E buf (i + 1) ?ps (A\<lparr>ls_arg := ls_arg A @ [?b]\<rparr>)" if "\<not> ls_cr A" "int (length (ls_arg A)) + 1 \<le> e_mcl E"
      using r s that slice_snoc [of buf "ps_as ps" i "ls_arg A"] i by (auto simp: prel_def arg_rel_def)
    from sim_go [OF this] show ?thesis unfolding st abs_arg_def arg_byte_def
      using other ar by (auto simp: arel_def)
  qed
qed

section \<open>Payloads\<close>

lemma wrap_size: "0 \<le> n \<Longrightarrow> n < max_size \<Longrightarrow> wrap64 (n + 2) = n + 2"
  by (rule wrap64_id) (simp add: in_int64_def max_size_def)

lemma pay_end_sim:
  assumes ar: "arel me A a w" and A: "ls_state A = MSG_PAYLOAD" "0 \<le> pa_size (ls_pa A)" "pa_size (ls_pa A) < max_size"
    and n: "int (length (ls_pay A)) = pa_size (ls_pa A) + 1" and p: "ps_pa ps = ls_pa A"
    and msg: "(case ps_msgBuf ps of Some m \<Rightarrow> Some (m @ [LF]) | None \<Rightarrow> slice buf (ps_as ps) (i + 1)) = Some (ls_pay A @ [LF])"
  shows "step_sim E me buf i (ANext (A\<lparr>ls_state := OP_START, ls_pay := []\<rparr>) (processMsg (the_env E) me (ls_pa A) (ls_pay A @ [LF]) w))
    (end_byte E me buf i LF ps a w)"
proof -
  obtain c where c: "heap w me = Some c" using ar by (auto simp: arel_def)
  have "\<not> a" using ar A by (auto simp: arel_def conn_state_def)
  then have "arel me (A\<lparr>ls_state := OP_START, ls_pay := []\<rparr>) a (processMsg (the_env E) me (ls_pa A) (ls_pay A @ [LF]) w)"
    using arel_keep [OF _ mkeeps_processMsg [OF c]] ar by auto
  moreover have "end_byte E me buf i LF ps a w =
      Go i (ps\<lparr>ps_argBuf := None, ps_msgBuf := None, ps_drop := 0, ps_as := i + 1, ps_state := OP_START\<rparr>) a
        (processMsg (the_env E) me (ls_pa A) (ls_pay A @ [LF]) w)"
    unfolding end_byte_def msg using p n wrap_size [OF A(2,3)] by (simp add: LEN_CR_LF_def)
  ultimately show ?thesis by (simp del: client.simps) (rule sim_go [OF prel_start [OF plain_START]]; simp add: p)
qed

lemma pay_sim:
  assumes rel: "prel E buf i ps A" and ar: "arel me A a w" and A: "ls_state A = MSG_PAYLOAD"
    and i: "0 \<le> i" "i < int (length buf)"
    and m: "ps_msgBuf ps = None \<or> pa_size (ls_pa A) \<le> int (length (ls_pay A))"
  shows "step_sim E me buf i (abs_step E me (buf ! nat i) A w) (byte_step E me buf i (buf ! nat i) ps a w)"
proof -
  let ?b = "buf ! nat i" and ?n = "int (length (ls_pay A))" and ?size = "pa_size (ls_pa A)"
  let ?A = "A\<lparr>ls_pay := ls_pay A @ [?b]\<rparr>"
  have r: "pay_rel buf i ps A" using rel A by (simp add: prel_def is_arg_def)
  then have q: "ps_pa ps = ls_pa A" "0 \<le> ?size" "?size < max_size" "?n \<le> ?size + 1" by (auto simp: pay_rel_def Let_def)
  have st: "abs_step E me ?b A w = abs_pay E me ?b A w" using A by (simp add: abs_step_def is_arg_def)
  have stP: "byte_step E me buf i ?b ps a w = payload_byte buf i ?b ps a w" if "ps_state ps = MSG_PAYLOAD"
    using that by (simp add: byte_step_def)
  have stE: "byte_step E me buf i ?b ps a w = end_byte E me buf i ?b ps a w" if "ps_state ps = MSG_END"
    using that by (simp add: byte_step_def)
  have ar': "arel me ?A a w" using ar by (simp add: arel_def)
  have go: "step_sim E me buf i (ANext ?A w) (Go i ps' a w)" if "pay_rel buf (i + 1) ps' ?A" for ps'
    by (rule sim_go [OF _ ar']) (use that A in \<open>simp add: prel_def is_arg_def\<close>)
  show ?thesis
  proof (cases "ps_msgBuf ps")
    case None
    with r have sl: "slice buf (ps_as ps) i = Some (ls_pay A)" and s: "ps_state ps = (if ?n \<le> ?size then MSG_PAYLOAD else MSG_END)"
      by (auto simp: pay_rel_def Let_def)
    have sl': "slice buf (ps_as ps) (i + 1) = Some (ls_pay A @ [?b])" by (rule slice_snoc [OF sl i(2)])
    have n: "i - ps_as ps = ?n" using slice_bounds [OF sl] by auto
    consider "?n < ?size" | "?n = ?size" | "?n = ?size + 1" using q(4) by linarith
    then show ?thesis
    proof cases
      case 1
      have "pay_rel buf (i + 1) ps ?A" using 1 None sl' s q by (simp add: pay_rel_def)
      from go [OF this] show ?thesis using 1 None s n q stP by (simp add: st abs_pay_def payload_byte_def)
    next
      case 2
      have "pay_rel buf (i + 1) (ps\<lparr>ps_state := MSG_END\<rparr>) ?A" using 2 None sl' q by (simp add: pay_rel_def)
      from go [OF this] show ?thesis using 2 None s n q stP by (simp add: st abs_pay_def payload_byte_def)
    next
      case 3
      then show ?thesis using s stE pay_end_sim [OF ar A q(2,3) 3 q(1), of buf i E] None sl'
        by (simp add: st abs_pay_def)
    qed
  next
    case (Some m')
    with m r have n: "?size \<le> ?n" and mm: "m' = ls_pay A"
      and s: "ps_state ps = MSG_PAYLOAD \<and> ?n = ?size \<or> ps_state ps = MSG_END"
      by (auto simp: pay_rel_def Let_def)
    consider "?n = ?size" | "?n = ?size + 1" using q(4) n by linarith
    then show ?thesis
    proof cases
      case 1
      have "pay_rel buf (i + 1) (ps\<lparr>ps_msgBuf := Some (ls_pay A @ [?b]), ps_state := MSG_END\<rparr>) ?A" using 1 q by (simp add: pay_rel_def)
      from go [OF this] have g: "step_sim E me buf i (ANext ?A w) (Go i (ps\<lparr>ps_msgBuf := Some (ls_pay A @ [?b]), ps_state := MSG_END\<rparr>) a w)" .
      have "pay_rel buf (i + 1) (ps\<lparr>ps_msgBuf := Some (ls_pay A @ [?b])\<rparr>) ?A" if "ps_state ps = MSG_END" using 1 q that by (simp add: pay_rel_def)
      from go [OF this] have g2: "step_sim E me buf i (ANext ?A w) (Go i (ps\<lparr>ps_msgBuf := Some (ls_pay A @ [?b])\<rparr>) a w)" if "ps_state ps = MSG_END" using that .
      show ?thesis using s g g2 1 Some mm q i stP stE by (auto simp: st abs_pay_def payload_byte_def end_byte_def)
    next
      case 2
      then have "ps_state ps = MSG_END" using s by auto
      then show ?thesis using stE pay_end_sim [OF ar A q(2,3) 2 q(1), of buf i E] Some mm 2
        by (simp add: st abs_pay_def)
    qed
  qed
qed

section \<open>A whole read\<close>

definition loop_sim :: "penv \<Rightarrow> nat \<Rightarrow> bytes \<Rightarrow> abs_res \<Rightarrow> loop_out \<Rightarrow> bool" where
  "loop_sim E me buf r lo =
     (case r of
        ANext A' w' \<Rightarrow> \<exists>i' ps' a'. lo = Done i' ps' w' \<and> int (length buf) \<le> i' \<and>
          (is_arg (ls_state A') \<longrightarrow> i' = int (length buf)) \<and> prel E buf (int (length buf)) ps' A' \<and> arel me A' a' w'
      | AParseErr w' \<Rightarrow> \<exists>i' ps'. lo = OutParseErr i' ps' w' \<and> 0 \<le> i'
      | AAuthErr w' \<Rightarrow> \<exists>ps'. lo = OutAuthErr ps' w'
      | AReturn x w' \<Rightarrow> \<exists>ps'. lo = OutReturn x ps' w'
      | AUnclean \<Rightarrow> True)"

lemma loop_go:
  assumes "byte_step E me buf i (buf ! nat i) ps a w = Go j ps' a' w'" "0 \<le> i" "i < int (length buf)"
  shows "parse_loop E me buf i ps a w = parse_loop E me buf (j + 1) ps' a' w'"
  using assms by (subst parse_loop.simps) simp

lemma drop_at: "0 \<le> i \<Longrightarrow> i < int (length buf) \<Longrightarrow> drop (nat i) buf = buf ! nat i # drop (nat (i + 1)) buf"
  by (simp add: Cons_nth_drop_Suc [symmetric] nat_add_distrib)

lemma loop_from_step:
  assumes i: "0 \<le> i" "i < int (length buf)"
    and sim: "step_sim E me buf i (abs_step E me (buf ! nat i) A w) (byte_step E me buf i (buf ! nat i) ps a w)"
    and IH: "\<And>ps' A' a' w'. prel E buf (i + 1) ps' A' \<Longrightarrow> arel me A' a' w' \<Longrightarrow>
      loop_sim E me buf (abs_run E me (drop (nat (i + 1)) buf) A' w') (parse_loop E me buf (i + 1) ps' a' w')"
  shows "loop_sim E me buf (abs_run E me (drop (nat i) buf) A w) (parse_loop E me buf i ps a w)"
proof (cases "abs_step E me (buf ! nat i) A w")
  case (ANext A' w')
  then obtain ps' a' where "byte_step E me buf i (buf ! nat i) ps a w = Go i ps' a' w'" "prel E buf (i + 1) ps' A'" "arel me A' a' w'"
    using sim by (auto simp: step_sim_def)
  then show ?thesis using IH ANext loop_go [OF _ i] drop_at [OF i] by simp
qed (use sim i drop_at [OF i] in \<open>auto simp: step_sim_def loop_sim_def parse_loop.simps [of E me buf i]\<close>)

text \<open>Skipping ahead inside a payload that is not split yet.\<close>

lemma prel_skip:
  assumes "prel E buf j ps A" "ls_state A = MSG_PAYLOAD" "ps_msgBuf ps = None" "j \<le> k" "k \<le> int (length buf)"
    and "int (length (ls_pay A)) + (k - j) \<le> pa_size (ls_pa A)"
  shows "prel E buf k ps (A\<lparr>ls_pay := ls_pay A @ take (nat (k - j)) (drop (nat j) buf)\<rparr>)"
proof -
  have r: "pay_rel buf j ps A" using assms(1,2) by (simp add: prel_def is_arg_def)
  then have sl: "slice buf (ps_as ps) j = Some (ls_pay A)" using assms(3) by (auto simp: pay_rel_def Let_def)
  have "0 \<le> j" using slice_bounds [OF sl] by auto
  then have "length (take (nat (k - j)) (drop (nat j) buf)) = nat (k - j)" using assms(4,5) by simp
  then show ?thesis using r assms(2-6) slice_extend [OF sl assms(4,5)]
    by (auto simp: prel_def pay_rel_def is_arg_def Let_def split: if_splits)
qed

lemma run_skip:
  assumes "ls_state A = MSG_PAYLOAD" "0 \<le> j" "j \<le> k" "k \<le> int (length buf)"
    and "int (length (ls_pay A)) + (k - j) \<le> pa_size (ls_pa A)"
  shows "abs_run E me (drop (nat j) buf) A w =
    abs_run E me (drop (nat k) buf) (A\<lparr>ls_pay := ls_pay A @ take (nat (k - j)) (drop (nat j) buf)\<rparr>) w"
proof -
  have "drop (nat j) buf = take (nat (k - j)) (drop (nat j) buf) @ drop (nat k) buf"
    using assms(2,3) by (metis append_take_drop_id drop_drop add.commute nat_add_distrib diff_add_cancel diff_ge_0_iff_ge)
  moreover have "length (take (nat (k - j)) (drop (nat j) buf)) = nat (k - j)" using assms(2-4) by simp
  ultimately show ?thesis using abs_run_payload [OF assms(1), of "take (nat (k - j)) (drop (nat j) buf)" E me "drop (nat k) buf" w] assms(3,5)
    by simp
qed

lemma jump_sim:
  assumes rel: "prel E buf (i + 1) ps A" and ar: "arel me A a w" and A: "ls_state A = MSG_PAYLOAD" "ls_pay A = []"
    and p: "ps_msgBuf ps = None" "ps_as ps = i + 1"
    and i: "0 \<le> i" "i < int (length buf)" and j: "i \<le> j + 1" "j \<le> i + pa_size (ls_pa A)" "j + 1 = i \<longrightarrow> pa_size (ls_pa A) = 0"
    and IH: "\<And>k ps' A' a' w'. i < k \<Longrightarrow> k \<le> int (length buf) \<Longrightarrow> prel E buf k ps' A' \<Longrightarrow> arel me A' a' w' \<Longrightarrow>
      loop_sim E me buf (abs_run E me (drop (nat k) buf) A' w') (parse_loop E me buf k ps' a' w')"
  shows "loop_sim E me buf (abs_run E me (drop (nat (i + 1)) buf) A w) (parse_loop E me buf (j + 1) ps a w)"
proof -
  have ar': "arel me (A\<lparr>ls_pay := x\<rparr>) a w" for x using ar by (simp add: arel_def)
  have rp: "pay_rel buf (i + 1) ps A" using rel A by (simp add: prel_def is_arg_def)
  then have pa: "ps_pa ps = ls_pa A" by (auto simp: pay_rel_def Let_def)
  from rp have st: "ps_state ps = MSG_PAYLOAD" using A p by (auto simp: pay_rel_def Let_def split: if_splits)
  consider (again) "j + 1 = i" | (inside) "i < j + 1" "j + 1 \<le> int (length buf)" | (over) "int (length buf) < j + 1"
    using j(1) by linarith
  then show ?thesis
  proof cases
    case again
    then have "byte_step E me buf i (buf ! nat i) ps a w = Go i ps a w"
      using st p j(3) pa by (simp add: byte_step_def payload_byte_def)
    from loop_go [OF this i] again IH [OF _ _ rel ar] i show ?thesis by simp
  next
    case inside
    then have "loop_sim E me buf (abs_run E me (drop (nat (j + 1)) buf) (A\<lparr>ls_pay := ls_pay A @ take (nat (j + 1 - (i + 1))) (drop (nat (i + 1)) buf)\<rparr>) w)
        (parse_loop E me buf (j + 1) ps a w)"
      using j A by (intro IH ar' prel_skip [OF rel A(1) p(1)]) simp_all
    then show ?thesis using run_skip [OF A(1), of "i + 1" "j + 1" buf E me w] inside i j A by simp
  next
    case over
    let ?l = "int (length buf)"
    let ?A = "A\<lparr>ls_pay := ls_pay A @ take (nat (?l - (i + 1))) (drop (nat (i + 1)) buf)\<rparr>"
    have "prel E buf ?l ps ?A" using over i j A by (intro prel_skip [OF rel A(1) p(1)]) simp_all
    moreover have "abs_run E me (drop (nat (i + 1)) buf) A w = ANext ?A w"
      using run_skip [OF A(1), of "i + 1" ?l buf E me w] over i j A by simp
    moreover have "parse_loop E me buf (j + 1) ps a w = Done (j + 1) ps w"
      using over by (subst parse_loop.simps) simp
    ultimately show ?thesis using ar' over A by (auto simp: loop_sim_def is_arg_def)
  qed
qed

text \<open>Copying into a payload that was split before.\<close>

lemma copy_sim:
  assumes rel: "prel E buf i ps A" and ar: "arel me A a w" and A: "ls_state A = MSG_PAYLOAD"
    and p: "ps_msgBuf ps = Some m" and n: "int (length (ls_pay A)) < pa_size (ls_pa A)"
    and i: "0 \<le> i" "i < int (length buf)"
    and IH: "\<And>k ps' A' a' w'. i < k \<Longrightarrow> k \<le> int (length buf) \<Longrightarrow> prel E buf k ps' A' \<Longrightarrow> arel me A' a' w' \<Longrightarrow>
      loop_sim E me buf (abs_run E me (drop (nat k) buf) A' w') (parse_loop E me buf k ps' a' w')"
  shows "loop_sim E me buf (abs_run E me (drop (nat i) buf) A w) (parse_loop E me buf i ps a w)"
proof -
  let ?size = "pa_size (ls_pa A)"
  have r: "pay_rel buf i ps A" using rel A by (simp add: prel_def is_arg_def)
  then have m: "m = ls_pay A" and q: "ps_pa ps = ls_pa A" "0 \<le> ?size" "?size < max_size" and st: "ps_state ps = MSG_PAYLOAD"
    using p n by (auto simp: pay_rel_def Let_def)
  define t where "t = (if int (length buf) - i < ?size - int (length m) then int (length buf) - i else ?size - int (length m))"
  have t: "0 < t" "i + t \<le> int (length buf)" "int (length m) + t \<le> ?size" using n i m by (auto simp: t_def)
  define m' where "m' = m @ take (nat t) (drop (nat i) buf)"
  have lm: "int (length m') = int (length m) + t" using t i by (simp add: m'_def)
  let ?A = "A\<lparr>ls_pay := m'\<rparr>"
  let ?ps = "ps\<lparr>ps_msgBuf := Some m', ps_state := (if int (length m') \<ge> ?size then MSG_END else MSG_PAYLOAD)\<rparr>"
  have "byte_step E me buf i (buf ! nat i) ps a w = Go (i + t - 1) ?ps a w"
    using st p q t by (simp add: byte_step_def payload_byte_def m'_def Let_def flip: t_def)
  from loop_go [OF this i] have "parse_loop E me buf i ps a w = parse_loop E me buf (i + t) ?ps a w" by simp
  moreover have "abs_run E me (drop (nat i) buf) A w = abs_run E me (drop (nat (i + t)) buf) ?A w"
    using run_skip [OF A i(1), of "i + t" buf E me w] t m by (simp add: m'_def)
  moreover have "prel E buf (i + t) ?ps ?A"
    using A q t lm by (simp add: prel_def is_arg_def pay_rel_def)
  ultimately show ?thesis using IH [of "i + t" ?ps ?A a w] t ar by (simp add: arel_def)
qed

theorem loop_refines:
  assumes "prel E buf i ps A" "arel me A a w" "0 \<le> i" "i \<le> int (length buf)" "int (length buf) < max_size"
  shows "loop_sim E me buf (abs_run E me (drop (nat i) buf) A w) (parse_loop E me buf i ps a w)"
  using assms
proof (induction "nat (int (length buf) - i)" arbitrary: i ps A a w rule: less_induct)
  case less
  have IH: "loop_sim E me buf (abs_run E me (drop (nat k) buf) A' w') (parse_loop E me buf k ps' a' w')"
    if "i < k" "k \<le> int (length buf)" "prel E buf k ps' A'" "arel me A' a' w'" for k ps' A' a' w'
    using less.hyps [of k ps' A' a' w'] that less.prems by simp
  show ?case
  proof (cases "i = int (length buf)")
    case True
    moreover from this have "parse_loop E me buf i ps a w = Done i ps w" by (subst parse_loop.simps) simp
    ultimately show ?thesis using less.prems by (auto simp: loop_sim_def)
  next
    case False
    then have i: "0 \<le> i" "i < int (length buf)" using less.prems by auto
    have one: ?thesis if "step_sim E me buf i (abs_step E me (buf ! nat i) A w) (byte_step E me buf i (buf ! nat i) ps a w)"
      by (rule loop_from_step [OF i that IH]) (use i in simp_all)
    consider (plain) "plain_state (ls_state A)" | (pub) "ls_state A = PUB_ARG \<or> ls_state A = MSG_ARG" "buf ! nat i = LF"
      | (arg) "is_arg (ls_state A)" "buf ! nat i = LF \<Longrightarrow> ls_state A \<noteq> PUB_ARG \<and> ls_state A \<noteq> MSG_ARG"
      | (copy) "ls_state A = MSG_PAYLOAD" "ps_msgBuf ps \<noteq> None" "int (length (ls_pay A)) < pa_size (ls_pa A)"
      | (pay) "ls_state A = MSG_PAYLOAD" "ps_msgBuf ps = None \<or> pa_size (ls_pa A) \<le> int (length (ls_pay A))"
      | (fin) "ls_state A = MSG_END"
      unfolding plain_state_def by force
    then show ?thesis
    proof cases
      case plain
      then show ?thesis by (rule one [OF plain_sim [OF less.prems(1,2) _ i]])
    next
      case arg
      then show ?thesis by (rule one [OF arg_sim [OF less.prems(1,2) _ i]])
    next
      case pay
      then show ?thesis by (rule one [OF pay_sim [OF less.prems(1,2) _ i]])
    next
      case copy
      then show ?thesis using copy_sim [OF less.prems(1,2) copy(1) _ copy(3) i IH] by auto
    next
      case fin
      then show ?thesis using less.prems(1) by (simp add: prel_def is_arg_def plain_state_def)
    next
      case pub
      then have s: "is_arg (ls_state A)" by (auto simp: is_arg_def)
      then have r: "arg_rel E buf i ps A" using less.prems(1) by (simp add: prel_def)
      then have p: "ps_state ps = ls_state A" "ps_msgBuf ps = None" "ps_pa ps = ls_pa A" by (auto simp: arg_rel_def)
      have st: "abs_step E me (buf ! nat i) A w = abs_line E me A w"
          "byte_step E me buf i (buf ! nat i) ps a w = arg_line E me i (ls_arg A) ps a w"
        using pub s p arg_value [OF r] by (auto simp: abs_step_def byte_step_def abs_arg_def arg_byte_def is_arg_def)
      from pub_line_sim [OF less.prems(2) pub(1) p i less.prems(5), of E] show ?thesis
      proof (elim disjE exE conjE)
        fix x w' ps'
        assume "abs_line E me A w = AReturn x w'" "arg_line E me i (ls_arg A) ps a w = Return x ps' w'"
        then show ?thesis by (intro one) (simp add: st)
      next
        assume "abs_line E me A w = AUnclean"
        then show ?thesis by (intro one) (simp add: st)
      next
        fix j ps' A' w'
        assume h: "abs_line E me A w = ANext A' w'" "arg_line E me i (ls_arg A) ps a w = Go j ps' a w'"
          and t: "i \<le> j + 1" "j \<le> i + pa_size (ls_pa A')" "prel E buf (i + 1) ps' A'" "ls_state A' = MSG_PAYLOAD" "ls_pay A' = []"
            "ps_msgBuf ps' = None" "ps_as ps' = i + 1" "j + 1 = i \<longrightarrow> pa_size (ls_pa A') = 0" "arel me A' a w'"
        have "loop_sim E me buf (abs_run E me (drop (nat (i + 1)) buf) A' w') (parse_loop E me buf (j + 1) ps' a w')"
          by (rule jump_sim [OF t(3,9,4,5,6,7) i t(1,2,8) IH])
        then show ?thesis using drop_at [OF i] h st loop_go [OF st(2) [unfolded h(2)] i] by simp
      qed
    qed
  qed
qed

end
