(* ===== verification/Parser_Props.thy ===== *)
theory Parser_Props
  imports Parser_Split Server_Props
begin

text \<open>
  Properties of the parser: the result does not depend on how a stream is cut into reads, a
  published frame reaches processMsg as it was written, and the cases in which the parser
  leaves this contract.
\<close>

section \<open>One read\<close>

definition parse_sim :: "penv \<Rightarrow> nat \<Rightarrow> abs_res \<Rightarrow> parse_res \<times> parseState \<times> server \<Rightarrow> bool" where
  "parse_sim E me r res =
     (case r of
        ANext A' w' \<Rightarrow> \<exists>ps'. res = (ParseOk, ps', w') \<and> prel E [] 0 ps' A' \<and> arel me A' (isAuthTimerSet me w') w'
      | AParseErr w' \<Rightarrow> \<exists>x ps'. res = (ParseErr (ErrText x), ps', upd_client me (sendErr ''Unknown Protocol Operation'') w')
      | AAuthErr w' \<Rightarrow> \<exists>ps'. res = (ParseErr ErrAuthorization, ps', authViolation me w')
      | AReturn x w' \<Rightarrow> \<exists>ps'. res = (ParseErr x, ps', w')
      | AUnclean \<Rightarrow> True)"

lemma prel_fresh: "prel E [] 0 ps A \<Longrightarrow> prel E buf 0 ps A"
  using slice_bounds [of "[]" "ps_as ps" 0]
  by (auto simp: prel_def arg_rel_def pay_rel_def Let_def slice_def split: if_splits)

lemma parse_error_sim:
  assumes "0 \<le> i"
  shows "\<exists>x. parse_error E me buf i ps w = (ParseErr (ErrText x), ps, upd_client me (sendErr ''Unknown Protocol Operation'') w)"
proof -
  have "protoSnippet (e_quote E) i buf \<noteq> None"
    using assms by (auto simp: protoSnippet_def slice_def Let_def PROTO_SNIPPET_SIZE_def)
  then obtain snip where "protoSnippet (e_quote E) i buf = Some snip" by blast
  then show ?thesis unfolding parse_error_def Let_def by simp
qed

lemma split_sim:
  assumes rel: "prel E buf (int (length buf)) ps A" and i: "is_arg (ls_state A) \<longrightarrow> i = int (length buf)"
  shows "\<exists>ps'. split_buffer E me buf i ps w = (ParseOk, ps', w) \<and> prel E [] 0 ps' A"
proof (cases "is_arg (ls_state A)")
  case True
  then have r: "arg_rel E buf (int (length buf)) ps A" using rel by (simp add: prel_def)
  have "split_buffer E me buf i ps w = (ParseOk, ps\<lparr>ps_argBuf := Some (ls_arg A)\<rparr>, w)"
    using arg_value [OF r] r True i by (auto simp: split_buffer_def arg_rel_def Let_def)
  moreover have "prel E [] 0 (ps\<lparr>ps_argBuf := Some (ls_arg A)\<rparr>) A" using r True by (auto simp: prel_def arg_rel_def)
  ultimately show ?thesis by blast
next
  case False
  show ?thesis
  proof (cases "ls_state A = MSG_PAYLOAD")
    case F2: False
    then show ?thesis using rel False by (auto simp: prel_def split_buffer_def plain_state_def)
  next
    case True
    then have r: "pay_rel buf (int (length buf)) ps A" using rel False by (simp add: prel_def)
    then have q: "ps_pa ps = ls_pa A" "0 \<le> pa_size (ls_pa A)" "pa_size (ls_pa A) < max_size"
        "int (length (ls_pay A)) \<le> pa_size (ls_pa A) + 1" and st: "ps_state ps = MSG_PAYLOAD \<or> ps_state ps = MSG_END"
      by (auto simp: pay_rel_def Let_def split: if_splits)
    then have na: "\<not> is_arg (ps_state ps)" by (auto simp: is_arg_def)
    show ?thesis
    proof (cases "ps_msgBuf ps")
      case (Some m)
      then have "split_buffer E me buf i ps w = (ParseOk, ps, w)" using na by (simp add: split_buffer_def)
      moreover have "prel E [] 0 ps A" using r Some True by (auto simp: prel_def pay_rel_def is_arg_def Let_def)
      ultimately show ?thesis by blast
    next
      case None
      let ?ps = "if ps_argBuf ps = None then clonePubArg ps else ps"
      have sel: "ps_pa ?ps = ps_pa ps" "ps_as ?ps = ps_as ps" "ps_state ?ps = ps_state ps" by (auto simp: clonePubArg_def Let_def)
      have sl: "slice buf (ps_as ps) (int (length buf)) = Some (ls_pay A)"
        and s: "ps_state ps = (if int (length (ls_pay A)) \<le> pa_size (ls_pa A) then MSG_PAYLOAD else MSG_END)"
        using r None by (auto simp: pay_rel_def Let_def)
      have "save_msg E me buf i ps w = (ParseOk, ?ps\<lparr>ps_msgBuf := Some (ls_pay A)\<rparr>, w)"
        unfolding save_msg_def Let_def sel sl option.case q(1) using q wrap_size [OF q(2,3)] by (auto simp: LEN_CR_LF_def)
      then have "split_buffer E me buf i ps w = (ParseOk, ?ps\<lparr>ps_msgBuf := Some (ls_pay A)\<rparr>, w)"
        using na None st by (auto simp: split_buffer_def)
      moreover have "prel E [] 0 (?ps\<lparr>ps_msgBuf := Some (ls_pay A)\<rparr>) A"
        using q s sel True by (auto simp: prel_def pay_rel_def is_arg_def Let_def)
      ultimately show ?thesis by blast
    qed
  qed
qed

lemma parse_refines:
  assumes "prel E [] 0 ps A" "arel me A (isAuthTimerSet me w) w" "int (length buf) < max_size"
  shows "parse_sim E me (abs_run E me buf A w) (parse E me buf ps w)"
proof -
  have "loop_sim E me buf (abs_run E me buf A w) (parse_loop E me buf 0 ps (isAuthTimerSet me w) w)"
    using loop_refines [OF prel_fresh [OF assms(1)] assms(2) _ _ assms(3)] by simp
  then show ?thesis
  proof (cases "abs_run E me buf A w")
    case (ANext A' w')
    with \<open>loop_sim _ _ _ _ _\<close> obtain i ps' a' where l: "parse_loop E me buf 0 ps (isAuthTimerSet me w) w = Done i ps' w'"
      "is_arg (ls_state A') \<longrightarrow> i = int (length buf)" "prel E buf (int (length buf)) ps' A'" "arel me A' a' w'"
      by (auto simp: loop_sim_def)
    from split_sim [OF l(3,2)] l ANext show ?thesis by (auto simp: parse_sim_def parse_def arel_def)
  next
    case (AParseErr w')
    with \<open>loop_sim _ _ _ _ _\<close> obtain i ps' where "parse_loop E me buf 0 ps (isAuthTimerSet me w) w = OutParseErr i ps' w'" "0 \<le> i"
      by (auto simp: loop_sim_def)
    then show ?thesis using AParseErr parse_error_sim [of i E me buf ps' w'] by (auto simp: parse_sim_def parse_def)
  qed (auto simp: loop_sim_def parse_sim_def parse_def)
qed

section \<open>A sequence of reads\<close>

fun parse_all :: "penv \<Rightarrow> nat \<Rightarrow> bytes list \<Rightarrow> parseState \<Rightarrow> server \<Rightarrow> parse_res \<times> parseState \<times> server" where
  "parse_all E me [] ps w = (ParseOk, ps, w)"
| "parse_all E me (buf # bufs) ps w =
     (case parse E me buf ps w of (ParseOk, ps', w') \<Rightarrow> parse_all E me bufs ps' w' | r \<Rightarrow> r)"

text \<open>The text of a parser error quotes the read buffer, so only its kind is compared.\<close>

fun err_kind :: "parse_res \<Rightarrow> parse_res" where
  "err_kind (ParseErr (ErrText x)) = ParseErr (ErrText [])"
| "err_kind r = r"

definition outcome :: "parse_res \<times> parseState \<times> server \<Rightarrow> parse_res \<times> server" where
  "outcome = (\<lambda>(r, ps, w). (err_kind r, w))"

definition abs_outcome :: "nat \<Rightarrow> abs_res \<Rightarrow> (parse_res \<times> server) option" where
  "abs_outcome me r =
     (case r of
        ANext A w \<Rightarrow> Some (ParseOk, w)
      | AParseErr w \<Rightarrow> Some (ParseErr (ErrText []), upd_client me (sendErr ''Unknown Protocol Operation'') w)
      | AAuthErr w \<Rightarrow> Some (ParseErr ErrAuthorization, authViolation me w)
      | AReturn x w \<Rightarrow> Some (err_kind (ParseErr x), w)
      | AUnclean \<Rightarrow> None)"

lemma parse_all_refines:
  assumes "prel E [] 0 ps A" "arel me A (isAuthTimerSet me w) w" "\<forall>buf \<in> set bufs. int (length buf) < max_size"
    and "abs_run E me (concat bufs) A w \<noteq> AUnclean"
  shows "abs_outcome me (abs_run E me (concat bufs) A w) = Some (outcome (parse_all E me bufs ps w))"
  using assms
proof (induction bufs arbitrary: ps A w)
  case Nil
  then show ?case by (simp add: outcome_def abs_outcome_def)
next
  case (Cons buf bufs)
  have sim: "parse_sim E me (abs_run E me buf A w) (parse E me buf ps w)"
    using Cons.prems by (intro parse_refines) auto
  show ?case
  proof (cases "abs_run E me buf A w")
    case (ANext A' w')
    then obtain ps' where "parse E me buf ps w = (ParseOk, ps', w')" "prel E [] 0 ps' A'" "arel me A' (isAuthTimerSet me w') w'"
      using sim by (auto simp: parse_sim_def)
    then show ?thesis using Cons ANext by (simp add: abs_run_append)
  qed (use sim Cons.prems(4) in \<open>auto simp: abs_run_append parse_sim_def outcome_def abs_outcome_def\<close>)
qed

definition fresh_state :: "pubArg \<Rightarrow> parseState" where
  "fresh_state pa = \<lparr>ps_state = OP_START, ps_as = 0, ps_drop = 0, ps_pa = pa, ps_argBuf = None, ps_msgBuf = None\<rparr>"

definition fresh_line :: "pubArg \<Rightarrow> line_state" where
  "fresh_line pa = \<lparr>ls_state = OP_START, ls_arg = [], ls_cr = False, ls_pay = [], ls_pa = pa\<rparr>"

lemma fresh_rel: "prel E [] 0 (fresh_state pa) (fresh_line pa)"
  by (rule prel_start [OF plain_START]) (simp_all add: fresh_state_def fresh_line_def)

lemma fresh_arel: "heap w me \<noteq> None \<Longrightarrow> arel me (fresh_line pa) (isAuthTimerSet me w) w"
  by (simp add: arel_def fresh_line_def conn_state_def)

definition clean_stream :: "penv \<Rightarrow> nat \<Rightarrow> pubArg \<Rightarrow> server \<Rightarrow> bytes \<Rightarrow> bool" where
  "clean_stream E me pa w s = (case abs_run E me s (fresh_line pa) w of AUnclean \<Rightarrow> False | _ \<Rightarrow> True)"

lemma clean_iff: "clean_stream E me pa w s \<longleftrightarrow> abs_run E me s (fresh_line pa) w \<noteq> AUnclean"
  by (auto simp: clean_stream_def split: abs_res.split)

text \<open>
  (C2) The parser does not see where one read ends and the next begins: for a clean stream on
  a connection, any two ways to cut the stream into reads lead to the same state of the
  server and to the same kind of result.
\<close>

theorem reads_do_not_matter:
  assumes "heap w me \<noteq> None" "concat bs = concat cs" "clean_stream E me pa w (concat bs)"
    and "\<forall>buf \<in> set bs \<union> set cs. int (length buf) < 2 ^ 62"
  shows "outcome (parse_all E me bs (fresh_state pa) w) = outcome (parse_all E me cs (fresh_state pa) w)"
  using parse_all_refines [OF fresh_rel fresh_arel [OF assms(1)], of bs E pa]
    parse_all_refines [OF fresh_rel fresh_arel [OF assms(1)], of cs E pa] assms
  by (simp add: clean_iff max_size_def)

definition demo_penv :: penv where
  "demo_penv = \<lparr>e_unmarshal = (\<lambda>b opts. (True, opts\<lparr>Protocol := 1\<rparr>)), e_bcrypt = (\<lambda>a b. a = b),
     e_quote = id, e_order = id, e_pick = id, e_ev = 0, e_stopped = True,
     e_mcl = 1024, e_info = (\<lambda>_. None), e_lower = id, e_parseURL = Some, e_gen = (\<lambda>_. ''INFO''), e_fwd = (\<lambda>_. ''INFO'')\<rparr>"

definition no_args :: pubArg where
  "no_args = \<lparr>pa_subject = [], pa_reply = None, pa_sid = [], pa_szb = [], pa_size = 0\<rparr>"

theorem reads_do_not_matter_witness:
  "outcome (parse_all demo_penv 1 [''PUB f'', ''oo 2'' @ [CR], [LF] @ ''h'', ''i'' @ [CR, LF]] (fresh_state no_args) demo_client) =
   outcome (parse_all demo_penv 1 [''PUB foo 2'' @ [CR, LF] @ ''hi'' @ [CR, LF]] (fresh_state no_args) demo_client)"
proof -
  let ?bs = "[''PUB f'', ''oo 2'' @ [CR], [LF] @ ''h'', ''i'' @ [CR, LF]]" and ?cs = "[''PUB foo 2'' @ [CR, LF] @ ''hi'' @ [CR, LF]]"
  have h: "heap demo_client 1 \<noteq> None" by code_simp
  have e: "concat ?bs = concat ?cs" by simp
  have "clean_stream demo_penv 1 no_args demo_client (''PUB foo 2'' @ [CR, LF] @ ''hi'' @ [CR, LF])" by code_simp
  moreover have "concat ?bs = ''PUB foo 2'' @ [CR, LF] @ ''hi'' @ [CR, LF]" by simp
  ultimately have c: "clean_stream demo_penv 1 no_args demo_client (concat ?bs)" by (simp only:)
  have l: "\<forall>buf \<in> set ?bs \<union> set ?cs. int (length buf) < 2 ^ 62" by simp
  show ?thesis by (rule reads_do_not_matter [OF h e c l])
qed

section \<open>A published frame\<close>

lemma abs_step_arg: "is_arg (ls_state A) \<Longrightarrow> abs_step E me b A w = abs_arg E me b A w"
  by (auto simp: abs_step_def is_arg_def)

lemma abs_run_arg:
  assumes "is_arg (ls_state A)" "\<not> ls_cr A" "\<forall>x \<in> set xs. x \<noteq> CR \<and> x \<noteq> LF" "int (length (ls_arg A) + length xs) \<le> e_mcl E"
  shows "abs_run E me (xs @ ys) A w = abs_run E me ys (A\<lparr>ls_arg := ls_arg A @ xs\<rparr>) w"
  using assms
proof (induction xs arbitrary: A)
  case (Cons x xs)
  have "x \<noteq> CR" "x \<noteq> LF" and l: "int (length (ls_arg A)) + 1 \<le> e_mcl E" using Cons.prems by auto
  then have "abs_arg E me x A w = ANext (A\<lparr>ls_arg := ls_arg A @ [x]\<rparr>) w" using Cons.prems(2) by (simp add: abs_arg_def)
  then have st: "abs_step E me x A w = ANext (A\<lparr>ls_arg := ls_arg A @ [x]\<rparr>) w" using abs_step_arg [OF Cons.prems(1)] by simp
  have "\<forall>x \<in> set xs. x \<noteq> CR \<and> x \<noteq> LF" using Cons.prems(3) by (meson list.set_intros(2))
  then show ?case using Cons.IH [of "A\<lparr>ls_arg := ls_arg A @ [x]\<rparr>"] Cons.prems(1,2,4) st by simp
qed simp

definition pub_line :: "bytes \<Rightarrow> bytes \<Rightarrow> bytes" where
  "pub_line subj payload = subj @ '' '' @ fmt_d (length payload)"

definition pub_frame :: "bytes \<Rightarrow> bytes \<Rightarrow> bytes" where
  "pub_frame subj payload = ''PUB '' @ pub_line subj payload @ [CR, LF] @ payload @ [CR, LF]"

lemma pub_line_args:
  assumes "subj \<noteq> []" "\<forall>c \<in> set subj. \<not> is_ws c"
  shows "splitArg (pub_line subj payload) = [subj, fmt_d (length payload)]"
proof -
  have "\<forall>c \<in> set (fmt_d (length payload)). \<not> is_ws c" using fmt_d_digits by (fastforce simp: is_ws_def)
  then show ?thesis using splitArg_word_sep [OF assms, of SPC "fmt_d (length payload)"] splitArg_word [OF fmt_d_ne]
    by (simp add: pub_line_def is_ws_def)
qed

lemma processPub_line:
  assumes "subj \<noteq> []" "\<forall>c \<in> set subj. \<not> is_ws c" "int (length payload) < 2 ^ 62"
    and "processPub me (pub_line subj payload) pa w = (None, pa', w')"
  shows "pa_subject pa' = subj" "pa_reply pa' = None" "pa_size pa' = int (length payload)"
proof -
  have "wrap64 (int (length payload)) = int (length payload)" using assms(3) by (intro wrap64_id) (simp add: in_int64_def)
  then have "pub_args (pub_line subj payload) pa =
      Some (pa\<lparr>pa_subject := subj, pa_reply := None, pa_size := int (length payload), pa_szb := fmt_d (length payload)\<rparr>)"
    using pub_line_args [OF assms(1,2), of payload] by (simp add: pub_args_def Let_def parseSize_fmt_d)
  then show "pa_subject pa' = subj" "pa_reply pa' = None" "pa_size pa' = int (length payload)"
    using assms(4) by (auto simp: processPub_def Let_def split: if_splits)
qed

lemma frame_run:
  assumes "\<not> isAuthTimerSet me w" "subj \<noteq> []" "\<forall>c \<in> set subj. \<not> is_ws c" "int (length payload) < 2 ^ 62"
    and "int (length (pub_line subj payload)) \<le> e_mcl E"
    and "processPub me (pub_line subj payload) pa w = (None, pa', w')"
  shows "\<exists>A. abs_run E me (pub_frame subj payload) (fresh_line pa) w = ANext A (processMsg (the_env E) me pa' (payload @ [CR, LF]) w')"
proof -
  obtain b bs where l: "pub_line subj payload = b # bs" and b: "\<not> is_ws b"
    using assms(2,3) by (cases subj) (auto simp: pub_line_def)
  have "\<forall>c \<in> set (pub_line subj payload). c \<noteq> CR \<and> c \<noteq> LF"
    using assms(3) fmt_d_digits by (fastforce simp: pub_line_def is_ws_def)
  then have bs: "\<forall>c \<in> set bs. c \<noteq> CR \<and> c \<noteq> LF" by (simp add: l)
  have len: "int (length bs) + 1 \<le> e_mcl E" using assms(5) by (simp add: l)
  note pa' = processPub_line [OF assms(2-4,6)]
  let ?A1 = "(fresh_line pa)\<lparr>ls_state := PUB_ARG, ls_arg := [b]\<rparr>"
  let ?rest = "[CR, LF] @ payload @ [CR, LF]"
  have 1: "abs_run E me (pub_frame subj payload) (fresh_line pa) w = abs_run E me (bs @ ?rest) ?A1 w"
    unfolding pub_frame_def l using assms(1) b len
    by (simp add: abs_step_def fresh_line_def start_state_def letter_defs arg_after_def on_def on_blank_def is_blank_def is_arg_def is_ws_def)
  have 2: "\<dots> = abs_run E me ?rest (?A1\<lparr>ls_arg := b # bs\<rparr>) w"
    using abs_run_arg [of ?A1 bs E me ?rest w] bs len by (simp add: is_arg_def fresh_line_def)
  let ?A2 = "(fresh_line pa')\<lparr>ls_state := MSG_PAYLOAD\<rparr>"
  have 3: "\<dots> = abs_run E me (payload @ [CR, LF]) ?A2 w'"
    using assms(4,6) pa'(3) by (simp add: abs_step_def abs_arg_def abs_line_def is_arg_def fresh_line_def l max_size_def)
  have 4: "\<dots> = abs_run E me [CR, LF] (?A2\<lparr>ls_pay := payload\<rparr>) w'"
    using abs_run_payload [of ?A2 payload E me "[CR, LF]" w'] pa'(3) by (simp add: fresh_line_def)
  have 5: "\<dots> = ANext (fresh_line pa') (processMsg (the_env E) me pa' (payload @ [CR, LF]) w')"
    using pa'(3) by (simp add: abs_step_def abs_pay_def is_arg_def fresh_line_def)
  show ?thesis using 1 2 3 4 5 by simp
qed

text \<open>
  (C8) Framing round trip: the frame of a published message, cut into reads in any way, makes
  the server process exactly that subject, size and payload, whatever bytes the payload has.
\<close>

theorem frame_delivered:
  assumes "heap w me \<noteq> None" "\<not> isAuthTimerSet me w" "subj \<noteq> []" "\<forall>c \<in> set subj. \<not> is_ws c" "int (length payload) < 2 ^ 62"
    and "int (length (pub_line subj payload)) \<le> e_mcl E"
    and "processPub me (pub_line subj payload) pa w = (None, pa', w')"
    and "concat bufs = pub_frame subj payload" "\<forall>buf \<in> set bufs. int (length buf) < 2 ^ 62"
  shows "outcome (parse_all E me bufs (fresh_state pa) w) = (ParseOk, processMsg (the_env E) me pa' (payload @ [CR, LF]) w') \<and>
    pa_subject pa' = subj \<and> pa_reply pa' = None \<and> pa_size pa' = int (length payload)"
proof -
  obtain A where run: "abs_run E me (concat bufs) (fresh_line pa) w = ANext A (processMsg (the_env E) me pa' (payload @ [CR, LF]) w')"
    using frame_run [OF assms(2-7)] assms(8) by auto
  then show ?thesis
    using parse_all_refines [OF fresh_rel fresh_arel [OF assms(1)], of bufs E pa] assms(9) processPub_line [OF assms(3-5,7)]
    by (simp add: abs_outcome_def max_size_def)
qed

theorem frame_delivered_witness:
  "outcome (parse_all demo_penv 1 [''PUB f'', ''oo 2'' @ [CR], [LF] @ ''h'', ''i'' @ [CR, LF]] (fresh_state no_args) demo_client) =
     (ParseOk, processMsg (the_env demo_penv) 1 (fst (snd (processPub 1 ''foo 2'' no_args demo_client))) (''hi'' @ [CR, LF])
        (snd (snd (processPub 1 ''foo 2'' no_args demo_client)))) \<and>
   pa_subject (fst (snd (processPub 1 ''foo 2'' no_args demo_client))) = ''foo''"
proof -
  let ?r = "processPub 1 ''foo 2'' no_args demo_client"
  have l: "pub_line ''foo'' ''hi'' = ''foo 2''" by code_simp
  have h: "heap demo_client 1 \<noteq> None" "\<not> isAuthTimerSet 1 demo_client" "\<forall>c \<in> set ''foo''. \<not> is_ws c" "fst ?r = None" by code_simp+
  from h(4) have r: "processPub 1 (pub_line ''foo'' ''hi'') no_args demo_client = (None, fst (snd ?r), snd (snd ?r))"
    unfolding l by (metis prod.collapse)
  have mcl: "int (length (pub_line ''foo'' ''hi'')) \<le> e_mcl demo_penv" unfolding l by (simp add: demo_penv_def)
  have f: "concat [''PUB f'', ''oo 2'' @ [CR], [LF] @ ''h'', ''i'' @ [CR, LF]] = pub_frame ''foo'' ''hi''"
    by (simp add: pub_frame_def l)
  show ?thesis
    using frame_delivered [OF h(1,2) _ h(3) _ mcl r f] by simp
qed

section \<open>Where reads do matter\<close>

text \<open>
  A carriage return inside an argument is not handled alike in one read and in two: in one
  read the parser cuts the last byte off the argument, so the subscription gets another sid.
\<close>

theorem stray_return_depends_on_reads:
  "map fst (subs (the_client 1 (snd (snd (parse_all demo_penv 1 [''SUB a'' @ [CR] @ '' 12'' @ [LF]] (fresh_state no_args) demo_client))))) = [''1''] \<and>
   map fst (subs (the_client 1 (snd (snd (parse_all demo_penv 1 [''SUB a'' @ [CR], '' 12'' @ [LF]] (fresh_state no_args) demo_client))))) = [''12'']"
  by code_simp


section \<open>The read buffer\<close>

text \<open>
  The read loop keeps the size of its buffer between the two limits, whatever sizes the
  reads have, starting from the initial size.
\<close>

theorem buffer_size_bounded:
  assumes "n \<le> len" "minBufSize \<le> len" "len \<le> maxBufSize" "\<exists>k. len = 2 ^ k"
  shows "minBufSize \<le> resize n len \<and> resize n len \<le> maxBufSize \<and> (\<exists>k. resize n len = 2 ^ k)"
proof -
  from assms(4) obtain k where k: "len = 2 ^ k" ..
  have b: "(2::nat) ^ 7 \<le> 2 ^ k" "(2::nat) ^ k \<le> 2 ^ 16" using assms(2,3) k by (simp_all add: minBufSize_def maxBufSize_def)
  then have b': "7 \<le> k" "k \<le> 16" by (simp_all only: power_increasing_iff one_less_numeral_iff semiring_norm)
  consider (grow) "n = len" "len < maxBufSize" | (shrink) "\<not> (n = len \<and> len < maxBufSize)" "n < len div 2" "minBufSize < len"
    | (same) "\<not> (n = len \<and> len < maxBufSize)" "\<not> (n < len div 2 \<and> minBufSize < len)" by blast
  then show ?thesis
  proof cases
    case grow
    then have "resize n len = 2 ^ Suc k" by (simp add: resize_def k)
    moreover from grow have "(2::nat) ^ k < 2 ^ 16" by (simp add: k maxBufSize_def)
    then have "Suc k \<le> 16" by (simp only: power_strict_increasing_iff one_less_numeral_iff semiring_norm Suc_le_eq)
    then have "(2::nat) ^ Suc k \<le> 2 ^ 16" by (intro power_increasing) simp_all
    moreover have "(2::nat) ^ 7 \<le> 2 ^ Suc k" using b' by (intro power_increasing) simp_all
    ultimately show ?thesis by (auto simp: minBufSize_def maxBufSize_def simp del: power_Suc intro: exI [of _ "Suc k"])
  next
    case shrink
    from shrink(3) have "(2::nat) ^ 7 < 2 ^ k" by (simp add: k minBufSize_def)
    then have "7 < k" by (simp only: power_strict_increasing_iff one_less_numeral_iff semiring_norm)
    then obtain j where j: "k = Suc j" "7 \<le> j" by (cases k) auto
    have "resize n len = 2 ^ j" using shrink by (simp add: resize_def Let_def k j)
    moreover have "(2::nat) ^ 7 \<le> 2 ^ j" "(2::nat) ^ j \<le> 2 ^ 16" using j b' by (intro power_increasing; simp)+
    ultimately show ?thesis by (auto simp: minBufSize_def maxBufSize_def)
  next
    case same
    then have "resize n len = 2 ^ k" by (auto simp: resize_def Let_def k)
    then show ?thesis using b by (auto simp: minBufSize_def maxBufSize_def)
  qed
qed

theorem buffer_size_bounded_witness:
  "minBufSize \<le> resize 512 startBufSize \<and> resize 512 startBufSize \<le> maxBufSize \<and> (\<exists>k. resize 512 startBufSize = 2 ^ k)"
proof -
  have "\<exists>k. startBufSize = 2 ^ k" by (rule exI [of _ 9]) (simp add: startBufSize_def)
  then show ?thesis using buffer_size_bounded [of 512 startBufSize] by (simp add: startBufSize_def minBufSize_def maxBufSize_def)
qed

end
