(* ===== verification/Parser_Safe.thy ===== *)
theory Parser_Safe
  imports Parser_Props
begin

text \<open>
  No bytes of a client make the parser leave its buffers: every slice expression is in range
  and no index overflows, for arbitrary input, clean or not.
\<close>

definition client_ok :: "nat \<Rightarrow> int \<Rightarrow> server \<Rightarrow> bool" where
  "client_ok me B w \<longleftrightarrow> (\<exists>c. heap w me = Some c \<and> ctyp c = CLIENT \<and> 0 < mpay c \<and> mpay c \<le> B)"

definition route_state :: "pstate \<Rightarrow> bool" where
  "route_state s \<longleftrightarrow> s = OP_M \<or> s = OP_MS \<or> s = OP_MSG \<or> s = OP_MSG_SPC \<or> s = MSG_ARG"

definition pok :: "bytes \<Rightarrow> int \<Rightarrow> parseState \<Rightarrow> bool" where
  "pok buf i ps \<longleftrightarrow> \<not> route_state (ps_state ps) \<and> (ps_drop ps = 0 \<or> ps_drop ps = 1) \<and>
     (is_arg (ps_state ps) \<longrightarrow> i \<le> int (length buf) \<and> (ps_argBuf ps = None \<longrightarrow> 0 \<le> ps_as ps \<and> ps_as ps < i)) \<and>
     (ps_state ps = MSG_PAYLOAD \<longrightarrow> ps_msgBuf ps = None \<longrightarrow> 0 \<le> ps_as ps \<and> ps_as ps \<le> int (length buf) \<and> 0 \<le> pa_size (ps_pa ps)) \<and>
     (ps_state ps = MSG_END \<longrightarrow> ps_msgBuf ps = None \<longrightarrow> 0 \<le> ps_as ps \<and> ps_as ps < i \<and> ps_as ps \<le> int (length buf))"

lemma client_ok_keeps: "client_ok me B w \<Longrightarrow> mkeeps w w' \<Longrightarrow> client_ok me B w'"
  unfolding client_ok_def mkeeps_def mrel_def by metis

lemma pok_plain: "plain_state (ps_state ps) \<Longrightarrow> \<not> route_state (ps_state ps) \<Longrightarrow> ps_drop ps = 0 \<or> ps_drop ps = 1 \<Longrightarrow> pok buf i ps"
  by (auto simp: pok_def plain_state_def)

lemma not_route [simp]: "\<not> route_state OP_START" "\<not> route_state MSG_PAYLOAD" "\<not> route_state MSG_END"
  by (simp_all add: route_state_def)

lemma start_client: "start_state True b = Some s \<Longrightarrow> \<not> route_state s"
  by (auto simp: start_state_def route_state_def split: if_splits)

lemma letter_client: "letter s = Some f \<Longrightarrow> f b = Some s' \<Longrightarrow> \<not> route_state s \<Longrightarrow> \<not> route_state s'"
  by (cases s) (auto simp: letter_defs on_def on_blank_def route_state_def split: if_splits)

lemma arg_after_client: "arg_after s = Some s' \<Longrightarrow> \<not> route_state s \<Longrightarrow> \<not> route_state s'"
  by (cases s) (auto simp: arg_after_def route_state_def)

lemma processPub_limit:
  assumes "processPub me arg pa w = (None, pa', w')" "client_ok me B w"
  shows "pa_size pa' \<le> B"
  using assms by (auto simp: processPub_def client_ok_def the_client_def Let_def split: option.splits if_splits)

definition step_safe :: "nat \<Rightarrow> int \<Rightarrow> bytes \<Rightarrow> step_res \<Rightarrow> bool" where
  "step_safe me B buf r =
     (case r of Go j ps' a' w' \<Rightarrow> pok buf (j + 1) ps' \<and> client_ok me B w' | Panicked \<Rightarrow> False | _ \<Rightarrow> True)"

lemma line_safe:
  assumes ok: "pok buf i ps" "client_ok me B w" "B < 2 ^ 62" and s: "is_arg (ps_state ps)"
    and i: "0 \<le> i" "i < int (length buf)" "int (length buf) < 2 ^ 62"
  shows "step_safe me B buf (arg_line E me i arg ps a w)"
proof -
  obtain c where c: "heap w me = Some c" using ok(2) by (auto simp: client_ok_def)
  have st: "pok buf k (ps\<lparr>ps_argBuf := None, ps_drop := 0, ps_state := OP_START\<rparr>)"
      "pok buf k (ps\<lparr>ps_argBuf := None, ps_drop := 0, ps_as := l, ps_state := OP_START\<rparr>)" for k l
    by (rule pok_plain; simp)+
  have nr: "ps_state ps \<noteq> MSG_ARG" using ok(1) by (auto simp: pok_def route_state_def)
  note keep = client_ok_keeps [OF ok(2)]
  consider (sub) "ps_state ps = SUB_ARG" | (unsub) "ps_state ps = UNSUB_ARG" | (info) "ps_state ps = INFO_ARG"
    | (err) "ps_state ps = MINUS_ERR_ARG" | (conn) "ps_state ps = CONNECT_ARG" | (pub) "ps_state ps = PUB_ARG"
    using s nr by (auto simp: is_arg_def)
  then show ?thesis
  proof cases
    case sub
    obtain e w' where r: "processSub (the_env E) me arg w = (e, w')" by fastforce
    then show ?thesis using sub st keep mkeeps_processSub [OF c, of "the_env E" arg]
      by (cases e) (simp_all add: arg_line_defs step_safe_def)
  next
    case unsub
    obtain e w' where r: "processUnsub me arg w = (e, w')" by fastforce
    then show ?thesis using unsub st keep mkeeps_processUnsub [of w me arg]
      by (cases e) (simp_all add: arg_line_defs step_safe_def)
  next
    case info
    obtain e w' where r: "processInfo E me arg w = (e, w')" by fastforce
    then show ?thesis using info st keep mkeeps_processInfo [of w E me arg]
      by (cases e) (simp_all add: arg_line_defs step_safe_def)
  next
    case err
    then show ?thesis using st keep mkeeps_processErr [of w me arg] by (simp add: arg_line_defs step_safe_def)
  next
    case conn
    obtain e w' where r: "processConnect (the_env E) me arg w = (e, w')" by fastforce
    then show ?thesis using conn st keep mkeeps_processConnect(1) [OF c, of "the_env E" arg]
      by (cases e) (simp_all add: arg_line_defs step_safe_def)
  next
    case pub
    obtain e pa w' where r: "processPub me arg (ps_pa ps) w = (e, pa, w')" by (metis prod_cases3)
    have ok': "client_ok me B w'" using keep mkeeps_processPub [of w me arg "ps_pa ps"] r by simp
    show ?thesis
    proof (cases e)
      case None
      note sz = processPub_size [OF r [unfolded None]] processPub_limit [OF r [unfolded None] ok(2)]
      have "pok buf k (ps\<lparr>ps_pa := pa, ps_drop := 0, ps_as := i + 1, ps_state := MSG_PAYLOAD\<rparr>)" for k
        using i sz by (simp add: pok_def is_arg_def)
      then show ?thesis using pub r None ok' sz i ok(3) by (simp add: arg_line_defs step_safe_def jump_def Let_def LEN_CR_LF_def)
    next
      case (Some x)
      then show ?thesis using pub r by (simp add: arg_line_defs step_safe_def)
    qed
  qed
qed

lemma step_safe_all:
  assumes ok: "pok buf i ps" "client_ok me B w" "B < 2 ^ 62"
    and i: "0 \<le> i" "i < int (length buf)" "int (length buf) < 2 ^ 62"
  shows "step_safe me B buf (byte_step E me buf i b ps a w)"
proof -
  obtain c where c: "heap w me = Some c" "ctyp c = CLIENT" using ok(2) by (auto simp: client_ok_def)
  have d: "ps_drop ps = 0 \<or> ps_drop ps = 1" and nr: "\<not> route_state (ps_state ps)" using ok(1) by (auto simp: pok_def)
  have go: "step_safe me B buf (Go i (ps\<lparr>ps_state := s'\<rparr>) a w)" if "plain_state s'" "\<not> route_state s'" for s'
    using that d ok(2) by (simp add: step_safe_def pok_plain)
  have fin: "step_safe me B buf (Go i (ps\<lparr>ps_drop := 0, ps_state := OP_START\<rparr>) a w')" if "mkeeps w w'" for w'
    using client_ok_keeps [OF ok(2) that] by (simp add: step_safe_def pok_plain)
  consider (start) "ps_state ps = OP_START" | (ping) "ps_state ps = OP_PING" | (pong) "ps_state ps = OP_PONG"
    | (plus) "ps_state ps = OP_PLUS_OK" | (pay) "ps_state ps = MSG_PAYLOAD" | (fin) "ps_state ps = MSG_END" | (arg) "is_arg (ps_state ps)"
    | (other) "plain_state (ps_state ps)" "ps_state ps \<noteq> OP_START" "ps_state ps \<noteq> OP_PING" "ps_state ps \<noteq> OP_PONG" "ps_state ps \<noteq> OP_PLUS_OK"
    unfolding plain_state_def by blast
  then show ?thesis
  proof cases
    case start
    have "the_client me w = c" using c by (simp add: the_client_def)
    then have eq: "byte_step E me buf i b ps a w =
        (if b \<noteq> CHR ''C'' \<and> b \<noteq> CHR ''c'' \<and> a then GotoAuthErr ps w
         else case start_state True b of Some s' \<Rightarrow> Go i (ps\<lparr>ps_state := s'\<rparr>) a w | None \<Rightarrow> GotoParseErr ps w)"
      using start c by (simp add: byte_step_def)
    show ?thesis
    proof (cases "start_state True b")
      case (Some s')
      then show ?thesis unfolding eq using go [OF start_plain [OF Some] start_client [OF Some]] by (simp add: step_safe_def)
    qed (simp add: eq step_safe_def)
  next
    case ping
    then show ?thesis using fin [OF mkeeps_processPing [OF c(1)]] ok d nr
      by (auto simp: byte_step_def step_safe_def is_arg_def plain_state_def intro!: pok_plain)
  next
    case pong
    then show ?thesis using fin [OF mkeeps_processPong] ok d nr
      by (auto simp: byte_step_def step_safe_def is_arg_def plain_state_def intro!: pok_plain)
  next
    case plus
    then show ?thesis using fin [OF mkeeps_refl] ok d nr
      by (auto simp: byte_step_def step_safe_def is_arg_def plain_state_def intro!: pok_plain)
  next
    case pay
    have "step_safe me B buf (payload_byte buf i b ps a w)"
      using pay ok i d by (auto simp: payload_byte_def step_safe_def pok_def is_arg_def Let_def split: option.split)
    then show ?thesis using pay by (simp add: byte_step_def)
  next
    case fin
    have "client_ok me B (processMsg (the_env E) me (ps_pa ps) m w)" for m by (rule client_ok_keeps [OF ok(2) mkeeps_processMsg [OF c(1)]])
    moreover have "slice buf (ps_as ps) (i + 1) \<noteq> None" if "ps_msgBuf ps = None" using that fin ok(1) i by (auto simp: pok_def slice_def)
    ultimately have "step_safe me B buf (end_byte E me buf i b ps a w)"
      using fin ok d i by (auto simp: end_byte_def step_safe_def pok_def is_arg_def split: option.split)
    then show ?thesis using fin by (simp add: byte_step_def)
  next
    case arg
    then have st: "byte_step E me buf i b ps a w = arg_byte E me buf i b ps a w" by (auto simp: byte_step_def is_arg_def)
    have np: "ps_state ps \<noteq> MSG_PAYLOAD" "ps_state ps \<noteq> MSG_END" using arg by (auto simp: is_arg_def)
    have as: "0 \<le> ps_as ps \<and> ps_as ps < i" if "ps_argBuf ps = None" using that arg ok(1) by (simp add: pok_def)
    have sl: "slice buf (ps_as ps) (i - ps_drop ps) \<noteq> None" if "ps_argBuf ps = None"
      using as [OF that] i d by (auto simp: slice_def)
    have "pok buf (i + 1) (ps\<lparr>ps_drop := 1\<rparr>)" "pok buf (i + 1) (ps\<lparr>ps_argBuf := map_option (\<lambda>a. a @ [b]) (ps_argBuf ps)\<rparr>)"
      using as arg np i nr d by (auto simp: pok_def)
    then have go: "step_safe me B buf (Go i (ps\<lparr>ps_drop := 1\<rparr>) a w)"
        "step_safe me B buf (Go i (ps\<lparr>ps_argBuf := map_option (\<lambda>a. a @ [b]) (ps_argBuf ps)\<rparr>) a w)"
      using ok(2) by (simp_all add: step_safe_def)
    show ?thesis
    proof (cases "ps_argBuf ps")
      case None
      then obtain y where "slice buf (ps_as ps) (i - ps_drop ps) = Some y" using sl by blast
      then show ?thesis unfolding st arg_byte_def using None go line_safe [OF ok arg i] by simp
    next
      case (Some y)
      then show ?thesis unfolding st arg_byte_def using go line_safe [OF ok arg i] by simp
    qed
  next
    case other
    then have na: "\<not> is_arg (ps_state ps)" "ps_state ps \<noteq> MSG_PAYLOAD" "ps_state ps \<noteq> MSG_END" by (auto simp: plain_state_def)
    have "pok buf (i + 1) (ps\<lparr>ps_state := s', ps_as := i\<rparr>)" if "arg_after (ps_state ps) = Some s'" for s'
    proof -
      have "s' \<noteq> MSG_PAYLOAD" "s' \<noteq> MSG_END" using arg_after_arg [OF that] by (auto simp: is_arg_def)
      then show ?thesis using arg_after_client [OF that nr] d i by (simp add: pok_def)
    qed
    then have af: "step_safe me B buf (Go i (ps\<lparr>ps_state := s', ps_as := i\<rparr>) a w)" if "arg_after (ps_state ps) = Some s'" for s'
      using that ok(2) by (simp add: step_safe_def)
    have stay: "step_safe me B buf (Go i ps a w)" using pok_plain [OF other(1) nr d] ok(2) by (simp add: step_safe_def)
    have lt: "step_safe me B buf (case f b of Some s' \<Rightarrow> Go i (ps\<lparr>ps_state := s'\<rparr>) a w | None \<Rightarrow> GotoParseErr ps w)"
      if "letter (ps_state ps) = Some f" for f
      using go letter_plain [OF that] letter_client [OF that _ nr] by (cases "f b") (auto simp: step_safe_def ok(2))
    have pe: "step_safe me B buf (GotoParseErr ps w)" by (simp add: step_safe_def)
    show ?thesis
      by (cases "arg_after (ps_state ps)"; cases "letter (ps_state ps)")
        (use other na af stay lt pe in \<open>simp_all add: byte_step_def Let_def\<close>)
  qed
qed

section \<open>The loop and the end of a read\<close>

definition out_safe :: "nat \<Rightarrow> int \<Rightarrow> bytes \<Rightarrow> loop_out \<Rightarrow> bool" where
  "out_safe me B buf r =
     (case r of Done j ps' w' \<Rightarrow> int (length buf) \<le> j \<and> pok buf j ps' \<and> client_ok me B w'
      | OutParseErr j ps' w' \<Rightarrow> 0 \<le> j | OutPanic \<Rightarrow> False | _ \<Rightarrow> True)"

lemma loop_safe:
  assumes "pok buf i ps" "client_ok me B w" "B < 2 ^ 62" "0 \<le> i" "int (length buf) < 2 ^ 62"
  shows "out_safe me B buf (parse_loop E me buf i ps a w)"
  using assms
proof (induction E me buf i ps a w rule: parse_loop.induct)
  case (1 E me buf i ps a w)
  show ?case
  proof (cases "i < int (length buf)")
    case True
    have ss: "step_safe me B buf (byte_step E me buf i (buf ! nat i) ps a w)"
      using "1.prems" True by (intro step_safe_all)
    show ?thesis
    proof (cases "byte_step E me buf i (buf ! nat i) ps a w")
      case (Go j ps' a' w')
      have "i \<le> j + 1" using byte_step_progress [OF Go] "1.prems" True by auto
      moreover have "pok buf (j + 1) ps'" "client_ok me B w'" using ss Go by (simp_all add: step_safe_def)
      ultimately have "out_safe me B buf (parse_loop E me buf (j + 1) ps' a' w')"
        using "1.IH" [OF True _ Go] "1.prems" by auto
      then show ?thesis using True Go "1.prems" by (subst parse_loop.simps) simp
    qed (use ss True "1.prems" in \<open>auto simp: step_safe_def out_safe_def parse_loop.simps [of E me buf i]\<close>)
  next
    case False
    then show ?thesis using "1.prems" by (subst parse_loop.simps) (simp add: out_safe_def)
  qed
qed

definition parse_safe :: "nat \<Rightarrow> int \<Rightarrow> parse_res \<times> parseState \<times> server \<Rightarrow> bool" where
  "parse_safe me B r = (case r of (ParseOk, ps', w') \<Rightarrow> pok [] 0 ps' \<and> client_ok me B w'
     | (ParseErr x, ps', w') \<Rightarrow> True | (ParsePanic, ps', w') \<Rightarrow> False)"

lemma parse_error_safe: "0 \<le> i \<Longrightarrow> parse_safe me B (parse_error E me buf i ps w)"
  using parse_error_sim [of i E me buf ps w] by (auto simp: parse_safe_def)

lemma saved_pok:
  "\<not> route_state (ps_state ps) \<Longrightarrow> ps_drop ps = 0 \<or> ps_drop ps = 1 \<Longrightarrow> (is_arg (ps_state ps) \<Longrightarrow> ps_argBuf ps \<noteq> None) \<Longrightarrow>
   (ps_state ps = MSG_PAYLOAD \<or> ps_state ps = MSG_END \<Longrightarrow> ps_msgBuf ps \<noteq> None) \<Longrightarrow> pok [] 0 ps"
  by (auto simp: pok_def)

lemma split_safe:
  assumes "pok buf i ps" "client_ok me B w" "int (length buf) \<le> i"
  shows "parse_safe me B (split_buffer E me buf i ps w)"
proof -
  have d: "ps_drop ps = 0 \<or> ps_drop ps = 1" and nr: "\<not> route_state (ps_state ps)" using assms(1) by (auto simp: pok_def)
  consider (arg) "is_arg (ps_state ps)" | (pay) "ps_state ps = MSG_PAYLOAD \<or> ps_state ps = MSG_END" "ps_msgBuf ps = None"
    | (other) "\<not> is_arg (ps_state ps)" "\<not> ((ps_state ps = MSG_PAYLOAD \<or> ps_state ps = MSG_END) \<and> ps_msgBuf ps = None)" by argo
  then show ?thesis
  proof cases
    case arg
    then have np: "ps_state ps \<noteq> MSG_PAYLOAD" "ps_state ps \<noteq> MSG_END" by (auto simp: is_arg_def)
    have "(case ps_argBuf ps of Some a \<Rightarrow> Some a | None \<Rightarrow> slice buf (ps_as ps) (i - ps_drop ps)) \<noteq> None"
      using assms(1,3) arg d by (auto simp: pok_def slice_def split: option.split)
    then obtain y where y: "(case ps_argBuf ps of Some a \<Rightarrow> Some a | None \<Rightarrow> slice buf (ps_as ps) (i - ps_drop ps)) = Some y" by blast
    have "pok [] 0 (ps\<lparr>ps_argBuf := Some y\<rparr>)" by (rule saved_pok) (use d nr np in simp_all)
    then show ?thesis using arg y assms(2) by (simp add: split_buffer_def parse_safe_def Let_def)
  next
    case pay
    then have na: "\<not> is_arg (ps_state ps)" by (auto simp: is_arg_def)
    let ?ps = "if ps_argBuf ps = None then clonePubArg ps else ps"
    have sel: "ps_as ?ps = ps_as ps" "ps_state ?ps = ps_state ps" "ps_drop ?ps = ps_drop ps" by (auto simp: clonePubArg_def Let_def)
    have "slice buf (ps_as ps) (int (length buf)) \<noteq> None" using assms(1) pay by (auto simp: pok_def slice_def)
    then obtain y where y: "slice buf (ps_as ps) (int (length buf)) = Some y" by blast
    have ok: "pok [] 0 (?ps\<lparr>ps_msgBuf := Some y\<rparr>)" by (rule saved_pok) (use d nr na sel in auto)
    have pe: "parse_safe me B (parse_error E me buf i ?ps w)" using assms(3) by (intro parse_error_safe) simp
    have "parse_safe me B (save_msg E me buf i ps w)"
      unfolding save_msg_def Let_def sel(1) y option.case using ok pe assms(2) by (auto simp: parse_safe_def)
    then show ?thesis using pay na by (auto simp: split_buffer_def)
  next
    case other
    then have "pok [] 0 ps" using d nr by (intro saved_pok) auto
    then show ?thesis using other assms(2) by (auto simp: split_buffer_def parse_safe_def)
  qed
qed

lemma parse_is_safe:
  assumes "pok [] 0 ps" "client_ok me B w" "B < 2 ^ 62" "int (length buf) < 2 ^ 62"
  shows "parse_safe me B (parse E me buf ps w)"
proof -
  have "pok buf 0 ps" using assms(1) by (auto simp: pok_def)
  then have "out_safe me B buf (parse_loop E me buf 0 ps (isAuthTimerSet me w) w)" using assms by (intro loop_safe) auto
  then show ?thesis using split_safe parse_error_safe
    by (cases "parse_loop E me buf 0 ps (isAuthTimerSet me w) w") (auto simp: parse_def out_safe_def parse_safe_def)
qed



end
