(* ===== verification/Conf_Lex.thy ===== *)
theory Conf_Lex
  imports Proto_Args
begin

text \<open>
  The lexer of configuration files (src/conf/lex.go): a state machine whose states are
  functions. Here a state is a value of \<open>stateFn\<close>, and \<open>run_state\<close> is the function it stands for.
  Positions are byte positions; characters are Unicode code points, decoded as the Go library
  does. The decimal digits beyond Latin-1 depend on the version of the library and are the
  argument \<open>ud\<close>.
\<close>

section \<open>Runes\<close>

type_synonym rune = nat

abbreviation byte_at :: "bytes \<Rightarrow> nat \<Rightarrow> nat" where
  "byte_at s i \<equiv> of_char (s ! i)"

definition cont :: "nat \<Rightarrow> bool" where
  "cont b \<longleftrightarrow> 0x80 \<le> b \<and> b \<le> 0xBF"

text \<open>The decoder of the library: an invalid sequence is the replacement character of width one.\<close>

definition DecodeRune :: "bytes \<Rightarrow> rune \<times> nat" where
  "DecodeRune s =
     (if s = [] then (0xFFFD, 0)
      else
        let n = length s; b0 = byte_at s 0; bad = (0xFFFD, 1) in
        if b0 < 0x80 then (b0, 1)
        else if 0xC2 \<le> b0 \<and> b0 \<le> 0xDF then
          (if 2 \<le> n \<and> cont (byte_at s 1) then ((b0 - 0xC0) * 64 + (byte_at s 1 - 0x80), 2) else bad)
        else if 0xE0 \<le> b0 \<and> b0 \<le> 0xEF then
          (if 3 \<le> n \<and> cont (byte_at s 1) \<and> cont (byte_at s 2) \<and> (b0 = 0xE0 \<longrightarrow> 0xA0 \<le> byte_at s 1) \<and> (b0 = 0xED \<longrightarrow> byte_at s 1 \<le> 0x9F)
           then ((b0 - 0xE0) * 4096 + (byte_at s 1 - 0x80) * 64 + (byte_at s 2 - 0x80), 3) else bad)
        else if 0xF0 \<le> b0 \<and> b0 \<le> 0xF4 then
          (if 4 \<le> n \<and> cont (byte_at s 1) \<and> cont (byte_at s 2) \<and> cont (byte_at s 3) \<and>
              (b0 = 0xF0 \<longrightarrow> 0x90 \<le> byte_at s 1) \<and> (b0 = 0xF4 \<longrightarrow> byte_at s 1 \<le> 0x8F)
           then ((b0 - 0xF0) * 262144 + (byte_at s 1 - 0x80) * 4096 + (byte_at s 2 - 0x80) * 64 + (byte_at s 3 - 0x80), 4) else bad)
        else bad)"

definition rune_string :: "rune \<Rightarrow> bytes" where
  "rune_string r =
     (if r < 0x80 then [char_of r]
      else if r < 0x800 then [char_of (0xC0 + r div 64), char_of (0x80 + r mod 64)]
      else if r < 0x10000 then [char_of (0xE0 + r div 4096), char_of (0x80 + r div 64 mod 64), char_of (0x80 + r mod 64)]
      else [char_of (0xF0 + r div 262144), char_of (0x80 + r div 4096 mod 64), char_of (0x80 + r div 64 mod 64), char_of (0x80 + r mod 64)])"

abbreviation ch :: "char \<Rightarrow> rune" where
  "ch c \<equiv> of_char c"

definition IsSpace :: "rune \<Rightarrow> bool" where
  "IsSpace r \<longleftrightarrow> 9 \<le> r \<and> r \<le> 13 \<or> r \<in> {0x20, 0x85, 0xA0, 0x1680, 0x2028, 0x2029, 0x202F, 0x205F, 0x3000} \<or> 0x2000 \<le> r \<and> r \<le> 0x200A"

definition IsDigit :: "(rune \<Rightarrow> bool) \<Rightarrow> rune \<Rightarrow> bool" where
  "IsDigit ud r = (if r < 256 then 48 \<le> r \<and> r \<le> 57 else ud r)"

text \<open>
  Lower case as far as a comparison with an ASCII word can see it: besides the capital letters,
  U+0130 and U+212A have an ASCII lower case, and no other character has.
\<close>

fun ToLower :: "bytes \<Rightarrow> bytes" where
  "ToLower [] = []"
| "ToLower (c # cs) =
     (if 65 \<le> (of_char c :: nat) \<and> (of_char c :: nat) \<le> 90 then char_of (of_char c + 32 :: nat) # ToLower cs
      else if c = CHR 0xC4 \<and> take 1 cs = [CHR 0xB0] then CHR ''i'' # ToLower (drop 1 cs)
      else if c = CHR 0xE2 \<and> take 2 cs = [CHR 0x84, CHR 0xAA] then CHR ''k'' # ToLower (drop 2 cs)
      else c # ToLower cs)"

definition isNumberSuffix :: "rune \<Rightarrow> bool" where
  "isNumberSuffix r \<longleftrightarrow> r = ch (CHR ''k'') \<or> r = ch (CHR ''K'') \<or> r = ch (CHR ''m'') \<or> r = ch (CHR ''M'') \<or>
     r = ch (CHR ''g'') \<or> r = ch (CHR ''G'')"

definition isKeySeparator :: "rune \<Rightarrow> bool" where
  "isKeySeparator r \<longleftrightarrow> r = ch (CHR ''='') \<or> r = ch (CHR '':'')"

definition isWhitespace :: "rune \<Rightarrow> bool" where
  "isWhitespace r \<longleftrightarrow> r = 9 \<or> r = 32"

definition isNL :: "rune \<Rightarrow> bool" where
  "isNL r \<longleftrightarrow> r = 10 \<or> r = 13"

definition isHexadecimal :: "rune \<Rightarrow> bool" where
  "isHexadecimal r \<longleftrightarrow> 48 \<le> r \<and> r \<le> 57 \<or> 97 \<le> r \<and> r \<le> 102 \<or> 65 \<le> r \<and> r \<le> 70"

definition escapeSpecial :: "rune \<Rightarrow> bytes" where
  "escapeSpecial c = (if c = 10 then [CHR 0x5C, CHR ''n''] else rune_string c)"

section \<open>Items, states and the lexer\<close>

datatype (plugins only: code) itemType = itemError | itemNIL | itemEOF | itemKey | itemText | itemString | itemBool | itemInteger
  | itemFloat | itemDatetime | itemArrayStart | itemArrayEnd | itemMapStart | itemMapEnd | itemCommentStart
  | itemVariable | itemInclude

record item =
  i_typ :: itemType
  i_val :: bytes
  i_line :: int

datatype (plugins only: code size) stateFn =
    Top | TopValueEnd | KeyStart | DubQuotedKey | QuotedKey | IncludeStart | IncludeQuotedString
  | IncludeDubQuotedString | IncludeString | Include | Key | KeyEnd | Value | ArrayValue | ArrayValueEnd
  | ArrayEnd | MapKeyStart | MapQuotedKey | MapDubQuotedKey | MapKey | MapKeyEnd | MapValue | MapValueEnd
  | MapEnd | QuotedString | DubQuotedString | String | Block | StringEscape | StringBinary
  | NumberOrDateOrIPStart | NumberOrDateOrIP | ConvenientNumber | DateAfterYear | NegNumberStart
  | NegNumber | FloatStart | Float | IPAddr | CommentStart | Comment | Skip stateFn

record lexer =
  lx_input :: bytes
  lx_start :: nat
  lx_pos :: nat
  lx_width :: nat
  lx_line :: int
  lx_items :: "item list"
  lx_stack :: "stateFn list"

text \<open>A state function returns the next state, returns nil, or panics.\<close>

datatype lexres = To stateFn lexer | Halt lexer | LexPanic

definition lex :: "bytes \<Rightarrow> stateFn \<times> lexer" where
  "lex inp = (Top, \<lparr>lx_input = inp, lx_start = 0, lx_pos = 0, lx_width = 0, lx_line = 1, lx_items = [], lx_stack = []\<rparr>)"

definition push :: "stateFn \<Rightarrow> lexer \<Rightarrow> lexer" where
  "push s lx = lx\<lparr>lx_stack := s # lx_stack lx\<rparr>"

definition errorf :: "bytes \<Rightarrow> lexer \<Rightarrow> lexres" where
  "errorf msg lx = Halt (lx\<lparr>lx_items := lx_items lx @ [\<lparr>i_typ = itemError, i_val = msg, i_line = lx_line lx\<rparr>]\<rparr>)"

definition pop :: "lexer \<Rightarrow> lexres" where
  "pop lx = (case lx_stack lx of [] \<Rightarrow> errorf ''BUG in lexer: no states to pop.'' lx
     | s # ss \<Rightarrow> To s (lx\<lparr>lx_stack := ss\<rparr>))"

text \<open>The pending text; \<open>None\<close> is a slice out of range.\<close>

definition pending :: "lexer \<Rightarrow> bytes option" where
  "pending lx = (if lx_start lx \<le> lx_pos lx \<and> lx_pos lx \<le> length (lx_input lx)
     then Some (take (lx_pos lx - lx_start lx) (drop (lx_start lx) (lx_input lx))) else None)"

definition emit :: "itemType \<Rightarrow> lexer \<Rightarrow> (lexer \<Rightarrow> lexres) \<Rightarrow> lexres" where
  "emit t lx k =
     (case pending lx of None \<Rightarrow> LexPanic
      | Some v \<Rightarrow> k (lx\<lparr>lx_items := lx_items lx @ [\<lparr>i_typ = t, i_val = v, i_line = lx_line lx\<rparr>], lx_start := lx_pos lx\<rparr>))"

definition lx_next :: "lexer \<Rightarrow> rune \<times> lexer" where
  "lx_next lx =
     (if lx_pos lx \<ge> length (lx_input lx) then (0, lx\<lparr>lx_width := 0\<rparr>)
      else
        let rest = drop (lx_pos lx) (lx_input lx);
            (r, wd) = DecodeRune rest
        in (r, lx\<lparr>lx_line := (if hd rest = LF then lx_line lx + 1 else lx_line lx), lx_width := wd, lx_pos := lx_pos lx + wd\<rparr>))"

definition ignore :: "lexer \<Rightarrow> lexer" where
  "ignore lx = lx\<lparr>lx_start := lx_pos lx\<rparr>"

definition backup :: "lexer \<Rightarrow> lexer" where
  "backup lx =
     (let p = lx_pos lx - lx_width lx
      in lx\<lparr>lx_pos := p,
           lx_line := (if p < length (lx_input lx) \<and> lx_input lx ! p = LF then lx_line lx - 1 else lx_line lx)\<rparr>)"

definition peek :: "lexer \<Rightarrow> rune \<times> lexer" where
  "peek lx = (let (r, lx1) = lx_next lx in (r, backup lx1))"

abbreviation skip_one :: "lexer \<Rightarrow> lexer" where
  "skip_one lx \<equiv> snd (lx_next lx)"

definition quoted :: "bytes \<Rightarrow> bytes" where
  "quoted s = [CHR 0x27] @ s @ [CHR 0x27]"

definition eof :: rune where "eof = 0"

section \<open>Top level and keys\<close>

definition lexTop :: "lexer \<Rightarrow> lexres" where
  "lexTop lx0 =
     (let (r, lx) = lx_next lx0;
          at_end = (\<lambda>lx. if lx_pos lx > lx_start lx then errorf ''Unexpected EOF.'' lx else emit itemEOF lx Halt)
      in if IsSpace r then To (Skip Top) lx
         else if r = ch (CHR ''#'') then To CommentStart (push Top lx)
         else if r = ch (CHR ''/'') then
           (let (rn, lx1) = lx_next lx
            in if rn = ch (CHR ''/'') then To CommentStart (push Top lx1) else at_end (backup lx1))
         else if r = eof then at_end lx
         else To KeyStart (push TopValueEnd (backup lx)))"

definition lexTopValueEnd :: "lexer \<Rightarrow> lexres" where
  "lexTopValueEnd lx0 =
     (let (r, lx) = lx_next lx0
      in if r = ch (CHR ''#'') then To CommentStart (push Top lx)
         else if r = ch (CHR ''/'') then
           (let (rn, lx1) = lx_next lx
            in if rn = ch (CHR ''/'') then To CommentStart (push Top lx1) else To TopValueEnd (backup lx1))
         else if isWhitespace r then To TopValueEnd lx
         else if isNL r \<or> r = eof \<or> r = ch (CHR '';'') then To Top (ignore lx)
         else errorf (''Expected a top-level value to end with a new line, comment or EOF, but got '' @ quoted (escapeSpecial r) @ '' instead.'') lx)"

definition lexKeyStart :: "lexer \<Rightarrow> lexres" where
  "lexKeyStart lx0 =
     (let (r, lx) = peek lx0
      in if isKeySeparator r then errorf (''Unexpected key separator '' @ quoted (escapeSpecial r)) lx
         else if IsSpace r then To (Skip KeyStart) (skip_one lx)
         else if r = ch (CHR 0x22) then To (Skip DubQuotedKey) (skip_one lx)
         else if r = ch (CHR 0x27) then To (Skip QuotedKey) (skip_one lx)
         else To Key (skip_one (ignore lx)))"

definition lexDubQuotedKey :: "lexer \<Rightarrow> lexres" where
  "lexDubQuotedKey lx0 =
     (let (r, lx) = peek lx0
      in if r = ch (CHR 0x22) then emit itemKey lx (\<lambda>lx. To (Skip KeyEnd) (skip_one lx))
         else To DubQuotedKey (skip_one lx))"

definition lexQuotedKey :: "lexer \<Rightarrow> lexres" where
  "lexQuotedKey lx0 =
     (let (r, lx) = peek lx0
      in if r = ch (CHR 0x27) then emit itemKey lx (\<lambda>lx. To (Skip KeyEnd) (skip_one lx))
         else To QuotedKey (skip_one lx))"

definition keyCheckKeyword :: "stateFn \<Rightarrow> stateFn option \<Rightarrow> lexer \<Rightarrow> lexres" where
  "keyCheckKeyword fallThrough pushed lx =
     (case pending lx of None \<Rightarrow> LexPanic
      | Some v \<Rightarrow>
        if ToLower v = ''include'' then
          To IncludeStart (case pushed of None \<Rightarrow> ignore lx | Some s \<Rightarrow> push s (ignore lx))
        else emit itemKey lx (To fallThrough))"

definition lexIncludeStart :: "lexer \<Rightarrow> lexres" where
  "lexIncludeStart lx0 =
     (let (r, lx) = lx_next lx0
      in if isWhitespace r then To (Skip IncludeStart) lx else To Include (backup lx))"

definition lexIncludeQuotedString :: "lexer \<Rightarrow> lexres" where
  "lexIncludeQuotedString lx0 =
     (let (r, lx) = lx_next lx0
      in if r = ch (CHR 0x27) then emit itemInclude (backup lx) (\<lambda>lx. pop (ignore (skip_one lx)))
         else To IncludeQuotedString lx)"

definition lexIncludeDubQuotedString :: "lexer \<Rightarrow> lexres" where
  "lexIncludeDubQuotedString lx0 =
     (let (r, lx) = lx_next lx0
      in if r = ch (CHR 0x22) then emit itemInclude (backup lx) (\<lambda>lx. pop (ignore (skip_one lx)))
         else To IncludeDubQuotedString lx)"

definition lexIncludeString :: "lexer \<Rightarrow> lexres" where
  "lexIncludeString lx0 =
     (let (r, lx) = lx_next lx0
      in if isNL r \<or> r = eof \<or> r = ch (CHR '';'') \<or> r = ch (CHR ''}'') \<or> isWhitespace r then emit itemInclude (backup lx) pop
         else if r = ch (CHR 0x27) then emit itemInclude (backup lx) (\<lambda>lx. pop (ignore (skip_one lx)))
         else To IncludeString lx)"

definition lexInclude :: "(rune \<Rightarrow> bool) \<Rightarrow> lexer \<Rightarrow> lexres" where
  "lexInclude ud lx0 =
     (let (r, lx) = lx_next lx0
      in if r = ch (CHR 0x27) then To IncludeQuotedString (ignore lx)
         else if r = ch (CHR 0x22) then To IncludeDubQuotedString (ignore lx)
         else if r = ch (CHR ''['') then errorf ''Expected include value but found start of an array'' lx
         else if r = ch (CHR ''{'') then errorf ''Expected include value but found start of a map'' lx
         else if r = ch (CHR ''('') then errorf ''Expected include value but found start of a block'' lx
         else if IsDigit ud r \<or> r = ch (CHR ''-'') then errorf ''Expected include value but found start of a number'' lx
         else if r = ch (CHR 0x5C) then errorf ''Expected include value but found escape sequence'' lx
         else if isNL r then errorf ''Expected include value but found new line'' lx
         else To IncludeString (backup lx))"

definition lexKey :: "lexer \<Rightarrow> lexres" where
  "lexKey lx0 =
     (let (r, lx) = peek lx0
      in if IsSpace r then keyCheckKeyword KeyEnd None lx
         else if isKeySeparator r \<or> r = eof then emit itemKey lx (To KeyEnd)
         else To Key (skip_one lx))"

definition lexKeyEnd :: "lexer \<Rightarrow> lexres" where
  "lexKeyEnd lx0 =
     (let (r, lx) = lx_next lx0
      in if IsSpace r then To (Skip KeyEnd) lx
         else if isKeySeparator r then To (Skip Value) lx
         else if r = eof then emit itemEOF lx Halt
         else To Value (backup lx))"

section \<open>Values, arrays and maps\<close>

definition lexValue :: "(rune \<Rightarrow> bool) \<Rightarrow> lexer \<Rightarrow> lexres" where
  "lexValue ud lx0 =
     (let (r, lx) = lx_next lx0
      in if isWhitespace r then To (Skip Value) lx
         else if r = ch (CHR ''['') then emit itemArrayStart (ignore lx) (To ArrayValue)
         else if r = ch (CHR ''{'') then emit itemMapStart (ignore lx) (To MapKeyStart)
         else if r = ch (CHR 0x27) then To QuotedString (ignore lx)
         else if r = ch (CHR 0x22) then To DubQuotedString (ignore lx)
         else if r = ch (CHR ''-'') then To NegNumberStart lx
         else if r = ch (CHR ''('') then To Block (ignore lx)
         else if IsDigit ud r then To NumberOrDateOrIPStart (backup lx)
         else if r = ch (CHR ''.'') then errorf ''Floats must start with a digit'' lx
         else if isNL r then errorf ''Expected value but found new line'' lx
         else To String (backup lx))"

definition lexArrayValue :: "lexer \<Rightarrow> lexres" where
  "lexArrayValue lx0 =
     (let (r, lx) = lx_next lx0;
          term = errorf (''Unexpected array value terminator '' @ quoted '','' @ ''.'')
      in if IsSpace r then To (Skip ArrayValue) lx
         else if r = ch (CHR ''#'') then To CommentStart (push ArrayValue lx)
         else if r = ch (CHR ''/'') then
           (let (rn, lx1) = lx_next lx
            in if rn = ch (CHR ''/'') then To CommentStart (push ArrayValue lx1) else term (backup lx1))
         else if r = ch (CHR '','') then term lx
         else if r = ch (CHR '']'') then To ArrayEnd lx
         else To Value (push ArrayValueEnd (backup lx)))"

definition dquoted :: "bytes \<Rightarrow> bytes" where
  "dquoted s = [CHR 0x22] @ s @ [CHR 0x22]"

definition lexArrayValueEnd :: "lexer \<Rightarrow> lexres" where
  "lexArrayValueEnd lx0 =
     (let (r, lx) = lx_next lx0
      in if isWhitespace r then To (Skip ArrayValueEnd) lx
         else if r = ch (CHR ''#'') then To CommentStart (push ArrayValueEnd lx)
         else if r = ch (CHR ''/'') then
           (let (rn, lx1) = lx_next lx
            in if rn = ch (CHR ''/'') then To CommentStart (push ArrayValueEnd lx1) else To (Skip ArrayValue) (backup lx1))
         else if r = ch (CHR '','') \<or> isNL r then To (Skip ArrayValue) lx
         else if r = ch (CHR '']'') then To ArrayEnd lx
         else errorf (''Expected an array value terminator '' @ dquoted '','' @ '' or an array terminator '' @ dquoted '']'' @
                '', but got '' @ quoted (escapeSpecial r) @ '' instead.'') lx)"

definition lexArrayEnd :: "lexer \<Rightarrow> lexres" where
  "lexArrayEnd lx = emit itemArrayEnd (ignore lx) pop"

definition lexMapKeyStart :: "lexer \<Rightarrow> lexres" where
  "lexMapKeyStart lx0 =
     (let (r, lx) = peek lx0;
          key = (\<lambda>lx. To MapKey (skip_one (ignore lx)))
      in if isKeySeparator r then errorf (''Unexpected key separator '' @ quoted (escapeSpecial r) @ ''.'') lx
         else if IsSpace r then To (Skip MapKeyStart) (skip_one lx)
         else if r = ch (CHR ''}'') then To (Skip MapEnd) (skip_one lx)
         else if r = ch (CHR ''#'') then To CommentStart (push MapKeyStart (skip_one lx))
         else if r = ch (CHR ''/'') then
           (let (rn, lx1) = lx_next (skip_one lx)
            in if rn = ch (CHR ''/'') then To CommentStart (push MapKeyStart lx1) else key (backup lx1))
         else if r = ch (CHR 0x27) then To (Skip MapQuotedKey) (skip_one lx)
         else if r = ch (CHR 0x22) then To (Skip MapDubQuotedKey) (skip_one lx)
         else key lx)"

definition lexMapQuotedKey :: "lexer \<Rightarrow> lexres" where
  "lexMapQuotedKey lx0 =
     (let (r, lx) = peek lx0
      in if r = ch (CHR 0x27) then emit itemKey lx (\<lambda>lx. To (Skip MapKeyEnd) (skip_one lx))
         else To MapQuotedKey (skip_one lx))"

definition lexMapDubQuotedKey :: "lexer \<Rightarrow> lexres" where
  "lexMapDubQuotedKey lx0 =
     (let (r, lx) = peek lx0
      in if r = ch (CHR 0x22) then emit itemKey lx (\<lambda>lx. To (Skip MapKeyEnd) (skip_one lx))
         else To MapDubQuotedKey (skip_one lx))"

definition lexMapKey :: "lexer \<Rightarrow> lexres" where
  "lexMapKey lx0 =
     (let (r, lx) = peek lx0
      in if IsSpace r then keyCheckKeyword MapKeyEnd (Some MapValueEnd) lx
         else if isKeySeparator r then emit itemKey lx (To MapKeyEnd)
         else To MapKey (skip_one lx))"

definition lexMapKeyEnd :: "lexer \<Rightarrow> lexres" where
  "lexMapKeyEnd lx0 =
     (let (r, lx) = lx_next lx0
      in if IsSpace r then To (Skip MapKeyEnd) lx
         else if isKeySeparator r then To (Skip MapValue) lx
         else To MapValue (backup lx))"

definition lexMapValue :: "lexer \<Rightarrow> lexres" where
  "lexMapValue lx0 =
     (let (r, lx) = lx_next lx0
      in if IsSpace r then To (Skip MapValue) lx
         else if r = ch (CHR '','') then errorf (''Unexpected map value terminator '' @ dquoted '','' @ ''.'') lx
         else if r = ch (CHR ''}'') then To (Skip MapEnd) lx
         else To Value (push MapValueEnd (backup lx)))"

definition lexMapValueEnd :: "lexer \<Rightarrow> lexres" where
  "lexMapValueEnd lx0 =
     (let (r, lx) = lx_next lx0
      in if isWhitespace r then To (Skip MapValueEnd) lx
         else if r = ch (CHR ''#'') then To CommentStart (push MapValueEnd lx)
         else if r = ch (CHR ''/'') then
           (let (rn, lx1) = lx_next lx
            in if rn = ch (CHR ''/'') then To CommentStart (push MapValueEnd lx1) else To (Skip MapKeyStart) (backup lx1))
         else if r = ch (CHR '';'') \<or> r = ch (CHR '','') \<or> isNL r then To (Skip MapKeyStart) lx
         else if r = ch (CHR ''}'') then To (Skip MapEnd) lx
         else errorf (''Expected a map value terminator '' @ dquoted '','' @ '' or a map terminator '' @ dquoted ''}'' @
                '', but got '' @ quoted (escapeSpecial r) @ '' instead.'') lx)"

definition lexMapEnd :: "lexer \<Rightarrow> lexres" where
  "lexMapEnd lx = emit itemMapEnd (ignore lx) pop"

section \<open>Strings, blocks, numbers and comments\<close>

definition isBool :: "bytes \<Rightarrow> bool" where
  "isBool v \<longleftrightarrow> ToLower v \<in> {''true'', ''false'', ''on'', ''off'', ''yes'', ''no''}"

definition isVariable :: "lexer \<Rightarrow> (bool \<times> lexer) option" where
  "isVariable lx =
     (if lx_start lx \<ge> length (lx_input lx) then None
      else if lx_input lx ! lx_start lx = CHR ''$'' then Some (True, lx\<lparr>lx_start := lx_start lx + 1\<rparr>)
      else Some (False, lx))"

definition lexQuotedString :: "lexer \<Rightarrow> lexres" where
  "lexQuotedString lx0 =
     (let (r, lx) = lx_next lx0
      in if r = ch (CHR 0x27) then emit itemString (backup lx) (\<lambda>lx. pop (ignore (skip_one lx)))
         else To QuotedString lx)"

definition lexDubQuotedString :: "lexer \<Rightarrow> lexres" where
  "lexDubQuotedString lx0 =
     (let (r, lx) = lx_next lx0
      in if r = ch (CHR 0x22) then emit itemString (backup lx) (\<lambda>lx. pop (ignore (skip_one lx)))
         else To DubQuotedString lx)"

definition ends_string :: "rune \<Rightarrow> bool" where
  "ends_string r \<longleftrightarrow> isNL r \<or> r = eof \<or> r = ch (CHR '';'') \<or> r = ch (CHR '','') \<or> r = ch (CHR '']'') \<or> r = ch (CHR ''}'') \<or>
     isWhitespace r"

definition lexString :: "lexer \<Rightarrow> lexres" where
  "lexString lx0 =
     (let (r, lx) = lx_next lx0
      in if r = ch (CHR 0x5C) then To StringEscape lx
         else if ends_string r then
           (let lx1 = backup lx
            in case pending lx1 of None \<Rightarrow> LexPanic
               | Some v \<Rightarrow>
                 if isBool v then emit itemBool lx1 pop
                 else (case isVariable lx1 of None \<Rightarrow> LexPanic
                       | Some (True, lx2) \<Rightarrow> emit itemVariable lx2 pop
                       | Some (False, lx2) \<Rightarrow> emit itemString lx2 pop))
         else if r = ch (CHR 0x27) then emit itemString (backup lx) (\<lambda>lx. pop (ignore (skip_one lx)))
         else To String lx)"

definition lexBlock :: "lexer \<Rightarrow> lexres" where
  "lexBlock lx0 =
     (let (r, lx) = lx_next lx0
      in if r = ch (CHR '')'') then
           (let (r1, lx1) = lx_next (backup (backup lx));
                lx2 = skip_one lx1
            in if r1 \<noteq> 10 then To Block lx2
               else
                 let (r3, lx3) = lx_next lx2
                 in if r3 = 10 \<or> r3 = eof then emit itemString (backup (backup lx3)) (\<lambda>lx. pop (ignore (skip_one lx)))
                    else To Block (backup lx3))
         else To Block lx)"

definition lexStringEscape :: "lexer \<Rightarrow> lexres" where
  "lexStringEscape lx0 =
     (let (r, lx) = lx_next lx0
      in if r = ch (CHR ''x'') then To StringBinary lx
         else if r = ch (CHR ''t'') \<or> r = ch (CHR ''n'') \<or> r = ch (CHR ''r'') \<or> r = ch (CHR 0x22) \<or> r = ch (CHR 0x5C) then To String lx
         else errorf (''Invalid escape character '' @ quoted (escapeSpecial r) @ ''. Only the following escape characters are allowed: '' @
                [CHR 0x5C] @ ''xXX, '' @ [CHR 0x5C] @ ''t, '' @ [CHR 0x5C] @ ''n, '' @ [CHR 0x5C] @ ''r, '' @ [CHR 0x5C, CHR 0x22] @
                '', '' @ [CHR 0x5C, CHR 0x5C] @ ''.'') lx)"

definition not_hex :: "rune \<Rightarrow> bytes" where
  "not_hex r = ''Expected two hexadecimal digits after '' @ quoted ([CHR 0x5C] @ ''x'') @ '', but got '' @ quoted (escapeSpecial r) @ '' instead.''"

definition lexStringBinary :: "lexer \<Rightarrow> lexres" where
  "lexStringBinary lx0 =
     (let (r, lx) = lx_next lx0
      in if \<not> isHexadecimal r then errorf (not_hex r) lx
         else
           let (r1, lx1) = lx_next lx
           in if \<not> isHexadecimal r1 then errorf (not_hex r1) lx1 else To String lx1)"

definition need_digit :: "rune \<Rightarrow> bytes" where
  "need_digit r = (if r = ch (CHR ''.'') then ''Floats must start with a digit, not '' @ quoted ''.'' @ ''.''
     else ''Expected a digit but got '' @ quoted (escapeSpecial r) @ ''.'')"

definition lexNumberOrDateOrIPStart :: "(rune \<Rightarrow> bool) \<Rightarrow> lexer \<Rightarrow> lexres" where
  "lexNumberOrDateOrIPStart ud lx0 =
     (let (r, lx) = lx_next lx0
      in if \<not> IsDigit ud r then errorf (need_digit r) lx else To NumberOrDateOrIP lx)"

definition lexNumberOrDateOrIP :: "(rune \<Rightarrow> bool) \<Rightarrow> lexer \<Rightarrow> lexres" where
  "lexNumberOrDateOrIP ud lx0 =
     (let (r, lx) = lx_next lx0
      in if r = ch (CHR ''-'') then
           (if int (lx_pos lx) - int (lx_start lx) \<noteq> 5 then errorf ''All ISO8601 dates must be in full Zulu form.'' lx
            else To DateAfterYear lx)
         else if IsDigit ud r then To NumberOrDateOrIP lx
         else if r = ch (CHR ''.'') then To FloatStart lx
         else if isNumberSuffix r then To ConvenientNumber lx
         else emit itemInteger (backup lx) pop)"

definition lexConvenientNumber :: "lexer \<Rightarrow> lexres" where
  "lexConvenientNumber lx0 =
     (let (r, lx) = lx_next lx0
      in if r = ch (CHR ''b'') \<or> r = ch (CHR ''B'') then To ConvenientNumber lx
         else emit itemInteger (backup lx) pop)"

fun date_format :: "(rune \<Rightarrow> bool) \<Rightarrow> bytes \<Rightarrow> lexer \<Rightarrow> lexres" where
  "date_format ud [] lx = emit itemDatetime lx pop"
| "date_format ud (f # fs) lx0 =
     (let (r, lx) = lx_next lx0
      in if f = CHR ''0'' then
           (if \<not> IsDigit ud r then
              errorf (''Expected digit in ISO8601 datetime, but found '' @ quoted (escapeSpecial r) @ '' instead.'') lx
            else date_format ud fs lx)
         else if ch f \<noteq> r then
           errorf (''Expected '' @ quoted [f] @ '' in ISO8601 datetime, but found '' @ quoted (escapeSpecial r) @ '' instead.'') lx
         else date_format ud fs lx)"

definition lexDateAfterYear :: "(rune \<Rightarrow> bool) \<Rightarrow> lexer \<Rightarrow> lexres" where
  "lexDateAfterYear ud = date_format ud ''00-00T00:00:00Z''"

definition lexNegNumberStart :: "(rune \<Rightarrow> bool) \<Rightarrow> lexer \<Rightarrow> lexres" where
  "lexNegNumberStart ud lx0 =
     (let (r, lx) = lx_next lx0
      in if \<not> IsDigit ud r then errorf (need_digit r) lx else To NegNumber lx)"

definition lexNegNumber :: "(rune \<Rightarrow> bool) \<Rightarrow> lexer \<Rightarrow> lexres" where
  "lexNegNumber ud lx0 =
     (let (r, lx) = lx_next lx0
      in if IsDigit ud r then To NegNumber lx
         else if r = ch (CHR ''.'') then To FloatStart lx
         else if isNumberSuffix r then To ConvenientNumber lx
         else emit itemInteger (backup lx) pop)"

definition lexFloatStart :: "(rune \<Rightarrow> bool) \<Rightarrow> lexer \<Rightarrow> lexres" where
  "lexFloatStart ud lx0 =
     (let (r, lx) = lx_next lx0
      in if \<not> IsDigit ud r then
           errorf (''Floats must have a digit after the '' @ quoted ''.'' @ '', but got '' @ quoted (escapeSpecial r) @ '' instead.'') lx
         else To Float lx)"

definition lexFloat :: "(rune \<Rightarrow> bool) \<Rightarrow> lexer \<Rightarrow> lexres" where
  "lexFloat ud lx0 =
     (let (r, lx) = lx_next lx0
      in if IsDigit ud r then To Float lx
         else if r = ch (CHR ''.'') then To IPAddr lx
         else emit itemFloat (backup lx) pop)"

definition lexIPAddr :: "(rune \<Rightarrow> bool) \<Rightarrow> lexer \<Rightarrow> lexres" where
  "lexIPAddr ud lx0 =
     (let (r, lx) = lx_next lx0
      in if IsDigit ud r \<or> r = ch (CHR ''.'') \<or> r = ch (CHR '':'') then To IPAddr lx
         else emit itemString (backup lx) pop)"

definition lexCommentStart :: "lexer \<Rightarrow> lexres" where
  "lexCommentStart lx = emit itemCommentStart (ignore lx) (To Comment)"

definition lexComment :: "lexer \<Rightarrow> lexres" where
  "lexComment lx0 =
     (let (r, lx) = peek lx0
      in if isNL r \<or> r = eof then emit itemText lx pop else To Comment (skip_one lx))"

section \<open>Running the machine\<close>

fun run_state :: "(rune \<Rightarrow> bool) \<Rightarrow> stateFn \<Rightarrow> lexer \<Rightarrow> lexres" where
  "run_state ud Top = lexTop"
| "run_state ud TopValueEnd = lexTopValueEnd"
| "run_state ud KeyStart = lexKeyStart"
| "run_state ud DubQuotedKey = lexDubQuotedKey"
| "run_state ud QuotedKey = lexQuotedKey"
| "run_state ud IncludeStart = lexIncludeStart"
| "run_state ud IncludeQuotedString = lexIncludeQuotedString"
| "run_state ud IncludeDubQuotedString = lexIncludeDubQuotedString"
| "run_state ud IncludeString = lexIncludeString"
| "run_state ud Include = lexInclude ud"
| "run_state ud Key = lexKey"
| "run_state ud KeyEnd = lexKeyEnd"
| "run_state ud Value = lexValue ud"
| "run_state ud ArrayValue = lexArrayValue"
| "run_state ud ArrayValueEnd = lexArrayValueEnd"
| "run_state ud ArrayEnd = lexArrayEnd"
| "run_state ud MapKeyStart = lexMapKeyStart"
| "run_state ud MapQuotedKey = lexMapQuotedKey"
| "run_state ud MapDubQuotedKey = lexMapDubQuotedKey"
| "run_state ud MapKey = lexMapKey"
| "run_state ud MapKeyEnd = lexMapKeyEnd"
| "run_state ud MapValue = lexMapValue"
| "run_state ud MapValueEnd = lexMapValueEnd"
| "run_state ud MapEnd = lexMapEnd"
| "run_state ud QuotedString = lexQuotedString"
| "run_state ud DubQuotedString = lexDubQuotedString"
| "run_state ud String = lexString"
| "run_state ud Block = lexBlock"
| "run_state ud StringEscape = lexStringEscape"
| "run_state ud StringBinary = lexStringBinary"
| "run_state ud NumberOrDateOrIPStart = lexNumberOrDateOrIPStart ud"
| "run_state ud NumberOrDateOrIP = lexNumberOrDateOrIP ud"
| "run_state ud ConvenientNumber = lexConvenientNumber"
| "run_state ud DateAfterYear = lexDateAfterYear ud"
| "run_state ud NegNumberStart = lexNegNumberStart ud"
| "run_state ud NegNumber = lexNegNumber ud"
| "run_state ud FloatStart = lexFloatStart ud"
| "run_state ud Float = lexFloat ud"
| "run_state ud IPAddr = lexIPAddr ud"
| "run_state ud CommentStart = lexCommentStart"
| "run_state ud Comment = lexComment"
| "run_state ud (Skip s) = (\<lambda>lx. To s (ignore lx))"

text \<open>
  One call of \<open>nextItem\<close>: the oldest item, or else a step of the machine and another turn. The
  state is \<open>None\<close> after a state function has returned nil; calling it then is a nil call, a panic.
  A call that never returns is \<open>None\<close>.
\<close>

datatype nextres = Got item "stateFn option" lexer | NextPanic

partial_function (option) nextItem :: "(rune \<Rightarrow> bool) \<Rightarrow> stateFn option \<Rightarrow> lexer \<Rightarrow> nextres option" where
  [code]: "nextItem ud st lx =
     (case lx_items lx of
        it # its \<Rightarrow> Some (Got it st (lx\<lparr>lx_items := its\<rparr>))
      | [] \<Rightarrow>
        (case st of None \<Rightarrow> Some NextPanic
         | Some s \<Rightarrow>
           (case run_state ud s lx of
              LexPanic \<Rightarrow> Some NextPanic
            | To s' lx' \<Rightarrow> nextItem ud (Some s') lx'
            | Halt lx' \<Rightarrow> nextItem ud None lx')))"

end
