(* ===== verification/Conf_Parse.thy ===== *)
theory Conf_Parse
  imports Conf_Lex "HOL-Library.AList"
begin

text \<open>
  The parser of configuration files (src/conf/parse.go). The file system, the environment, the
  path functions of the operating system and the float reader are the fields of \<open>conf_env\<close>.
  A nested call of \<open>Parse\<close> is made for an include and for a variable of the environment; the
  first argument of \<open>parse\<close> bounds how deep these calls nest, and a call that never returns is
  \<open>None\<close>.
\<close>

section \<open>Values and results\<close>

type_synonym datetime = "int \<times> int \<times> int \<times> int \<times> int \<times> int"

datatype val = VString bytes | VInt int | VFloat "64 word" | VBool bool | VTime datetime
  | VArray "val list" | VMap "(bytes \<times> val) list"

type_synonym mapping = "(bytes \<times> val) list"

datatype ctx = CMap mapping | CArray "val list"

datatype 'a pres = POk 'a | PErr bytes | PPanic

datatype float_res = FOk "64 word" | FRange | FSyntax

record conf_env =
  ce_digit :: "rune \<Rightarrow> bool"
  ce_getenv :: "bytes \<Rightarrow> bytes option"
  ce_read :: "bytes \<Rightarrow> bytes + bytes"
  ce_dir :: "bytes \<Rightarrow> bytes"
  ce_join :: "bytes \<Rightarrow> bytes \<Rightarrow> bytes"
  ce_float :: "bytes \<Rightarrow> float_res"

record parser =
  p_state :: "stateFn option"
  p_lx :: lexer
  p_ctxs :: "ctx list"
  p_keys :: "bytes list"
  p_fp :: bytes

section \<open>Contexts and keys\<close>

text \<open>The innermost context and the newest key come first. \<open>p.ctx\<close> is the innermost context.\<close>

definition pushContext :: "ctx \<Rightarrow> parser \<Rightarrow> parser" where
  "pushContext c p = p\<lparr>p_ctxs := c # p_ctxs p\<rparr>"

definition popContext :: "parser \<Rightarrow> (ctx \<times> parser) pres" where
  "popContext p = (case p_ctxs p of
       c0 # c # cs \<Rightarrow> POk (c0, p\<lparr>p_ctxs := c # cs\<rparr>)
     | _ \<Rightarrow> PPanic)"

definition pushKey :: "bytes \<Rightarrow> parser \<Rightarrow> parser" where
  "pushKey k p = p\<lparr>p_keys := k # p_keys p\<rparr>"

definition popKey :: "parser \<Rightarrow> (bytes \<times> parser) pres" where
  "popKey p = (case p_keys p of [] \<Rightarrow> PPanic | k # ks \<Rightarrow> POk (k, p\<lparr>p_keys := ks\<rparr>))"

definition setValue :: "val \<Rightarrow> parser \<Rightarrow> parser pres" where
  "setValue v p =
     (case p_ctxs p of
        [] \<Rightarrow> PPanic
      | CArray vs # cs \<Rightarrow> POk (p\<lparr>p_ctxs := CArray (vs @ [v]) # cs\<rparr>)
      | CMap m # cs \<Rightarrow>
          (case popKey p of
             POk (k, p1) \<Rightarrow> POk (p1\<lparr>p_ctxs := CMap (AList.update k v m) # cs\<rparr>)
           | PErr e \<Rightarrow> PErr e
           | PPanic \<Rightarrow> PPanic))"

fun ctx_val :: "ctx \<Rightarrow> val" where
  "ctx_val (CMap m) = VMap m"
| "ctx_val (CArray vs) = VArray vs"

section \<open>Scalars\<close>

text \<open>The number of leading digits, one for every rune, as the loop over the string counts them.\<close>

function digit_count :: "(rune \<Rightarrow> bool) \<Rightarrow> bytes \<Rightarrow> nat" where
  "digit_count ud s =
     (if s = [] then 0
      else if \<not> IsDigit ud (fst (DecodeRune s)) then 0
      else Suc (digit_count ud (drop (max 1 (snd (DecodeRune s))) s)))"
  by pat_completeness auto
termination by (relation "measure (\<lambda>(_, s). length s)") auto

declare digit_count.simps [simp del]

definition ascii_digit :: "char \<Rightarrow> bool" where
  "ascii_digit c \<longleftrightarrow> 48 \<le> (of_char c :: nat) \<and> (of_char c :: nat) \<le> 57"

fun decimal :: "int \<Rightarrow> bytes \<Rightarrow> int" where
  "decimal n [] = n"
| "decimal n (c # cs) = decimal (n * 10 + (int (of_char c) - 48)) cs"

datatype int_res = IOk int | IRange | ISyntax

text \<open>\<^verbatim>\<open>strconv.ParseInt(s, 10, 64)\<close>.\<close>

definition ParseInt :: "bytes \<Rightarrow> int_res" where
  "ParseInt s =
     (let neg = take 1 s = ''-'';
          ds = (if take 1 s = ''-'' \<or> take 1 s = ''+'' then drop 1 s else s);
          n = decimal 0 ds
      in if ds = [] \<or> \<not> list_all ascii_digit ds then ISyntax
         else if neg then (if n > 2 ^ 63 then IRange else IOk (- n))
         else if n \<ge> 2 ^ 63 then IRange else IOk n)"

definition TrimSpace :: "bytes \<Rightarrow> bytes" where
  "TrimSpace s = rev (dropWhile (\<lambda>c. IsSpace (of_char c)) (rev (dropWhile (\<lambda>c. IsSpace (of_char c)) s)))"

text \<open>The factor of a size suffix; \<open>None\<close> is a suffix that no case of the switch has.\<close>

definition suffix_factor :: "bytes \<Rightarrow> int option" where
  "suffix_factor s =
     (if s = '''' then Some 1
      else if s = ''k'' then Some 1000
      else if s = ''kb'' then Some 1024
      else if s = ''m'' then Some (1000 * 1000)
      else if s = ''mb'' then Some (1024 * 1024)
      else if s = ''g'' then Some (1000 * 1000 * 1000)
      else if s = ''gb'' then Some (1024 * 1024 * 1024)
      else None)"

definition process_integer :: "(rune \<Rightarrow> bool) \<Rightarrow> bytes \<Rightarrow> parser \<Rightarrow> parser pres" where
  "process_integer ud v p =
     (let n = digit_count ud v
      in case ParseInt (take n v) of
           IRange \<Rightarrow> PErr (''Integer '' @ quoted v @ '' is out of the range.'')
         | ISyntax \<Rightarrow> PErr (''Expected integer, but got '' @ quoted v @ ''.'')
         | IOk num \<Rightarrow>
             (case suffix_factor (ToLower (TrimSpace (drop n v))) of
                Some f \<Rightarrow> setValue (VInt (wrap64 (num * f))) p
              | None \<Rightarrow> POk p))"

definition process_float :: "(bytes \<Rightarrow> float_res) \<Rightarrow> bytes \<Rightarrow> parser \<Rightarrow> parser pres" where
  "process_float pf v p =
     (case pf v of
        FOk x \<Rightarrow> setValue (VFloat x) p
      | FRange \<Rightarrow> PErr (''Float '' @ quoted v @ '' is out of the range.'')
      | FSyntax \<Rightarrow> PErr (''Expected float, but got '' @ quoted v @ ''.''))"

definition process_bool :: "bytes \<Rightarrow> parser \<Rightarrow> parser pres" where
  "process_bool v p =
     (if ToLower v \<in> {''true'', ''yes'', ''on''} then setValue (VBool True) p
      else if ToLower v \<in> {''false'', ''no'', ''off''} then setValue (VBool False) p
      else PErr (''Expected boolean value, but got '' @ quoted v @ ''.''))"

definition leap :: "int \<Rightarrow> bool" where
  "leap y \<longleftrightarrow> y mod 4 = 0 \<and> (y mod 100 \<noteq> 0 \<or> y mod 400 = 0)"

definition days_in :: "int \<Rightarrow> int \<Rightarrow> int" where
  "days_in y m = (if m = 2 then (if leap y then 29 else 28) else if m \<in> {4, 6, 9, 11} then 30 else 31)"

text \<open>\<^verbatim>\<open>time.Parse\<close> with the layout \<^verbatim>\<open>2006-01-02T15:04:05Z\<close>, for texts of the layout's length.\<close>

definition parse_time :: "bytes \<Rightarrow> datetime option" where
  "parse_time v =
     (let part = (\<lambda>a n. take n (drop a v));
          ds = [part 0 4, part 5 2, part 8 2, part 11 2, part 14 2, part 17 2];
          y = decimal 0 (part 0 4); mo = decimal 0 (part 5 2); d = decimal 0 (part 8 2);
          h = decimal 0 (part 11 2); mi = decimal 0 (part 14 2); s = decimal 0 (part 17 2)
      in if length v = 20 \<and> list_all (list_all ascii_digit) ds \<and>
            v ! 4 = CHR ''-'' \<and> v ! 7 = CHR ''-'' \<and> v ! 10 = CHR ''T'' \<and> v ! 13 = CHR '':'' \<and> v ! 16 = CHR '':'' \<and> v ! 19 = CHR ''Z'' \<and>
            1 \<le> mo \<and> mo \<le> 12 \<and> 1 \<le> d \<and> d \<le> days_in y mo \<and> h < 24 \<and> mi < 60 \<and> s < 60
         then Some (y, mo, d, h, mi, s) else None)"

definition process_datetime :: "bytes \<Rightarrow> parser \<Rightarrow> parser pres" where
  "process_datetime v p =
     (case parse_time v of
        Some t \<Rightarrow> setValue (VTime t) p
      | None \<Rightarrow> PErr (''Expected Zulu formatted DateTime, but got '' @ quoted v @ ''.''))"

section \<open>Variables and includes\<close>

definition pkey :: bytes where "pkey = ''pk''"

definition conf_bcryptPrefix :: bytes where "conf_bcryptPrefix = ''2a$''"

fun lookup_ctxs :: "bytes \<Rightarrow> ctx list \<Rightarrow> val option" where
  "lookup_ctxs k [] = None"
| "lookup_ctxs k (CMap m # cs) = (case map_of m k of Some v \<Rightarrow> Some v | None \<Rightarrow> lookup_ctxs k cs)"
| "lookup_ctxs k (CArray vs # cs) = lookup_ctxs k cs"

text \<open>
  \<open>sub data dir\<close> stands for a nested call of \<open>parse\<close>. The result is the value found, or
  \<open>None\<close> when there is none.
\<close>

definition lookupVariable ::
  "conf_env \<Rightarrow> (bytes \<Rightarrow> bytes \<Rightarrow> mapping pres option) \<Rightarrow> bytes \<Rightarrow> parser \<Rightarrow> val option pres option" where
  "lookupVariable E sub ref p =
     (if take (length conf_bcryptPrefix) ref = conf_bcryptPrefix then Some (POk (Some (VString (CHR ''$'' # ref))))
      else case lookup_ctxs ref (p_ctxs p) of
        Some v \<Rightarrow> Some (POk (Some v))
      | None \<Rightarrow>
        (case ce_getenv E ref of
           None \<Rightarrow> Some (POk None)
         | Some s \<Rightarrow>
             (case sub (pkey @ ''='' @ s) [] of
                None \<Rightarrow> None
              | Some (POk m) \<Rightarrow> Some (POk (map_of m pkey))
              | Some (PErr e) \<Rightarrow> Some (POk None)
              | Some PPanic \<Rightarrow> Some PPanic)))"

fun set_all :: "mapping \<Rightarrow> parser \<Rightarrow> parser pres" where
  "set_all [] p = POk p"
| "set_all ((k, v) # kvs) p =
     (case setValue v (pushKey k p) of POk p1 \<Rightarrow> set_all kvs p1 | PErr e \<Rightarrow> PErr e | PPanic \<Rightarrow> PPanic)"

definition ParseFile ::
  "conf_env \<Rightarrow> (bytes \<Rightarrow> bytes \<Rightarrow> mapping pres option) \<Rightarrow> bytes \<Rightarrow> mapping pres option" where
  "ParseFile E sub fp =
     (case ce_read E fp of
        Inl err \<Rightarrow> Some (PErr (''error opening config file: '' @ err))
      | Inr data \<Rightarrow> sub data (ce_dir E fp))"

definition fmt_line :: "int \<Rightarrow> bytes" where
  "fmt_line n = (if n < 0 then ''-'' @ fmt_d (nat (- n)) else fmt_d (nat n))"

definition process_variable ::
  "conf_env \<Rightarrow> (bytes \<Rightarrow> bytes \<Rightarrow> mapping pres option) \<Rightarrow> item \<Rightarrow> parser \<Rightarrow> parser pres option" where
  "process_variable E sub it p =
     (case lookupVariable E sub (i_val it) p of
        None \<Rightarrow> None
      | Some PPanic \<Rightarrow> Some PPanic
      | Some (PErr e) \<Rightarrow> Some (PErr e)
      | Some (POk (Some v)) \<Rightarrow> Some (setValue v p)
      | Some (POk None) \<Rightarrow>
          Some (PErr (''Variable reference for '' @ quoted (i_val it) @ '' on line '' @ fmt_line (i_line it) @ '' can not be found.'')))"

definition process_include ::
  "conf_env \<Rightarrow> (bytes \<Rightarrow> bytes \<Rightarrow> mapping pres option) \<Rightarrow> bytes \<Rightarrow> parser \<Rightarrow> parser pres option" where
  "process_include E sub v p =
     (case ParseFile E sub (ce_join E (p_fp p) v) of
        None \<Rightarrow> None
      | Some PPanic \<Rightarrow> Some PPanic
      | Some (PErr e) \<Rightarrow> Some (PErr (''Error parsing include file '' @ quoted v @ '', '' @ e @ ''.''))
      | Some (POk m) \<Rightarrow> Some (set_all m p))"

section \<open>Items and the main loop\<close>

definition close_context :: "parser \<Rightarrow> parser pres" where
  "close_context p =
     (case popContext p of POk (c, p1) \<Rightarrow> setValue (ctx_val c) p1 | PErr e \<Rightarrow> PErr e | PPanic \<Rightarrow> PPanic)"

definition processItem ::
  "conf_env \<Rightarrow> (bytes \<Rightarrow> bytes \<Rightarrow> mapping pres option) \<Rightarrow> item \<Rightarrow> parser \<Rightarrow> parser pres option" where
  "processItem E sub it p =
     (case i_typ it of
        itemError \<Rightarrow> Some (PErr (''Parse error on line '' @ fmt_line (i_line it) @ '': '' @ quoted (i_val it)))
      | itemKey \<Rightarrow> Some (POk (pushKey (i_val it) p))
      | itemMapStart \<Rightarrow> Some (POk (pushContext (CMap []) p))
      | itemMapEnd \<Rightarrow> Some (close_context p)
      | itemString \<Rightarrow> Some (setValue (VString (i_val it)) p)
      | itemInteger \<Rightarrow> Some (process_integer (ce_digit E) (i_val it) p)
      | itemFloat \<Rightarrow> Some (process_float (ce_float E) (i_val it) p)
      | itemBool \<Rightarrow> Some (process_bool (i_val it) p)
      | itemDatetime \<Rightarrow> Some (process_datetime (i_val it) p)
      | itemArrayStart \<Rightarrow> Some (POk (pushContext (CArray []) p))
      | itemArrayEnd \<Rightarrow> Some (close_context p)
      | itemVariable \<Rightarrow> process_variable E sub it p
      | itemInclude \<Rightarrow> process_include E sub (i_val it) p
      | _ \<Rightarrow> Some (POk p))"

definition final_map :: "parser \<Rightarrow> mapping" where
  "final_map p = (case last (p_ctxs p) of CMap m \<Rightarrow> m | CArray vs \<Rightarrow> [])"

text \<open>
  The loop of \<open>parse\<close>. The outermost context is \<open>p.mapping\<close>, which the callers return; a map
  that is still open at the end of the input is not part of it.
\<close>

partial_function (option) conf_loop ::
  "conf_env \<Rightarrow> (bytes \<Rightarrow> bytes \<Rightarrow> mapping pres option) \<Rightarrow> parser \<Rightarrow> mapping pres option" where
  [code]: "conf_loop E sub p =
     Option.bind (nextItem (ce_digit E) (p_state p) (p_lx p)) (\<lambda>r.
       case r of
         NextPanic \<Rightarrow> Some PPanic
       | Got it st lx \<Rightarrow>
           if i_typ it = itemEOF then Some (POk (final_map p))
           else Option.bind (processItem E sub it (p\<lparr>p_state := st, p_lx := lx\<rparr>)) (\<lambda>q.
             case q of PErr e \<Rightarrow> Some (PErr e) | PPanic \<Rightarrow> Some PPanic | POk p1 \<Rightarrow> conf_loop E sub p1))"

definition new_parser :: "bytes \<Rightarrow> bytes \<Rightarrow> parser" where
  "new_parser data fp =
     (let (st, lx) = lex data
      in pushContext (CMap []) \<lparr>p_state = Some st, p_lx = lx, p_ctxs = [], p_keys = [], p_fp = fp\<rparr>)"

fun parse_conf :: "conf_env \<Rightarrow> nat \<Rightarrow> bytes \<Rightarrow> bytes \<Rightarrow> mapping pres option" where
  "parse_conf E 0 data fp = None"
| "parse_conf E (Suc n) data fp = conf_loop E (parse_conf E n) (new_parser data fp)"

definition Parse :: "conf_env \<Rightarrow> nat \<Rightarrow> bytes \<Rightarrow> mapping pres option" where
  "Parse E n data = parse_conf E n data []"

end
