(* ===== verification/Server_Options.thy ===== *)
theory Server_Options
  imports Auth Subject Conf_Parse
begin

text \<open>
  The options of the server (src/server/opts.go): what a parsed configuration file sets, the
  merging with the command line, and the defaults. A type assertion that fails is \<open>PPanic\<close> and an
  error is \<open>PErr\<close>, with the part of its text that does not depend on the value.

  Go visits the entries of a map in an order of its own; \<open>oe_order\<close> gives it. The URL parser, the
  loading of certificates, the addresses of this machine, the name service and the conversion of
  an integer to a floating-point number are the other fields of \<open>opt_env\<close>.
\<close>

section \<open>Data\<close>

record URL =
  u_Host :: bytes
  u_User :: "(bytes \<times> bytes option) option"

record TLSConfigOpts =
  t_CertFile :: bytes
  t_KeyFile :: bytes
  t_CaFile :: bytes
  t_Verify :: bool
  t_Timeout :: "64 word"
  t_Ciphers :: "int list option"
  t_CurvePreferences :: "int list option"

text \<open>A TLS configuration; a certificate and a pool of certificates are what the loader returns.\<close>

record tls_Config =
  tc_CurvePreferences :: "int list"
  tc_Certificate :: bytes
  tc_PreferServerCipherSuites :: bool
  tc_MinVersion :: int
  tc_CipherSuites :: "int list"
  tc_RequireClientCert :: bool
  tc_ClientCAs :: "bytes option"
  tc_RootCAs :: "bytes option"

record ClusterOpts =
  co_Host :: bytes
  co_Port :: int
  co_Username :: bytes
  co_Password :: bytes
  co_AuthTimeout :: "64 word"
  co_TLSTimeout :: "64 word"
  co_TLSConfig :: "tls_Config option"
  co_ListenStr :: bytes
  co_NoAdvertise :: bool
  co_ConnectRetries :: int

record Options =
  o_Host :: bytes
  o_Port :: int
  o_Trace :: bool
  o_Debug :: bool
  o_Logtime :: bool
  o_MaxConn :: int
  o_Users :: "User list option"
  o_Username :: bytes
  o_Password :: bytes
  o_Authorization :: bytes
  o_PingInterval :: int
  o_MaxPingsOut :: int
  o_HTTPHost :: bytes
  o_HTTPPort :: int
  o_HTTPSPort :: int
  o_AuthTimeout :: "64 word"
  o_MaxControlLine :: int
  o_MaxPayload :: int
  o_Cluster :: ClusterOpts
  o_ProfPort :: int
  o_PidFile :: bytes
  o_LogFile :: bytes
  o_Syslog :: bool
  o_RemoteSyslog :: bytes
  o_Routes :: "URL option list option"
  o_RoutesStr :: bytes
  o_TLSTimeout :: "64 word"
  o_TLS :: bool
  o_TLSVerify :: bool
  o_TLSCert :: bytes
  o_TLSKey :: bytes
  o_TLSCaCert :: bytes
  o_TLSConfig :: "tls_Config option"
  o_WriteDeadline :: int
  o_HealthAgent :: bool
  o_HealthRank :: int
  o_HealthLease :: int
  o_HealthBeat :: int

record authorization =
  a_user :: bytes
  a_pass :: bytes
  a_users :: "User list option"
  a_timeout :: "64 word"
  a_defaultPermissions :: "Permissions option"

record opt_env =
  oe_order :: "mapping \<Rightarrow> mapping"
  oe_float :: "int \<Rightarrow> 64 word"
  oe_url :: "bytes \<Rightarrow> URL option"
  oe_keypair :: "bytes \<Rightarrow> bytes \<Rightarrow> bytes + bytes"
  oe_leaf :: "bytes \<Rightarrow> bytes option"
  oe_pem :: "bytes \<Rightarrow> bytes + bytes"
  oe_pool :: "bytes \<Rightarrow> bytes option"
  oe_interfaces :: "bytes list"
  oe_lookup :: "bytes \<Rightarrow> bytes list"
  oe_sscan :: "bytes \<Rightarrow> int option"

definition no_ClusterOpts :: ClusterOpts where
  "no_ClusterOpts = \<lparr>co_Host = [], co_Port = 0, co_Username = [], co_Password = [], co_AuthTimeout = 0, co_TLSTimeout = 0,
     co_TLSConfig = None, co_ListenStr = [], co_NoAdvertise = False, co_ConnectRetries = 0\<rparr>"

definition no_Options :: Options where
  "no_Options = \<lparr>o_Host = [], o_Port = 0, o_Trace = False, o_Debug = False, o_Logtime = False, o_MaxConn = 0, o_Users = None,
     o_Username = [], o_Password = [], o_Authorization = [], o_PingInterval = 0, o_MaxPingsOut = 0, o_HTTPHost = [], o_HTTPPort = 0,
     o_HTTPSPort = 0, o_AuthTimeout = 0, o_MaxControlLine = 0, o_MaxPayload = 0, o_Cluster = no_ClusterOpts, o_ProfPort = 0,
     o_PidFile = [], o_LogFile = [], o_Syslog = False, o_RemoteSyslog = [], o_Routes = None, o_RoutesStr = [], o_TLSTimeout = 0,
     o_TLS = False, o_TLSVerify = False, o_TLSCert = [], o_TLSKey = [], o_TLSCaCert = [], o_TLSConfig = None, o_WriteDeadline = 0,
     o_HealthAgent = False, o_HealthRank = 0, o_HealthLease = 0, o_HealthBeat = 0\<rparr>"

abbreviation upd_cluster :: "(ClusterOpts \<Rightarrow> ClusterOpts) \<Rightarrow> Options \<Rightarrow> Options" where
  "upd_cluster f opts \<equiv> opts\<lparr>o_Cluster := f (o_Cluster opts)\<rparr>"

section \<open>Results and type assertions\<close>

definition pbind :: "'a pres \<Rightarrow> ('a \<Rightarrow> 'b pres) \<Rightarrow> 'b pres" where
  "pbind r f = (case r of POk x \<Rightarrow> f x | PErr e \<Rightarrow> PErr e | PPanic \<Rightarrow> PPanic)"

fun pfold :: "('a \<Rightarrow> 's \<Rightarrow> 's pres) \<Rightarrow> 'a list \<Rightarrow> 's \<Rightarrow> 's pres" where
  "pfold f [] s = POk s"
| "pfold f (x # xs) s = pbind (f x s) (pfold f xs)"

fun pmap :: "('a \<Rightarrow> 'b pres) \<Rightarrow> 'a list \<Rightarrow> 'b list pres" where
  "pmap f [] = POk []"
| "pmap f (x # xs) = pbind (f x) (\<lambda>y. pbind (pmap f xs) (\<lambda>ys. POk (y # ys)))"

definition as_int :: "val \<Rightarrow> int pres" where
  "as_int v = (case v of VInt n \<Rightarrow> POk n | _ \<Rightarrow> PPanic)"

definition as_string :: "val \<Rightarrow> bytes pres" where
  "as_string v = (case v of VString s \<Rightarrow> POk s | _ \<Rightarrow> PPanic)"

definition as_bool :: "val \<Rightarrow> bool pres" where
  "as_bool v = (case v of VBool b \<Rightarrow> POk b | _ \<Rightarrow> PPanic)"

definition as_map :: "val \<Rightarrow> mapping pres" where
  "as_map v = (case v of VMap m \<Rightarrow> POk m | _ \<Rightarrow> PPanic)"

definition as_array :: "val \<Rightarrow> val list pres" where
  "as_array v = (case v of VArray vs \<Rightarrow> POk vs | _ \<Rightarrow> PPanic)"

text \<open>No value of a configuration file has the type \<^verbatim>\<open>time.Duration\<close>.\<close>

definition as_duration :: "val \<Rightarrow> int pres" where
  "as_duration v = PPanic"

definition setInt :: "val \<Rightarrow> (int \<Rightarrow> Options) \<Rightarrow> Options pres" where
  "setInt v f = pbind (as_int v) (\<lambda>n. POk (f n))"

definition setString :: "val \<Rightarrow> (bytes \<Rightarrow> Options) \<Rightarrow> Options pres" where
  "setString v f = pbind (as_string v) (\<lambda>s. POk (f s))"

definition setBool :: "val \<Rightarrow> (bool \<Rightarrow> Options) \<Rightarrow> Options pres" where
  "setBool v f = pbind (as_bool v) (\<lambda>b. POk (f b))"

definition second :: int where "second = 1000000000"

section \<open>Addresses\<close>

definition index_of :: "char \<Rightarrow> bytes \<Rightarrow> nat option" where
  "index_of c s = (if c \<in> set s then Some (length (takeWhile (\<lambda>x. x \<noteq> c) s)) else None)"

definition last_index :: "char \<Rightarrow> bytes \<Rightarrow> nat option" where
  "last_index c s = (if c \<in> set s then Some (length s - 1 - length (takeWhile (\<lambda>x. x \<noteq> c) (rev s))) else None)"

text \<open>\<^verbatim>\<open>net.SplitHostPort\<close>; every error is \<open>None\<close>.\<close>

definition SplitHostPort :: "bytes \<Rightarrow> (bytes \<times> bytes) option" where
  "SplitHostPort hp =
     (case last_index (CHR '':'') hp of
        None \<Rightarrow> None
      | Some i \<Rightarrow>
          if take 1 hp = ''['' then
            (case index_of (CHR '']'') hp of
               None \<Rightarrow> None
             | Some e \<Rightarrow>
                 if e + 1 \<noteq> i then None
                 else if CHR ''['' \<in> set (drop 1 hp) \<or> CHR '']'' \<in> set (drop (e + 1) hp) then None
                 else Some (take (e - 1) (drop 1 hp), drop (i + 1) hp))
          else if CHR '':'' \<in> set (take i hp) then None
          else if CHR ''['' \<in> set hp \<or> CHR '']'' \<in> set hp then None
          else Some (take i hp, drop (i + 1) hp))"

definition parseListen :: "val \<Rightarrow> (bytes \<times> int) pres" where
  "parseListen v =
     (case v of
        VInt n \<Rightarrow> POk ([], n)
      | VString s \<Rightarrow>
          (case SplitHostPort s of
             None \<Rightarrow> PErr ''Could not parse address string''
           | Some (host, port) \<Rightarrow>
               (case ParseInt port of IOk n \<Rightarrow> POk (host, n) | _ \<Rightarrow> PErr ''Could not parse port''))
      | _ \<Rightarrow> POk ([], 0))"

section \<open>Users and permissions\<close>

definition checkSubjectArray :: "bytes list \<Rightarrow> bytes list pres" where
  "checkSubjectArray sa = (if list_all IsValidSubject sa then POk sa else PErr ''Subject is not a valid subject'')"

definition parseSubjects :: "val \<Rightarrow> bytes list pres" where
  "parseSubjects v =
     (case v of
        VString s \<Rightarrow> checkSubjectArray [s]
      | VArray vs \<Rightarrow>
          pbind (pmap (\<lambda>i. case i of VString s \<Rightarrow> POk s | _ \<Rightarrow> PErr ''Subject in permissions array cannot be cast to string'') vs)
            checkSubjectArray
      | _ \<Rightarrow> PErr ''Expected subject permissions to be a subject, or array of subjects'')"

definition permission_entry :: "bytes \<times> val \<Rightarrow> Permissions \<Rightarrow> Permissions pres" where
  "permission_entry kv p =
     (let k = ToLower (fst kv) in
      if k = ''pub'' \<or> k = ''publish'' then pbind (parseSubjects (snd kv)) (\<lambda>s. POk (p\<lparr>Publish := s\<rparr>))
      else if k = ''sub'' \<or> k = ''subscribe'' then pbind (parseSubjects (snd kv)) (\<lambda>s. POk (p\<lparr>Subscribe := s\<rparr>))
      else PErr ''Unknown field parsing permissions'')"

definition parseUserPermissions :: "opt_env \<Rightarrow> mapping \<Rightarrow> Permissions pres" where
  "parseUserPermissions E pm = pfold permission_entry (oe_order E pm) \<lparr>Publish = [], Subscribe = []\<rparr>"

definition user_entry :: "opt_env \<Rightarrow> bytes \<times> val \<Rightarrow> User \<Rightarrow> User pres" where
  "user_entry E kv u =
     (let k = ToLower (fst kv); v = snd kv in
      if k = ''user'' \<or> k = ''username'' then pbind (as_string v) (\<lambda>s. POk (u\<lparr>UUsername := s\<rparr>))
      else if k = ''pass'' \<or> k = ''password'' then pbind (as_string v) (\<lambda>s. POk (u\<lparr>UPassword := s\<rparr>))
      else if k = ''permission'' \<or> k = ''permissions'' \<or> k = ''authroization'' then
        (case v of
           VMap pm \<Rightarrow> pbind (parseUserPermissions E pm) (\<lambda>p. POk (u\<lparr>UPermissions := Some p\<rparr>))
         | _ \<Rightarrow> PErr ''Expected user permissions to be a map/struct'')
      else POk u)"

definition parseUser :: "opt_env \<Rightarrow> val \<Rightarrow> User pres" where
  "parseUser E u =
     (case u of
        VMap um \<Rightarrow>
          pbind (pfold (user_entry E) (oe_order E um) \<lparr>UUsername = [], UPassword = [], UPermissions = None\<rparr>)
            (\<lambda>user. if UUsername user = [] \<or> UPassword user = [] then PErr ''User entry requires a user and a password'' else POk user)
      | _ \<Rightarrow> PErr ''Expected user entry to be a map/struct'')"

definition parseUsers :: "opt_env \<Rightarrow> val \<Rightarrow> User list pres" where
  "parseUsers E mv =
     (case mv of VArray uv \<Rightarrow> pmap (parseUser E) uv | _ \<Rightarrow> PErr ''Expected users field to be an array'')"

definition float_one :: "64 word" where "float_one = 0x3FF0000000000000"
definition float_half :: "64 word" where "float_half = 0x3FE0000000000000"

definition timeout_of :: "opt_env \<Rightarrow> 64 word \<Rightarrow> val \<Rightarrow> 64 word" where
  "timeout_of E d v = (case v of VInt n \<Rightarrow> oe_float E n | VFloat f \<Rightarrow> f | _ \<Rightarrow> d)"

text \<open>After every entry: users without permissions get the default ones, once both are known.\<close>

definition fill_permissions :: "authorization \<Rightarrow> authorization" where
  "fill_permissions a =
     (case (a_users a, a_defaultPermissions a) of
        (Some us, Some d) \<Rightarrow>
          a\<lparr>a_users := Some (map (\<lambda>u. if UPermissions u = None then u\<lparr>UPermissions := Some d\<rparr> else u) us)\<rparr>
      | _ \<Rightarrow> a)"

definition auth_entry :: "opt_env \<Rightarrow> bytes \<times> val \<Rightarrow> authorization \<Rightarrow> authorization pres" where
  "auth_entry E kv a =
     (let k = ToLower (fst kv); v = snd kv in
      pbind
        (if k = ''user'' \<or> k = ''username'' then pbind (as_string v) (\<lambda>s. POk (a\<lparr>a_user := s\<rparr>))
         else if k = ''pass'' \<or> k = ''password'' then pbind (as_string v) (\<lambda>s. POk (a\<lparr>a_pass := s\<rparr>))
         else if k = ''timeout'' then POk (a\<lparr>a_timeout := timeout_of E float_one v\<rparr>)
         else if k = ''users'' then pbind (parseUsers E v) (\<lambda>us. POk (a\<lparr>a_users := Some us\<rparr>))
         else if k = ''default_permission'' \<or> k = ''default_permissions'' then
           (case v of
              VMap pm \<Rightarrow> pbind (parseUserPermissions E pm) (\<lambda>p. POk (a\<lparr>a_defaultPermissions := Some p\<rparr>))
            | _ \<Rightarrow> PErr ''Expected default permissions to be a map/struct'')
         else POk a)
        (\<lambda>a1. POk (fill_permissions a1)))"

definition no_authorization :: authorization where
  "no_authorization = \<lparr>a_user = [], a_pass = [], a_users = None, a_timeout = 0, a_defaultPermissions = None\<rparr>"

definition parseAuthorization :: "opt_env \<Rightarrow> mapping \<Rightarrow> authorization pres" where
  "parseAuthorization E am = pfold (auth_entry E) (oe_order E am) no_authorization"

end
