(* ===== verification/Options_Process.thy ===== *)
theory Options_Process
  imports Server_Options
begin

text \<open>
  The TLS and cluster sections of a configuration file, the file as a whole, the merging with the
  command line, the removal of routes to this server, the defaults (src/server/opts.go) and the
  order in which main.go applies them.
\<close>

section \<open>TLS\<close>

definition cipherMap :: "(bytes \<times> int) list" where
  "cipherMap =
     [(''TLS_RSA_WITH_RC4_128_SHA'', 0x0005), (''TLS_RSA_WITH_3DES_EDE_CBC_SHA'', 0x000A), (''TLS_RSA_WITH_AES_128_CBC_SHA'', 0x002F),
      (''TLS_RSA_WITH_AES_128_CBC_SHA256'', 0x003C), (''TLS_RSA_WITH_AES_256_CBC_SHA'', 0x0035), (''TLS_RSA_WITH_AES_256_GCM_SHA384'', 0x009D),
      (''TLS_ECDHE_ECDSA_WITH_RC4_128_SHA'', 0xC007), (''TLS_ECDHE_ECDSA_WITH_AES_128_CBC_SHA'', 0xC009),
      (''TLS_ECDHE_ECDSA_WITH_AES_256_CBC_SHA'', 0xC00A), (''TLS_ECDHE_RSA_WITH_RC4_128_SHA'', 0xC011),
      (''TLS_ECDHE_RSA_WITH_3DES_EDE_CBC_SHA'', 0xC012), (''TLS_ECDHE_RSA_WITH_AES_128_CBC_SHA'', 0xC013),
      (''TLS_ECDHE_RSA_WITH_AES_128_CBC_SHA256'', 0xC027), (''TLS_ECDHE_ECDSA_WITH_AES_128_CBC_SHA256'', 0xC023),
      (''TLS_ECDHE_RSA_WITH_AES_256_CBC_SHA'', 0xC014), (''TLS_ECDHE_RSA_WITH_AES_128_GCM_SHA256'', 0xC02F),
      (''TLS_ECDHE_ECDSA_WITH_AES_128_GCM_SHA256'', 0xC02B), (''TLS_ECDHE_RSA_WITH_AES_256_GCM_SHA384'', 0xC030),
      (''TLS_ECDHE_ECDSA_WITH_AES_256_GCM_SHA384'', 0xC02C), (''TLS_ECDHE_RSA_WITH_CHACHA20_POLY1305'', 0xCCA8),
      (''TLS_ECDHE_ECDSA_WITH_CHACHA20_POLY1305'', 0xCCA9)]"

definition defaultCipherSuites :: "int list" where
  "defaultCipherSuites = [0xCCA9, 0xCCA8, 0xC02C, 0xC02B, 0xC030, 0xC02F]"

definition curvePreferenceMap :: "(bytes \<times> int) list" where
  "curvePreferenceMap = [(''CurveP256'', 23), (''CurveP384'', 24), (''CurveP521'', 25), (''X25519'', 29)]"

definition defaultCurvePreferences :: "int list" where
  "defaultCurvePreferences = [25, 24, 29, 23]"

definition parseCipher :: "bytes \<Rightarrow> int pres" where
  "parseCipher name = (case map_of cipherMap name of None \<Rightarrow> PErr ''Unrecognized cipher'' | Some c \<Rightarrow> POk c)"

definition parseCurvePreferences :: "bytes \<Rightarrow> int pres" where
  "parseCurvePreferences name = (case map_of curvePreferenceMap name of None \<Rightarrow> PErr ''Unrecognized curve preference'' | Some c \<Rightarrow> POk c)"

definition name_list :: "bytes \<Rightarrow> (bytes \<Rightarrow> int pres) \<Rightarrow> val \<Rightarrow> int list pres" where
  "name_list nothing parse_name v =
     pbind (as_array v) (\<lambda>ra. if ra = [] then PErr nothing else pmap (\<lambda>r. pbind (as_string r) parse_name) ra)"

definition tls_entry :: "opt_env \<Rightarrow> bytes \<times> val \<Rightarrow> TLSConfigOpts \<Rightarrow> TLSConfigOpts pres" where
  "tls_entry E kv tc =
     (let k = ToLower (fst kv); v = snd kv in
      if k = ''cert_file'' then (case v of VString s \<Rightarrow> POk (tc\<lparr>t_CertFile := s\<rparr>) | _ \<Rightarrow> PErr ''error parsing tls config, expected cert_file to be filename'')
      else if k = ''key_file'' then (case v of VString s \<Rightarrow> POk (tc\<lparr>t_KeyFile := s\<rparr>) | _ \<Rightarrow> PErr ''error parsing tls config, expected key_file to be filename'')
      else if k = ''ca_file'' then (case v of VString s \<Rightarrow> POk (tc\<lparr>t_CaFile := s\<rparr>) | _ \<Rightarrow> PErr ''error parsing tls config, expected ca_file to be filename'')
      else if k = ''verify'' then (case v of VBool b \<Rightarrow> POk (tc\<lparr>t_Verify := b\<rparr>) | _ \<Rightarrow> PErr ''error parsing tls config, expected verify to be a boolean'')
      else if k = ''cipher_suites'' then
        pbind (name_list ''error parsing tls config, cipher_suites cannot be empty'' parseCipher v) (\<lambda>cs. POk (tc\<lparr>t_Ciphers := Some cs\<rparr>))
      else if k = ''curve_preferences'' then
        pbind (name_list ''error parsing tls config, curve_preferences cannot be empty'' parseCurvePreferences v)
          (\<lambda>cs. POk (tc\<lparr>t_CurvePreferences := Some cs\<rparr>))
      else if k = ''timeout'' then POk (tc\<lparr>t_Timeout := timeout_of E 0 v\<rparr>)
      else PErr ''error parsing tls config, unknown field'')"

definition no_TLSConfigOpts :: TLSConfigOpts where
  "no_TLSConfigOpts = \<lparr>t_CertFile = [], t_KeyFile = [], t_CaFile = [], t_Verify = False, t_Timeout = 0, t_Ciphers = None, t_CurvePreferences = None\<rparr>"

definition parseTLS :: "opt_env \<Rightarrow> mapping \<Rightarrow> TLSConfigOpts pres" where
  "parseTLS E tlsm =
     pbind (pfold (tls_entry E) (oe_order E tlsm) no_TLSConfigOpts)
       (\<lambda>tc. let t1 = (if t_Ciphers tc = None then tc\<lparr>t_Ciphers := Some defaultCipherSuites\<rparr> else tc)
             in POk (if t_CurvePreferences t1 = None then t1\<lparr>t_CurvePreferences := Some defaultCurvePreferences\<rparr> else t1))"

definition nil_list :: "'a list option \<Rightarrow> 'a list" where
  "nil_list x = (case x of None \<Rightarrow> [] | Some l \<Rightarrow> l)"

definition GenTLSConfig :: "opt_env \<Rightarrow> TLSConfigOpts \<Rightarrow> tls_Config pres" where
  "GenTLSConfig E tc =
     (case oe_keypair E (t_CertFile tc) (t_KeyFile tc) of
        Inl err \<Rightarrow> PErr (''error parsing X509 certificate/key pair: '' @ err)
      | Inr cert \<Rightarrow>
          (case oe_leaf E cert of
             None \<Rightarrow> PErr ''error parsing certificate''
           | Some leaf \<Rightarrow>
               let config = \<lparr>tc_CurvePreferences = nil_list (t_CurvePreferences tc), tc_Certificate = leaf, tc_PreferServerCipherSuites = True,
                     tc_MinVersion = 0x0303, tc_CipherSuites = nil_list (t_Ciphers tc), tc_RequireClientCert = t_Verify tc,
                     tc_ClientCAs = None, tc_RootCAs = None\<rparr>
               in if t_CaFile tc = [] then POk config
                  else
                    (case oe_pem E (t_CaFile tc) of
                       Inl err \<Rightarrow> PErr err
                     | Inr rootPEM \<Rightarrow>
                         (case oe_pool E rootPEM of
                            None \<Rightarrow> PErr ''failed to parse root ca certificate''
                          | Some pool \<Rightarrow> POk (config\<lparr>tc_ClientCAs := Some pool\<rparr>)))))"

section \<open>Clusters\<close>

definition route_urls :: "opt_env \<Rightarrow> val \<Rightarrow> URL option list pres" where
  "route_urls E v =
     pbind (as_array v)
       (pmap (\<lambda>r. pbind (as_string r) (\<lambda>s. case oe_url E s of None \<Rightarrow> PErr ''error parsing route url'' | Some u \<Rightarrow> POk (Some u))))"

definition cluster_auth :: "opt_env \<Rightarrow> val \<Rightarrow> Options \<Rightarrow> Options pres" where
  "cluster_auth E v opts =
     pbind (as_map v) (\<lambda>am. pbind (parseAuthorization E am) (\<lambda>auth.
       if a_users auth \<noteq> None then PErr ''Cluster authorization does not allow multiple users''
       else POk (upd_cluster (\<lambda>c. c\<lparr>co_Username := a_user auth, co_Password := a_pass auth, co_AuthTimeout := a_timeout auth\<rparr>) opts)))"

definition cluster_tls :: "opt_env \<Rightarrow> val \<Rightarrow> Options \<Rightarrow> Options pres" where
  "cluster_tls E v opts =
     pbind (as_map v) (\<lambda>tlsm. pbind (parseTLS E tlsm) (\<lambda>tc. pbind (GenTLSConfig E tc) (\<lambda>config.
       POk (upd_cluster (\<lambda>c. c\<lparr>co_TLSConfig := Some (config\<lparr>tc_RequireClientCert := True, tc_RootCAs := tc_ClientCAs config\<rparr>),
                              co_TLSTimeout := t_Timeout tc\<rparr>) opts))))"

definition cluster_entry :: "opt_env \<Rightarrow> bytes \<times> val \<Rightarrow> Options \<Rightarrow> Options pres" where
  "cluster_entry E kv opts =
     (let k = ToLower (fst kv); v = snd kv in
      if k = ''listen'' then pbind (parseListen v) (\<lambda>(h, p). POk (upd_cluster (\<lambda>c. c\<lparr>co_Host := h, co_Port := p\<rparr>) opts))
      else if k = ''port'' then setInt v (\<lambda>n. upd_cluster (\<lambda>c. c\<lparr>co_Port := n\<rparr>) opts)
      else if k = ''host'' \<or> k = ''net'' then setString v (\<lambda>s. upd_cluster (\<lambda>c. c\<lparr>co_Host := s\<rparr>) opts)
      else if k = ''authorization'' then cluster_auth E v opts
      else if k = ''routes'' then pbind (route_urls E v) (\<lambda>us. POk (opts\<lparr>o_Routes := Some us\<rparr>))
      else if k = ''tls'' then cluster_tls E v opts
      else if k = ''no_advertise'' then setBool v (\<lambda>b. upd_cluster (\<lambda>c. c\<lparr>co_NoAdvertise := b\<rparr>) opts)
      else if k = ''connect_retries'' then setInt v (\<lambda>n. upd_cluster (\<lambda>c. c\<lparr>co_ConnectRetries := n\<rparr>) opts)
      else POk opts)"

definition parseCluster :: "opt_env \<Rightarrow> mapping \<Rightarrow> Options \<Rightarrow> Options pres" where
  "parseCluster E cm opts = pfold (cluster_entry E) (oe_order E cm) opts"

section \<open>The file\<close>

definition option_auth :: "opt_env \<Rightarrow> val \<Rightarrow> Options \<Rightarrow> Options pres" where
  "option_auth E v opts =
     pbind (as_map v) (\<lambda>am. pbind (parseAuthorization E am) (\<lambda>auth.
       let o1 = opts\<lparr>o_Username := a_user auth, o_Password := a_pass auth, o_AuthTimeout := a_timeout auth\<rparr> in
       case a_users auth of
         None \<Rightarrow> POk o1
       | Some us \<Rightarrow> if a_user auth \<noteq> [] then PErr ''Can not have a single user/pass and a users array'' else POk (o1\<lparr>o_Users := Some us\<rparr>)))"

definition option_tls :: "opt_env \<Rightarrow> val \<Rightarrow> Options \<Rightarrow> Options pres" where
  "option_tls E v opts =
     pbind (as_map v) (\<lambda>tlsm. pbind (parseTLS E tlsm) (\<lambda>tc. pbind (GenTLSConfig E tc) (\<lambda>config.
       POk (opts\<lparr>o_TLSConfig := Some config, o_TLSTimeout := t_Timeout tc\<rparr>))))"

definition option_entry :: "opt_env \<Rightarrow> bytes \<times> val \<Rightarrow> Options \<Rightarrow> Options pres" where
  "option_entry E kv opts =
     (let k = ToLower (fst kv); v = snd kv in
      if k = ''listen'' then pbind (parseListen v) (\<lambda>(h, p). POk (opts\<lparr>o_Host := h, o_Port := p\<rparr>))
      else if k = ''port'' then setInt v (\<lambda>n. opts\<lparr>o_Port := n\<rparr>)
      else if k = ''host'' \<or> k = ''net'' then setString v (\<lambda>s. opts\<lparr>o_Host := s\<rparr>)
      else if k = ''debug'' then setBool v (\<lambda>b. opts\<lparr>o_Debug := b\<rparr>)
      else if k = ''trace'' then setBool v (\<lambda>b. opts\<lparr>o_Trace := b\<rparr>)
      else if k = ''logtime'' then setBool v (\<lambda>b. opts\<lparr>o_Logtime := b\<rparr>)
      else if k = ''authorization'' then option_auth E v opts
      else if k = ''http'' then pbind (parseListen v) (\<lambda>(h, p). POk (opts\<lparr>o_HTTPHost := h, o_HTTPPort := p\<rparr>))
      else if k = ''https'' then pbind (parseListen v) (\<lambda>(h, p). POk (opts\<lparr>o_HTTPHost := h, o_HTTPSPort := p\<rparr>))
      else if k = ''http_port'' \<or> k = ''monitor_port'' then setInt v (\<lambda>n. opts\<lparr>o_HTTPPort := n\<rparr>)
      else if k = ''https_port'' then setInt v (\<lambda>n. opts\<lparr>o_HTTPSPort := n\<rparr>)
      else if k = ''cluster'' then pbind (as_map v) (\<lambda>cm. parseCluster E cm opts)
      else if k = ''logfile'' \<or> k = ''log_file'' then setString v (\<lambda>s. opts\<lparr>o_LogFile := s\<rparr>)
      else if k = ''syslog'' then setBool v (\<lambda>b. opts\<lparr>o_Syslog := b\<rparr>)
      else if k = ''remote_syslog'' then setString v (\<lambda>s. opts\<lparr>o_RemoteSyslog := s\<rparr>)
      else if k = ''pidfile'' \<or> k = ''pid_file'' then setString v (\<lambda>s. opts\<lparr>o_PidFile := s\<rparr>)
      else if k = ''prof_port'' then setInt v (\<lambda>n. opts\<lparr>o_ProfPort := n\<rparr>)
      else if k = ''max_control_line'' then setInt v (\<lambda>n. opts\<lparr>o_MaxControlLine := n\<rparr>)
      else if k = ''max_payload'' then setInt v (\<lambda>n. opts\<lparr>o_MaxPayload := n\<rparr>)
      else if k = ''max_connections'' \<or> k = ''max_conn'' then setInt v (\<lambda>n. opts\<lparr>o_MaxConn := n\<rparr>)
      else if k = ''ping_interval'' then setInt v (\<lambda>n. opts\<lparr>o_PingInterval := wrap64 (n * second)\<rparr>)
      else if k = ''ping_max'' then setInt v (\<lambda>n. opts\<lparr>o_MaxPingsOut := n\<rparr>)
      else if k = ''health_rank'' then setInt v (\<lambda>n. opts\<lparr>o_HealthRank := n\<rparr>)
      else if k = ''health_lease'' then pbind (as_duration v) (\<lambda>d. POk (opts\<lparr>o_HealthLease := d\<rparr>))
      else if k = ''health_beat'' then pbind (as_duration v) (\<lambda>d. POk (opts\<lparr>o_HealthBeat := d\<rparr>))
      else if k = ''health_agent'' then setBool v (\<lambda>b. opts\<lparr>o_HealthAgent := b\<rparr>)
      else if k = ''tls'' then option_tls E v opts
      else if k = ''write_deadline'' then setInt v (\<lambda>n. opts\<lparr>o_WriteDeadline := wrap64 (n * second)\<rparr>)
      else POk opts)"

text \<open>The loop over the settings of a file.\<close>

definition apply_settings :: "opt_env \<Rightarrow> mapping \<Rightarrow> Options pres" where
  "apply_settings E m = pfold (option_entry E) (oe_order E m) no_Options"

text \<open>\<open>None\<close>: the parser of the file does not return.\<close>

definition ProcessConfigFile :: "opt_env \<Rightarrow> conf_env \<Rightarrow> nat \<Rightarrow> bytes \<Rightarrow> Options pres option" where
  "ProcessConfigFile E C n configFile =
     (if configFile = [] then Some (POk no_Options)
      else map_option (\<lambda>r. pbind r (apply_settings E)) (ParseFile C (parse_conf C n) configFile))"

section \<open>Merging\<close>

fun split_comma :: "bytes \<Rightarrow> bytes list" where
  "split_comma [] = [[]]"
| "split_comma (c # cs) =
     (if c = CHR '','' then [] # split_comma cs
      else case split_comma cs of [] \<Rightarrow> [[c]] | s # ss \<Rightarrow> (c # s) # ss)"

text \<open>An address that does not parse is a nil pointer in the list.\<close>

definition RoutesFromStr :: "opt_env \<Rightarrow> bytes \<Rightarrow> URL option list" where
  "RoutesFromStr E s = map (\<lambda>r. oe_url E (TrimSpace r)) (split_comma s)"

definition mergeRoutes :: "opt_env \<Rightarrow> Options \<Rightarrow> Options \<Rightarrow> Options" where
  "mergeRoutes E opts flagOpts = opts\<lparr>o_Routes := Some (RoutesFromStr E (o_RoutesStr flagOpts)), o_RoutesStr := o_RoutesStr flagOpts\<rparr>"

definition merged_cluster :: "ClusterOpts \<Rightarrow> ClusterOpts \<Rightarrow> ClusterOpts" where
  "merged_cluster c f =
     c\<lparr>co_ListenStr := (if co_ListenStr f \<noteq> [] then co_ListenStr f else co_ListenStr c),
       co_NoAdvertise := (if co_NoAdvertise f then True else co_NoAdvertise c),
       co_ConnectRetries := (if co_ConnectRetries f \<noteq> 0 then co_ConnectRetries f else co_ConnectRetries c)\<rparr>"

definition MergeOptions :: "opt_env \<Rightarrow> Options option \<Rightarrow> Options option \<Rightarrow> Options option" where
  "MergeOptions E fileOpts flagOpts =
     (case (fileOpts, flagOpts) of
        (None, _) \<Rightarrow> flagOpts
      | (_, None) \<Rightarrow> fileOpts
      | (Some opts, Some flags) \<Rightarrow>
          let o1 = opts\<lparr>o_Port := (if o_Port flags \<noteq> 0 then o_Port flags else o_Port opts),
                o_Host := (if o_Host flags \<noteq> [] then o_Host flags else o_Host opts),
                o_Username := (if o_Username flags \<noteq> [] then o_Username flags else o_Username opts),
                o_Password := (if o_Password flags \<noteq> [] then o_Password flags else o_Password opts),
                o_Authorization := (if o_Authorization flags \<noteq> [] then o_Authorization flags else o_Authorization opts),
                o_HTTPPort := (if o_HTTPPort flags \<noteq> 0 then o_HTTPPort flags else o_HTTPPort opts),
                o_Debug := (if o_Debug flags then True else o_Debug opts),
                o_Trace := (if o_Trace flags then True else o_Trace opts),
                o_Logtime := (if o_Logtime flags then True else o_Logtime opts),
                o_LogFile := (if o_LogFile flags \<noteq> [] then o_LogFile flags else o_LogFile opts),
                o_PidFile := (if o_PidFile flags \<noteq> [] then o_PidFile flags else o_PidFile opts),
                o_ProfPort := (if o_ProfPort flags \<noteq> 0 then o_ProfPort flags else o_ProfPort opts),
                o_Cluster := merged_cluster (o_Cluster opts) (o_Cluster flags)\<rparr>
          in Some (if o_RoutesStr flags \<noteq> [] then mergeRoutes E o1 flags else o1))"

section \<open>Routes to this server\<close>

definition isIPInList :: "bytes list \<Rightarrow> bytes list \<Rightarrow> bool" where
  "isIPInList list1 list2 = list_ex (\<lambda>ip1. list_ex (\<lambda>ip2. ip1 = ip2) list2) list1"

definition self_route :: "opt_env \<Rightarrow> int \<Rightarrow> URL option \<Rightarrow> bool pres" where
  "self_route E clusterPort r =
     (case r of
        None \<Rightarrow> PPanic
      | Some u \<Rightarrow>
          (case SplitHostPort (u_Host u) of
             None \<Rightarrow> PErr ''address''
           | Some (host, port) \<Rightarrow> POk (fmt_line clusterPort = port \<and> isIPInList (oe_interfaces E) (oe_lookup E host))))"

definition RemoveSelfReference :: "opt_env \<Rightarrow> int \<Rightarrow> URL option list option \<Rightarrow> URL option list option pres" where
  "RemoveSelfReference E clusterPort routes =
     pbind (pfold (\<lambda>r clean. pbind (self_route E clusterPort r) (\<lambda>self. POk (if self then clean else clean @ [r]))) (nil_list routes) [])
       (\<lambda>clean. POk (if clean = [] then None else Some clean))"

section \<open>Defaults\<close>

definition float_zero :: "64 word \<Rightarrow> bool" where
  "float_zero f \<longleftrightarrow> f = 0 \<or> f = 0x8000000000000000"

definition default_float :: "64 word \<Rightarrow> 64 word \<Rightarrow> 64 word" where
  "default_float d f = (if float_zero f then d else f)"

definition default_int :: "int \<Rightarrow> int \<Rightarrow> int" where
  "default_int d n = (if n = 0 then d else n)"

definition processOptions :: "Options \<Rightarrow> Options" where
  "processOptions opts =
     (let host = (if o_Host opts = [] then ''0.0.0.0'' else o_Host opts)
      in opts\<lparr>o_Host := host,
           o_HTTPHost := (if o_HTTPHost opts = [] then host else o_HTTPHost opts),
           o_Port := (if o_Port opts = 0 then 4222 else if o_Port opts = - 1 then 0 else o_Port opts),
           o_MaxConn := default_int (64 * 1024) (o_MaxConn opts),
           o_PingInterval := default_int (120 * second) (o_PingInterval opts),
           o_MaxPingsOut := default_int 2 (o_MaxPingsOut opts),
           o_TLSTimeout := default_float float_half (o_TLSTimeout opts),
           o_AuthTimeout := default_float float_one (o_AuthTimeout opts),
           o_Cluster := (o_Cluster opts)\<lparr>co_Host := (if co_Host (o_Cluster opts) = [] then ''0.0.0.0'' else co_Host (o_Cluster opts)),
             co_TLSTimeout := default_float float_half (co_TLSTimeout (o_Cluster opts)),
             co_AuthTimeout := default_float float_one (co_AuthTimeout (o_Cluster opts))\<rparr>,
           o_MaxControlLine := default_int 1024 (o_MaxControlLine opts),
           o_MaxPayload := default_int (1024 * 1024 * 1030) (o_MaxPayload opts),
           o_WriteDeadline := default_int (2 * second) (o_WriteDeadline opts)\<rparr>)"

section \<open>Starting\<close>

text \<open>An exit with a message is \<open>PErr\<close>.\<close>

definition configureTLS :: "opt_env \<Rightarrow> Options \<Rightarrow> Options pres" where
  "configureTLS E opts =
     (if \<not> o_TLS opts \<and> \<not> o_TLSVerify opts then POk opts
      else if o_TLSCert opts = [] then PErr ''TLS Server certificate must be present and valid.''
      else if o_TLSKey opts = [] then PErr ''TLS Server private key must be present and valid.''
      else
        pbind (GenTLSConfig E (no_TLSConfigOpts\<lparr>t_CertFile := o_TLSCert opts, t_KeyFile := o_TLSKey opts, t_CaFile := o_TLSCaCert opts,
                 t_Verify := o_TLSVerify opts\<rparr>))
          (\<lambda>config. POk (opts\<lparr>o_TLSConfig := Some config\<rparr>)))"

definition cluster_listen :: "opt_env \<Rightarrow> Options \<Rightarrow> Options pres" where
  "cluster_listen E opts =
     (case oe_url E (co_ListenStr (o_Cluster opts)) of
        None \<Rightarrow> PErr ''url''
      | Some u \<Rightarrow>
          (case SplitHostPort (u_Host u) of
             None \<Rightarrow> PErr ''address''
           | Some (h, p) \<Rightarrow>
               (case oe_sscan E p of
                  None \<Rightarrow> PErr ''port''
                | Some port \<Rightarrow>
                    (case u_User u of
                       None \<Rightarrow> POk (upd_cluster (\<lambda>c. c\<lparr>co_Host := h, co_Port := port, co_Username := [], co_Password := []\<rparr>) opts)
                     | Some (user, None) \<Rightarrow> PErr ''Expected cluster password to be set.''
                     | Some (user, Some pass) \<Rightarrow>
                         POk (upd_cluster (\<lambda>c. c\<lparr>co_Host := h, co_Port := port, co_Username := user, co_Password := pass\<rparr>) opts)))))"

definition configureClusterOpts :: "opt_env \<Rightarrow> Options \<Rightarrow> Options pres" where
  "configureClusterOpts E opts =
     (if co_ListenStr (o_Cluster opts) = [] \<and> co_Host (o_Cluster opts) = [] \<and> co_Port (o_Cluster opts) = 0 then
        (if o_RoutesStr opts \<noteq> [] then PErr ''Solicited routes require cluster capabilities, e.g. --cluster.'' else POk opts)
      else
        pbind (if co_ListenStr (o_Cluster opts) \<noteq> [] then cluster_listen E opts else POk opts)
          (\<lambda>o1. POk (if o_RoutesStr o1 \<noteq> [] \<and> o_Routes o1 = None then o1\<lparr>o_Routes := Some (RoutesFromStr E (o_RoutesStr o1))\<rparr> else o1)))"

definition finish_options :: "opt_env \<Rightarrow> Options \<Rightarrow> Options pres" where
  "finish_options E opts =
     pbind (RemoveSelfReference E (co_Port (o_Cluster opts)) (o_Routes opts)) (\<lambda>routes.
       pbind (configureTLS E (opts\<lparr>o_Routes := routes\<rparr>)) (configureClusterOpts E))"

definition main_options :: "opt_env \<Rightarrow> conf_env \<Rightarrow> nat \<Rightarrow> Options \<Rightarrow> bytes \<Rightarrow> Options pres option" where
  "main_options E C n flags configFile =
     (if configFile = [] then Some (finish_options E flags)
      else map_option (\<lambda>r. pbind r (\<lambda>fileOpts.
               case MergeOptions E (Some fileOpts) (Some flags) of None \<Rightarrow> PPanic | Some opts \<Rightarrow> finish_options E opts))
             (ProcessConfigFile E C n configFile))"

end
