(* ===== verification/Conf_Lex_Props.thy ===== *)
theory Conf_Lex_Props
  imports Conf_Lex
begin

text \<open>
  Progress of the lexer. Between two items every state function moves forward in the input, or
  leaves the machine in a lighter state; the exceptions are the states that wait for a closing
  character and meet the end of the input, which loop for ever.
\<close>

section \<open>Reading and backing up\<close>

lemma DecodeRune_width:
  "s \<noteq> [] \<Longrightarrow> 0 < snd (DecodeRune s) \<and> snd (DecodeRune s) \<le> length s"
  unfolding DecodeRune_def Let_def by (simp split: if_splits add: Suc_le_eq)

lemma next_fields [simp]:
  "lx_input (snd (lx_next lx)) = lx_input lx"
  "lx_start (snd (lx_next lx)) = lx_start lx"
  "lx_items (snd (lx_next lx)) = lx_items lx"
  "lx_stack (snd (lx_next lx)) = lx_stack lx"
  by (simp_all add: lx_next_def Let_def split_beta)

lemma backup_fields [simp]:
  "lx_input (backup lx) = lx_input lx"
  "lx_start (backup lx) = lx_start lx"
  "lx_items (backup lx) = lx_items lx"
  "lx_stack (backup lx) = lx_stack lx"
  "lx_width (backup lx) = lx_width lx"
  "lx_pos (backup lx) = lx_pos lx - lx_width lx"
  by (simp_all add: backup_def Let_def)

lemma ignore_fields [simp]:
  "lx_input (ignore lx) = lx_input lx"
  "lx_start (ignore lx) = lx_pos lx"
  "lx_items (ignore lx) = lx_items lx"
  "lx_stack (ignore lx) = lx_stack lx"
  "lx_pos (ignore lx) = lx_pos lx"
  by (simp_all add: ignore_def)

lemma push_fields [simp]:
  "lx_input (push s lx) = lx_input lx"
  "lx_start (push s lx) = lx_start lx"
  "lx_items (push s lx) = lx_items lx"
  "lx_stack (push s lx) = s # lx_stack lx"
  "lx_pos (push s lx) = lx_pos lx"
  by (simp_all add: push_def)

abbreviation at_eof :: "lexer \<Rightarrow> bool" where
  "at_eof lx \<equiv> lx_pos lx \<ge> length (lx_input lx)"

lemma next_eof [simp]:
  "at_eof lx \<Longrightarrow> fst (lx_next lx) = 0"
  "at_eof lx \<Longrightarrow> lx_pos (snd (lx_next lx)) = lx_pos lx"
  "at_eof lx \<Longrightarrow> lx_width (snd (lx_next lx)) = 0"
  by (simp_all add: lx_next_def)

lemma next_advances:
  assumes "lx_pos lx < length (lx_input lx)"
  shows "lx_pos lx < lx_pos (snd (lx_next lx))" "lx_pos (snd (lx_next lx)) \<le> length (lx_input lx)"
    "lx_pos (snd (lx_next lx)) = lx_pos lx + lx_width (snd (lx_next lx))"
  using assms DecodeRune_width [of "drop (lx_pos lx) (lx_input lx)"]
  by (auto simp: lx_next_def Let_def split_beta)

lemma next_pos [simp]: "lx_pos (snd (lx_next lx)) - lx_width (snd (lx_next lx)) = lx_pos lx"
  by (cases "at_eof lx") (simp_all add: next_advances(3))

lemma next_le [simp]: "lx_pos lx \<le> length (lx_input lx) \<Longrightarrow> lx_pos (snd (lx_next lx)) \<le> length (lx_input lx)"
  by (cases "at_eof lx") (simp_all add: next_advances(2))

lemma next_ge [simp]: "lx_pos lx \<le> lx_pos (snd (lx_next lx))"
  by (cases "at_eof lx") (simp_all add: next_advances(1) less_imp_le)

lemma next_cong:
  assumes "lx_input lx = lx_input lx'" "lx_pos lx = lx_pos lx'"
  shows "fst (lx_next lx) = fst (lx_next lx')" "lx_pos (snd (lx_next lx)) = lx_pos (snd (lx_next lx'))"
    "lx_width (snd (lx_next lx)) = lx_width (snd (lx_next lx'))"
  using assms by (simp_all add: lx_next_def Let_def split_beta)

lemma next_again [simp]:
  "fst (lx_next (backup (snd (lx_next lx)))) = fst (lx_next lx)"
  "lx_pos (snd (lx_next (backup (snd (lx_next lx))))) = lx_pos (snd (lx_next lx))"
  "fst (lx_next (ignore lx)) = fst (lx_next lx)"
  "lx_pos (snd (lx_next (ignore lx))) = lx_pos (snd (lx_next lx))"
  by (rule next_cong; simp)+

lemma next_again2 [simp]:
  "fst (lx_next (snd (lx_next (backup (snd (lx_next lx)))))) = fst (lx_next (snd (lx_next lx)))"
  "lx_pos (snd (lx_next (snd (lx_next (backup (snd (lx_next lx))))))) = lx_pos (snd (lx_next (snd (lx_next lx))))"
  by (rule next_cong; simp)+

text \<open>A rune that is not zero is not the end of the input, so that reading it moved forward.\<close>

lemma next_nonzero: "fst (lx_next lx) \<noteq> 0 \<Longrightarrow> lx_pos lx < lx_pos (snd (lx_next lx))"
  by (cases "at_eof lx") (simp_all add: next_advances(1))

lemma rune_classes [simp]:
  "\<not> IsSpace 0" "\<not> IsDigit ud 0" "\<not> isWhitespace 0" "\<not> isNL 0" "\<not> isKeySeparator 0" "\<not> isNumberSuffix 0" "\<not> isHexadecimal 0"
  "ends_string 0"
  by (simp_all add: IsSpace_def IsDigit_def isWhitespace_def isNL_def isKeySeparator_def isNumberSuffix_def
      isHexadecimal_def ends_string_def eof_def)

lemma peek_next [simp]: "fst (peek lx) = fst (lx_next lx)" "snd (peek lx) = backup (snd (lx_next lx))"
  by (simp_all add: peek_def split_beta Let_def)

section \<open>Weights\<close>

text \<open>
  The weight of a state bounds how many steps the machine can make without moving: a state is
  heavier than the states, and the states it pushes, that it can enter without consuming input.
\<close>

fun weight :: "bool \<Rightarrow> stateFn \<Rightarrow> nat" where
  "weight e Top = (if e then 1 else 8)"
| "weight e TopValueEnd = (if e then 2 else 1)"
| "weight e KeyStart = 6"
| "weight e Key = 5"
| "weight e KeyEnd = 4"
| "weight e Value = 3"
| "weight e IncludeStart = 3"
| "weight e Include = 2"
| "weight e ArrayValue = 5"
| "weight e MapValue = 5"
| "weight e MapKeyEnd = 6"
| "weight e MapKey = 7"
| "weight e MapKeyStart = 8"
| "weight e CommentStart = 2"
| "weight e (Skip s) = Suc (weight e s)"
| "weight e _ = 1"

lemma weight_pos [simp]: "0 < weight e s"
  by (cases s) simp_all

definition heft :: "stateFn \<Rightarrow> lexer \<Rightarrow> nat" where
  "heft s lx = weight (at_eof lx) s + sum_list (map (weight (at_eof lx)) (lx_stack lx))"

text \<open>The states that wait for a closing character, at the end of the input.\<close>

fun waits :: "stateFn \<Rightarrow> bool" where
  "waits DubQuotedKey = True"
| "waits QuotedKey = True"
| "waits IncludeQuotedString = True"
| "waits IncludeDubQuotedString = True"
| "waits MapQuotedKey = True"
| "waits MapDubQuotedKey = True"
| "waits MapKey = True"
| "waits QuotedString = True"
| "waits DubQuotedString = True"
| "waits Block = True"
| "waits _ = False"

definition progress :: "stateFn \<Rightarrow> lexer \<Rightarrow> lexres \<Rightarrow> bool" where
  "progress s lx r =
     (case r of
        To s' lx' \<Rightarrow> lx_input lx' = lx_input lx \<and> lx_pos lx' \<le> length (lx_input lx) \<and>
          (lx_pos lx < lx_pos lx' \<or> lx_pos lx' = lx_pos lx \<and> heft s' lx' < heft s lx)
      | _ \<Rightarrow> True)"

lemma progress_to:
  "progress s lx (To s' lx') \<longleftrightarrow> lx_input lx' = lx_input lx \<and> lx_pos lx' \<le> length (lx_input lx) \<and>
     (lx_pos lx < lx_pos lx' \<or> lx_pos lx' = lx_pos lx \<and> heft s' lx' < heft s lx)"
  by (simp add: progress_def)

lemma progress_end [simp]: "progress s lx (Halt lx')" "progress s lx LexPanic" "progress s lx (errorf m lx')"
  by (simp_all add: progress_def errorf_def)

lemma heft_same:
  "lx_input lx' = lx_input lx \<Longrightarrow> lx_pos lx' = lx_pos lx \<Longrightarrow> lx_stack lx' = st @ lx_stack lx \<Longrightarrow>
   heft s' lx' < heft s lx \<longleftrightarrow> weight (at_eof lx) s' + sum_list (map (weight (at_eof lx)) st) < weight (at_eof lx) s"
  by (simp add: heft_def)

lemma progress_pop:
  assumes "lx_input lx' = lx_input lx" "lx_stack lx' = lx_stack lx" "lx_pos lx \<le> lx_pos lx'" "lx_pos lx' \<le> length (lx_input lx)"
  shows "progress s lx (pop lx')"
  using assms by (cases "lx_stack lx") (auto simp: pop_def progress_to heft_def)

lemma progress_emit:
  assumes "\<And>lx''. lx_input lx'' = lx_input lx' \<Longrightarrow> lx_pos lx'' = lx_pos lx' \<Longrightarrow> lx_stack lx'' = lx_stack lx' \<Longrightarrow>
     lx_pos (snd (lx_next lx'')) = lx_pos (snd (lx_next lx')) \<Longrightarrow> progress s lx (k lx'')"
  shows "progress s lx (emit t lx' k)"
proof -
  have "progress s lx (k (lx'\<lparr>lx_items := its, lx_start := b\<rparr>))" for its b
    by (rule assms) (simp_all add: next_cong(2) [of "lx'\<lparr>lx_items := its, lx_start := b\<rparr>" lx'])
  then show ?thesis by (simp add: emit_def split: option.splits)
qed

lemma next_twice:
  "lx_pos lx < length (lx_input lx) \<Longrightarrow> lx_pos lx < lx_pos (snd (lx_next (snd (lx_next lx))))"
  "lx_pos lx \<le> length (lx_input lx) \<Longrightarrow> lx_pos (snd (lx_next (snd (lx_next lx)))) \<le> length (lx_input lx)"
  using less_le_trans [OF next_advances(1) next_ge] next_le [of "snd (lx_next lx)"] by simp_all

lemmas progress_simps = split_beta Let_def progress_to heft_def eof_def keyCheckKeyword_def next_advances(1) next_twice not_le
lemmas progress_intros = progress_emit progress_pop next_le

section \<open>Every state makes progress\<close>

lemma progress_Top: "lx_pos lx \<le> length (lx_input lx) \<Longrightarrow> progress Top lx (lexTop lx)"
  unfolding lexTop_def
  by (cases "at_eof lx") (auto simp: progress_simps split: option.splits intro!: progress_intros)

lemma progress_TopValueEnd: "lx_pos lx \<le> length (lx_input lx) \<Longrightarrow> progress TopValueEnd lx (lexTopValueEnd lx)"
  unfolding lexTopValueEnd_def
  by (cases "at_eof lx") (auto simp: progress_simps split: option.splits intro!: progress_intros)

lemma progress_KeyStart: "lx_pos lx \<le> length (lx_input lx) \<Longrightarrow> progress KeyStart lx (lexKeyStart lx)"
  unfolding lexKeyStart_def
  by (cases "at_eof lx") (auto simp: progress_simps split: option.splits intro!: progress_intros)

lemma progress_IncludeStart: "lx_pos lx \<le> length (lx_input lx) \<Longrightarrow> progress IncludeStart lx (lexIncludeStart lx)"
  unfolding lexIncludeStart_def
  by (cases "at_eof lx") (auto simp: progress_simps split: option.splits intro!: progress_intros)

lemma progress_IncludeString: "lx_pos lx \<le> length (lx_input lx) \<Longrightarrow> progress IncludeString lx (lexIncludeString lx)"
  unfolding lexIncludeString_def
  by (cases "at_eof lx") (auto simp: progress_simps split: option.splits intro!: progress_intros)

lemma progress_Include: "lx_pos lx \<le> length (lx_input lx) \<Longrightarrow> progress Include lx (lexInclude ud lx)"
  unfolding lexInclude_def
  by (cases "at_eof lx") (auto simp: progress_simps split: option.splits intro!: progress_intros)

lemma progress_Key: "lx_pos lx \<le> length (lx_input lx) \<Longrightarrow> progress Key lx (lexKey lx)"
  unfolding lexKey_def
  by (cases "at_eof lx") (auto simp: progress_simps split: option.splits intro!: progress_intros)

lemma progress_KeyEnd: "lx_pos lx \<le> length (lx_input lx) \<Longrightarrow> progress KeyEnd lx (lexKeyEnd lx)"
  unfolding lexKeyEnd_def
  by (cases "at_eof lx") (auto simp: progress_simps split: option.splits intro!: progress_intros)

lemma progress_Value: "lx_pos lx \<le> length (lx_input lx) \<Longrightarrow> progress Value lx (lexValue ud lx)"
  unfolding lexValue_def
  by (cases "at_eof lx") (auto simp: progress_simps split: option.splits intro!: progress_intros)

lemma progress_ArrayValue: "lx_pos lx \<le> length (lx_input lx) \<Longrightarrow> progress ArrayValue lx (lexArrayValue lx)"
  unfolding lexArrayValue_def
  by (cases "at_eof lx") (auto simp: progress_simps split: option.splits intro!: progress_intros)

lemma progress_ArrayValueEnd: "lx_pos lx \<le> length (lx_input lx) \<Longrightarrow> progress ArrayValueEnd lx (lexArrayValueEnd lx)"
  unfolding lexArrayValueEnd_def
  by (cases "at_eof lx") (auto simp: progress_simps split: option.splits intro!: progress_intros)

lemma progress_ArrayEnd: "lx_pos lx \<le> length (lx_input lx) \<Longrightarrow> progress ArrayEnd lx (lexArrayEnd lx)"
  unfolding lexArrayEnd_def
  by (cases "at_eof lx") (auto simp: progress_simps split: option.splits intro!: progress_intros)

lemma progress_MapKeyStart: "lx_pos lx \<le> length (lx_input lx) \<Longrightarrow> progress MapKeyStart lx (lexMapKeyStart lx)"
  unfolding lexMapKeyStart_def
  by (cases "at_eof lx") (auto simp: progress_simps split: option.splits intro!: progress_intros)

lemma progress_MapKeyEnd: "lx_pos lx \<le> length (lx_input lx) \<Longrightarrow> progress MapKeyEnd lx (lexMapKeyEnd lx)"
  unfolding lexMapKeyEnd_def
  by (cases "at_eof lx") (auto simp: progress_simps split: option.splits intro!: progress_intros)

lemma progress_MapValue: "lx_pos lx \<le> length (lx_input lx) \<Longrightarrow> progress MapValue lx (lexMapValue lx)"
  unfolding lexMapValue_def
  by (cases "at_eof lx") (auto simp: progress_simps split: option.splits intro!: progress_intros)

lemma progress_MapValueEnd: "lx_pos lx \<le> length (lx_input lx) \<Longrightarrow> progress MapValueEnd lx (lexMapValueEnd lx)"
  unfolding lexMapValueEnd_def
  by (cases "at_eof lx") (auto simp: progress_simps split: option.splits intro!: progress_intros)

lemma progress_MapEnd: "lx_pos lx \<le> length (lx_input lx) \<Longrightarrow> progress MapEnd lx (lexMapEnd lx)"
  unfolding lexMapEnd_def
  by (cases "at_eof lx") (auto simp: progress_simps split: option.splits intro!: progress_intros)

lemma isVariable_fields:
  "isVariable lx = Some (b, lx') \<Longrightarrow> lx_input lx' = lx_input lx \<and> lx_pos lx' = lx_pos lx \<and> lx_stack lx' = lx_stack lx \<and> lx_items lx' = lx_items lx"
  by (auto simp: isVariable_def split: if_splits)

lemma progress_String: "lx_pos lx \<le> length (lx_input lx) \<Longrightarrow> progress String lx (lexString lx)"
  unfolding lexString_def
  by (cases "at_eof lx")
    (auto simp: progress_simps split: option.splits bool.splits intro!: progress_intros dest!: isVariable_fields)

lemma progress_StringEscape: "lx_pos lx \<le> length (lx_input lx) \<Longrightarrow> progress StringEscape lx (lexStringEscape lx)"
  unfolding lexStringEscape_def
  by (cases "at_eof lx") (auto simp: progress_simps split: option.splits intro!: progress_intros)

lemma progress_StringBinary: "lx_pos lx \<le> length (lx_input lx) \<Longrightarrow> progress StringBinary lx (lexStringBinary lx)"
  unfolding lexStringBinary_def
  by (cases "at_eof lx") (auto simp: progress_simps split: option.splits intro!: progress_intros)

lemma progress_NumberOrDateOrIPStart: "lx_pos lx \<le> length (lx_input lx) \<Longrightarrow> progress NumberOrDateOrIPStart lx (lexNumberOrDateOrIPStart ud lx)"
  unfolding lexNumberOrDateOrIPStart_def
  by (cases "at_eof lx") (auto simp: progress_simps split: option.splits intro!: progress_intros)

lemma progress_NumberOrDateOrIP: "lx_pos lx \<le> length (lx_input lx) \<Longrightarrow> progress NumberOrDateOrIP lx (lexNumberOrDateOrIP ud lx)"
  unfolding lexNumberOrDateOrIP_def
  by (cases "at_eof lx") (auto simp: progress_simps split: option.splits intro!: progress_intros)

lemma progress_ConvenientNumber: "lx_pos lx \<le> length (lx_input lx) \<Longrightarrow> progress ConvenientNumber lx (lexConvenientNumber lx)"
  unfolding lexConvenientNumber_def
  by (cases "at_eof lx") (auto simp: progress_simps split: option.splits intro!: progress_intros)

lemma progress_NegNumberStart: "lx_pos lx \<le> length (lx_input lx) \<Longrightarrow> progress NegNumberStart lx (lexNegNumberStart ud lx)"
  unfolding lexNegNumberStart_def
  by (cases "at_eof lx") (auto simp: progress_simps split: option.splits intro!: progress_intros)

lemma progress_NegNumber: "lx_pos lx \<le> length (lx_input lx) \<Longrightarrow> progress NegNumber lx (lexNegNumber ud lx)"
  unfolding lexNegNumber_def
  by (cases "at_eof lx") (auto simp: progress_simps split: option.splits intro!: progress_intros)

lemma progress_FloatStart: "lx_pos lx \<le> length (lx_input lx) \<Longrightarrow> progress FloatStart lx (lexFloatStart ud lx)"
  unfolding lexFloatStart_def
  by (cases "at_eof lx") (auto simp: progress_simps split: option.splits intro!: progress_intros)

lemma progress_Float: "lx_pos lx \<le> length (lx_input lx) \<Longrightarrow> progress Float lx (lexFloat ud lx)"
  unfolding lexFloat_def
  by (cases "at_eof lx") (auto simp: progress_simps split: option.splits intro!: progress_intros)

lemma progress_IPAddr: "lx_pos lx \<le> length (lx_input lx) \<Longrightarrow> progress IPAddr lx (lexIPAddr ud lx)"
  unfolding lexIPAddr_def
  by (cases "at_eof lx") (auto simp: progress_simps split: option.splits intro!: progress_intros)

lemma progress_CommentStart: "lx_pos lx \<le> length (lx_input lx) \<Longrightarrow> progress CommentStart lx (lexCommentStart lx)"
  unfolding lexCommentStart_def
  by (cases "at_eof lx") (auto simp: progress_simps split: option.splits intro!: progress_intros)

lemma progress_Comment: "lx_pos lx \<le> length (lx_input lx) \<Longrightarrow> progress Comment lx (lexComment lx)"
  unfolding lexComment_def
  by (cases "at_eof lx") (auto simp: progress_simps split: option.splits intro!: progress_intros)

lemma progress_DubQuotedKey: "lx_pos lx < length (lx_input lx) \<Longrightarrow> progress DubQuotedKey lx (lexDubQuotedKey lx)"
  unfolding lexDubQuotedKey_def
  by (auto simp: progress_simps split: option.splits intro!: progress_intros)

lemma progress_QuotedKey: "lx_pos lx < length (lx_input lx) \<Longrightarrow> progress QuotedKey lx (lexQuotedKey lx)"
  unfolding lexQuotedKey_def
  by (auto simp: progress_simps split: option.splits intro!: progress_intros)

lemma progress_IncludeQuotedString: "lx_pos lx < length (lx_input lx) \<Longrightarrow> progress IncludeQuotedString lx (lexIncludeQuotedString lx)"
  unfolding lexIncludeQuotedString_def
  by (auto simp: progress_simps split: option.splits intro!: progress_intros)

lemma progress_IncludeDubQuotedString: "lx_pos lx < length (lx_input lx) \<Longrightarrow> progress IncludeDubQuotedString lx (lexIncludeDubQuotedString lx)"
  unfolding lexIncludeDubQuotedString_def
  by (auto simp: progress_simps split: option.splits intro!: progress_intros)

lemma progress_MapQuotedKey: "lx_pos lx < length (lx_input lx) \<Longrightarrow> progress MapQuotedKey lx (lexMapQuotedKey lx)"
  unfolding lexMapQuotedKey_def
  by (auto simp: progress_simps split: option.splits intro!: progress_intros)

lemma progress_MapDubQuotedKey: "lx_pos lx < length (lx_input lx) \<Longrightarrow> progress MapDubQuotedKey lx (lexMapDubQuotedKey lx)"
  unfolding lexMapDubQuotedKey_def
  by (auto simp: progress_simps split: option.splits intro!: progress_intros)

lemma progress_MapKey: "lx_pos lx < length (lx_input lx) \<Longrightarrow> progress MapKey lx (lexMapKey lx)"
  unfolding lexMapKey_def
  by (auto simp: progress_simps split: option.splits intro!: progress_intros)

lemma progress_QuotedString: "lx_pos lx < length (lx_input lx) \<Longrightarrow> progress QuotedString lx (lexQuotedString lx)"
  unfolding lexQuotedString_def
  by (auto simp: progress_simps split: option.splits intro!: progress_intros)

lemma progress_DubQuotedString: "lx_pos lx < length (lx_input lx) \<Longrightarrow> progress DubQuotedString lx (lexDubQuotedString lx)"
  unfolding lexDubQuotedString_def
  by (auto simp: progress_simps split: option.splits intro!: progress_intros)


lemma progress_date_format:
  "lx_input lx' = lx_input lx \<Longrightarrow> lx_stack lx' = lx_stack lx \<Longrightarrow> lx_pos lx \<le> lx_pos lx' \<Longrightarrow>
   lx_pos lx' \<le> length (lx_input lx) \<Longrightarrow> progress s lx (date_format ud fs lx')"
proof (induction fs arbitrary: lx')
  case Nil
  then show ?case by (auto intro!: progress_emit progress_pop)
next
  case (Cons f fs)
  have "lx_pos (snd (lx_next lx')) \<le> length (lx_input lx)" using Cons.prems next_le [of lx'] by simp
  moreover have "lx_pos lx \<le> lx_pos (snd (lx_next lx'))" using Cons.prems(3) by (rule le_trans) simp
  ultimately have "progress s lx (date_format ud fs (snd (lx_next lx')))"
    using Cons.prems by (intro Cons.IH) simp_all
  then show ?case by (simp add: split_beta Let_def)
qed


lemma DecodeRune_multi:
  assumes "s \<noteq> []" "128 \<le> byte_at s 0"
  shows "128 \<le> fst (DecodeRune s)"
proof -
  define b0 b1 b2 b3 where "b0 = byte_at s 0" "b1 = byte_at s 1" "b2 = byte_at s 2" "b3 = byte_at s 3"
  have b: "128 \<le> b0" using assms(2) unfolding b0_b1_b2_b3_def .
  have 2: "128 \<le> (b0 - 0xC0) * 64 + x" if "0xC2 \<le> b0" for x using that by linarith
  have 3: "128 \<le> (b0 - 0xE0) * 4096 + (b1 - 0x80) * 64 + x" if "0xE0 \<le> b0" "b0 = 0xE0 \<longrightarrow> 0xA0 \<le> b1" for x using that by linarith
  have 4: "128 \<le> (b0 - 0xF0) * 262144 + (b1 - 0x80) * 4096 + y + x" if "0xF0 \<le> b0" "b0 = 0xF0 \<longrightarrow> 0x90 \<le> b1" for x y using that by linarith
  show ?thesis
    using b assms(1) 2 3 4 unfolding DecodeRune_def Let_def b0_b1_b2_b3_def [symmetric]
    by (simp only: if_False if_True fst_conv not_le [symmetric] simp_thms split: if_split) simp
qed

lemma DecodeRune_byte: "s \<noteq> [] \<Longrightarrow> byte_at s 0 < 128 \<Longrightarrow> DecodeRune s = (byte_at s 0, 1)"
  by (simp add: DecodeRune_def)

lemma DecodeRune_ascii:
  assumes "s \<noteq> []" "fst (DecodeRune s) < 128"
  shows "byte_at s 0 = fst (DecodeRune s)" "snd (DecodeRune s) = 1"
proof -
  have "byte_at s 0 < 128" using DecodeRune_multi [OF assms(1)] assms(2) by linarith
  then show "byte_at s 0 = fst (DecodeRune s)" "snd (DecodeRune s) = 1"
    using DecodeRune_byte [OF assms(1)] by simp_all
qed

lemma DecodeRune_before_ascii:
  assumes "1 < length s" "byte_at s 1 < 128"
  shows "snd (DecodeRune s) = 1"
proof -
  have "\<not> cont (byte_at s 1)" "s \<noteq> []" using assms by (auto simp: cont_def)
  then show ?thesis unfolding DecodeRune_def Let_def by (simp only: if_False if_True simp_thms snd_conv split: if_split)
qed

lemma next_decode:
  "lx_pos lx < length (lx_input lx) \<Longrightarrow> fst (lx_next lx) = fst (DecodeRune (drop (lx_pos lx) (lx_input lx))) \<and>
   lx_width (snd (lx_next lx)) = snd (DecodeRune (drop (lx_pos lx) (lx_input lx))) \<and>
   lx_pos (snd (lx_next lx)) = lx_pos lx + snd (DecodeRune (drop (lx_pos lx) (lx_input lx)))"
  by (simp add: lx_next_def Let_def split_beta)

text \<open>
  Backing up twice over a closing parenthesis and reading twice returns to the same place: the
  parenthesis is one byte, and whatever byte precedes it is read as one byte.
\<close>

lemma block_reread:
  assumes l: "lx_pos lx < length (lx_input lx)" and r: "fst (lx_next lx) = ch (CHR '')'')"
  shows "lx_pos lx < lx_pos (snd (lx_next (snd (lx_next (backup (backup (snd (lx_next lx))))))))"
proof -
  let ?i = "lx_pos lx" and ?s = "lx_input lx" and ?b = "backup (backup (snd (lx_next lx)))"
  have d: "fst (DecodeRune (drop ?i ?s)) = 41" using next_decode [OF l] r by simp
  have w: "lx_width (snd (lx_next lx)) = 1" and b: "byte_at ?s ?i = 41"
    using DecodeRune_ascii [of "drop ?i ?s"] d l next_decode [OF l] by simp_all
  have p: "lx_pos ?b = ?i - 1" using w next_pos [of lx] by simp
  show ?thesis
  proof (cases "?i = 0")
    case True
    have "lx_pos (snd (lx_next ?b)) > 0" using p l True next_advances(1) [of ?b] by simp
    with True show ?thesis using less_le_trans [OF _ next_ge [of "snd (lx_next ?b)"]] by simp
  next
    case False
    have "snd (DecodeRune (drop (?i - 1) ?s)) = 1"
      using False l b by (intro DecodeRune_before_ascii) simp_all
    then have "lx_pos (snd (lx_next ?b)) = ?i" using next_decode [of ?b] p l False by simp
    then show ?thesis using next_advances(1) [of "snd (lx_next ?b)"] l by simp
  qed
qed

lemma progress_Block:
  assumes l: "lx_pos lx < length (lx_input lx)"
  shows "progress Block lx (lexBlock lx)"
proof (cases "fst (lx_next lx) = ch (CHR '')'')")
  case False
  then show ?thesis using l by (simp add: lexBlock_def progress_simps)
next
  case True
  let ?c = "snd (lx_next (snd (lx_next (backup (backup (snd (lx_next lx)))))))"
  have p: "lx_pos lx < lx_pos ?c" using l True by (rule block_reread)
  have q: "lx_pos ?c \<le> length (lx_input lx)"
    using next_twice(2) [of "backup (backup (snd (lx_next lx)))"] next_le [of lx] l by simp
  have e: "lx_pos lx \<le> lx_pos (snd (lx_next (backup (backup (snd (lx_next ?c))))))" if "fst (lx_next ?c) < 128"
  proof -
    have "lx_width (snd (lx_next ?c)) \<le> 1"
      using that next_decode [of ?c] DecodeRune_ascii(2) [of "drop (lx_pos ?c) (lx_input lx)"] by (cases "at_eof ?c") simp_all
    then have "lx_pos lx \<le> lx_pos (backup (backup (snd (lx_next ?c))))" using p next_pos [of ?c] by simp
    also have "\<dots> \<le> lx_pos (snd (lx_next (backup (backup (snd (lx_next ?c))))))" by (rule next_ge)
    finally show ?thesis .
  qed
  have e': "lx_pos (snd (lx_next (backup (backup (snd (lx_next ?c)))))) \<le> length (lx_input lx)"
    using next_le [of "backup (backup (snd (lx_next ?c)))"] next_le [of ?c] q by simp
  have b: "lexBlock lx =
    (if fst (lx_next (backup (backup (snd (lx_next lx))))) \<noteq> 10 then To Block ?c
     else if fst (lx_next ?c) = 10 \<or> fst (lx_next ?c) = eof
       then emit itemString (backup (backup (snd (lx_next ?c)))) (\<lambda>lx. pop (ignore (snd (lx_next lx))))
     else To Block (backup (snd (lx_next ?c))))"
    using True by (simp add: lexBlock_def split_beta Let_def)
  show ?thesis
    unfolding b using p q e e'
    by (auto simp only: progress_to eof_def next_fields backup_fields next_pos ignore_fields split: if_splits
        intro!: progress_emit progress_pop)
qed

lemma progress_DateAfterYear: "lx_pos lx \<le> length (lx_input lx) \<Longrightarrow> progress DateAfterYear lx (lexDateAfterYear ud lx)"
  unfolding lexDateAfterYear_def by (rule progress_date_format) simp_all

lemmas progress_state_rules = progress_DateAfterYear progress_Top progress_TopValueEnd progress_KeyStart progress_IncludeStart progress_IncludeString progress_Include progress_Key progress_KeyEnd progress_Value progress_ArrayValue progress_ArrayValueEnd progress_ArrayEnd progress_MapKeyStart progress_MapKeyEnd progress_MapValue progress_MapValueEnd progress_MapEnd progress_String progress_StringEscape progress_StringBinary progress_NumberOrDateOrIPStart progress_NumberOrDateOrIP progress_ConvenientNumber progress_NegNumberStart progress_NegNumber progress_FloatStart progress_Float progress_IPAddr progress_CommentStart progress_Comment progress_DubQuotedKey progress_QuotedKey progress_IncludeQuotedString progress_IncludeDubQuotedString progress_MapQuotedKey progress_MapDubQuotedKey progress_MapKey progress_QuotedString progress_DubQuotedString progress_Block

lemma progress_state:
  assumes "lx_pos lx \<le> length (lx_input lx)" "\<not> (waits s \<and> at_eof lx)"
  shows "progress s lx (run_state ud s lx)"
  using assms
  by (cases s) (simp_all add: progress_state_rules progress_to heft_def)

section \<open>Texts without quotes, blocks and maps\<close>

fun tame :: "stateFn \<Rightarrow> bool" where
  "tame MapKeyStart = False"
| "tame MapKeyEnd = False"
| "tame MapValue = False"
| "tame MapValueEnd = False"
| "tame MapEnd = False"
| "tame (Skip s) = tame s"
| "tame s = (\<not> waits s)"

text \<open>No double quote, single quote, opening parenthesis or opening brace.\<close>

definition tame_text :: "bytes \<Rightarrow> bool" where
  "tame_text s \<longleftrightarrow> list_all (\<lambda>c. (of_char c :: nat) \<notin> {34, 39, 40, 123}) s"

definition tame_lexer :: "stateFn \<Rightarrow> lexer \<Rightarrow> bool" where
  "tame_lexer s lx \<longleftrightarrow> tame s \<and> list_all tame (lx_stack lx) \<and> tame_text (lx_input lx)"

definition keeps_tame :: "lexer \<Rightarrow> lexres \<Rightarrow> bool" where
  "keeps_tame lx r = (case r of To s' lx' \<Rightarrow> tame s' \<and> list_all tame (lx_stack lx') | _ \<Rightarrow> True)"

lemma keeps_tame_to: "keeps_tame lx (To s' lx') \<longleftrightarrow> tame s' \<and> list_all tame (lx_stack lx')"
  by (simp add: keeps_tame_def)

lemma keeps_tame_end [simp]: "keeps_tame lx (Halt lx')" "keeps_tame lx LexPanic" "keeps_tame lx (errorf m lx')"
  by (simp_all add: keeps_tame_def errorf_def)

lemma keeps_tame_pop: "list_all tame (lx_stack lx') \<Longrightarrow> keeps_tame lx (pop lx')"
  by (cases "lx_stack lx'") (simp_all add: pop_def keeps_tame_to)

lemma keeps_tame_emit:
  assumes "\<And>lx''. lx_stack lx'' = lx_stack lx' \<Longrightarrow> keeps_tame lx (k lx'')"
  shows "keeps_tame lx (emit t lx' k)"
  by (simp add: emit_def assms split: option.splits)

lemma tame_rune:
  assumes "tame_text (lx_input lx)"
  shows "fst (lx_next lx) \<notin> {34, 39, 40, 123}"
proof
  assume r: "fst (lx_next lx) \<in> {34, 39, 40, 123}"
  let ?s = "drop (lx_pos lx) (lx_input lx)"
  have l: "lx_pos lx < length (lx_input lx)" using r by (cases "at_eof lx") auto
  then have n: "?s \<noteq> []" by simp
  have f: "fst (DecodeRune ?s) = fst (lx_next lx)" using next_decode [OF l] by simp
  then have "byte_at ?s 0 = fst (lx_next lx)" using DecodeRune_ascii(1) [OF n] r by auto
  then have "of_char (lx_input lx ! lx_pos lx) \<in> {34, 39, 40, 123 :: nat}" using l r by simp
  moreover have "lx_input lx ! lx_pos lx \<in> set (lx_input lx)" using l by simp
  ultimately show False using assms by (auto simp: tame_text_def list_all_iff)
qed

lemma keeps_tame_date_format:
  "list_all tame (lx_stack lx') \<Longrightarrow> keeps_tame lx (date_format ud fs lx')"
  by (induction fs arbitrary: lx') (auto simp: split_beta Let_def intro!: keeps_tame_emit keeps_tame_pop)

lemmas tame_simps = split_beta Let_def keeps_tame_to keyCheckKeyword_def
lemmas tame_intros = keeps_tame_emit keeps_tame_pop

lemma keeps_tame_Top: "tame_text (lx_input lx) \<Longrightarrow> list_all tame (lx_stack lx) \<Longrightarrow> keeps_tame lx (lexTop lx)"
  unfolding lexTop_def using tame_rune [of lx]
  by (auto simp: tame_simps split: option.splits bool.splits intro!: tame_intros)

lemma keeps_tame_TopValueEnd: "tame_text (lx_input lx) \<Longrightarrow> list_all tame (lx_stack lx) \<Longrightarrow> keeps_tame lx (lexTopValueEnd lx)"
  unfolding lexTopValueEnd_def using tame_rune [of lx]
  by (auto simp: tame_simps split: option.splits bool.splits intro!: tame_intros)

lemma keeps_tame_KeyStart: "tame_text (lx_input lx) \<Longrightarrow> list_all tame (lx_stack lx) \<Longrightarrow> keeps_tame lx (lexKeyStart lx)"
  unfolding lexKeyStart_def using tame_rune [of lx]
  by (auto simp: tame_simps split: option.splits bool.splits intro!: tame_intros)

lemma keeps_tame_IncludeStart: "tame_text (lx_input lx) \<Longrightarrow> list_all tame (lx_stack lx) \<Longrightarrow> keeps_tame lx (lexIncludeStart lx)"
  unfolding lexIncludeStart_def using tame_rune [of lx]
  by (auto simp: tame_simps split: option.splits bool.splits intro!: tame_intros)

lemma keeps_tame_IncludeString: "tame_text (lx_input lx) \<Longrightarrow> list_all tame (lx_stack lx) \<Longrightarrow> keeps_tame lx (lexIncludeString lx)"
  unfolding lexIncludeString_def using tame_rune [of lx]
  by (auto simp: tame_simps split: option.splits bool.splits intro!: tame_intros)

lemma keeps_tame_Include: "tame_text (lx_input lx) \<Longrightarrow> list_all tame (lx_stack lx) \<Longrightarrow> keeps_tame lx (lexInclude ud lx)"
  unfolding lexInclude_def using tame_rune [of lx]
  by (auto simp: tame_simps split: option.splits bool.splits intro!: tame_intros)

lemma keeps_tame_Key: "tame_text (lx_input lx) \<Longrightarrow> list_all tame (lx_stack lx) \<Longrightarrow> keeps_tame lx (lexKey lx)"
  unfolding lexKey_def using tame_rune [of lx]
  by (auto simp: tame_simps split: option.splits bool.splits intro!: tame_intros)

lemma keeps_tame_KeyEnd: "tame_text (lx_input lx) \<Longrightarrow> list_all tame (lx_stack lx) \<Longrightarrow> keeps_tame lx (lexKeyEnd lx)"
  unfolding lexKeyEnd_def using tame_rune [of lx]
  by (auto simp: tame_simps split: option.splits bool.splits intro!: tame_intros)

lemma keeps_tame_Value: "tame_text (lx_input lx) \<Longrightarrow> list_all tame (lx_stack lx) \<Longrightarrow> keeps_tame lx (lexValue ud lx)"
  unfolding lexValue_def using tame_rune [of lx]
  by (auto simp: tame_simps split: option.splits bool.splits intro!: tame_intros)

lemma keeps_tame_ArrayValue: "tame_text (lx_input lx) \<Longrightarrow> list_all tame (lx_stack lx) \<Longrightarrow> keeps_tame lx (lexArrayValue lx)"
  unfolding lexArrayValue_def using tame_rune [of lx]
  by (auto simp: tame_simps split: option.splits bool.splits intro!: tame_intros)

lemma keeps_tame_ArrayValueEnd: "tame_text (lx_input lx) \<Longrightarrow> list_all tame (lx_stack lx) \<Longrightarrow> keeps_tame lx (lexArrayValueEnd lx)"
  unfolding lexArrayValueEnd_def using tame_rune [of lx]
  by (auto simp: tame_simps split: option.splits bool.splits intro!: tame_intros)

lemma keeps_tame_ArrayEnd: "tame_text (lx_input lx) \<Longrightarrow> list_all tame (lx_stack lx) \<Longrightarrow> keeps_tame lx (lexArrayEnd lx)"
  unfolding lexArrayEnd_def using tame_rune [of lx]
  by (auto simp: tame_simps split: option.splits bool.splits intro!: tame_intros)

lemma keeps_tame_String: "tame_text (lx_input lx) \<Longrightarrow> list_all tame (lx_stack lx) \<Longrightarrow> keeps_tame lx (lexString lx)"
  unfolding lexString_def using tame_rune [of lx]
  by (auto simp: tame_simps split: option.splits bool.splits intro!: tame_intros dest!: isVariable_fields)

lemma keeps_tame_StringEscape: "tame_text (lx_input lx) \<Longrightarrow> list_all tame (lx_stack lx) \<Longrightarrow> keeps_tame lx (lexStringEscape lx)"
  unfolding lexStringEscape_def using tame_rune [of lx]
  by (auto simp: tame_simps split: option.splits bool.splits intro!: tame_intros)

lemma keeps_tame_StringBinary: "tame_text (lx_input lx) \<Longrightarrow> list_all tame (lx_stack lx) \<Longrightarrow> keeps_tame lx (lexStringBinary lx)"
  unfolding lexStringBinary_def using tame_rune [of lx]
  by (auto simp: tame_simps split: option.splits bool.splits intro!: tame_intros)

lemma keeps_tame_NumberOrDateOrIPStart: "tame_text (lx_input lx) \<Longrightarrow> list_all tame (lx_stack lx) \<Longrightarrow> keeps_tame lx (lexNumberOrDateOrIPStart ud lx)"
  unfolding lexNumberOrDateOrIPStart_def using tame_rune [of lx]
  by (auto simp: tame_simps split: option.splits bool.splits intro!: tame_intros)

lemma keeps_tame_NumberOrDateOrIP: "tame_text (lx_input lx) \<Longrightarrow> list_all tame (lx_stack lx) \<Longrightarrow> keeps_tame lx (lexNumberOrDateOrIP ud lx)"
  unfolding lexNumberOrDateOrIP_def using tame_rune [of lx]
  by (auto simp: tame_simps split: option.splits bool.splits intro!: tame_intros)

lemma keeps_tame_ConvenientNumber: "tame_text (lx_input lx) \<Longrightarrow> list_all tame (lx_stack lx) \<Longrightarrow> keeps_tame lx (lexConvenientNumber lx)"
  unfolding lexConvenientNumber_def using tame_rune [of lx]
  by (auto simp: tame_simps split: option.splits bool.splits intro!: tame_intros)

lemma keeps_tame_NegNumberStart: "tame_text (lx_input lx) \<Longrightarrow> list_all tame (lx_stack lx) \<Longrightarrow> keeps_tame lx (lexNegNumberStart ud lx)"
  unfolding lexNegNumberStart_def using tame_rune [of lx]
  by (auto simp: tame_simps split: option.splits bool.splits intro!: tame_intros)

lemma keeps_tame_NegNumber: "tame_text (lx_input lx) \<Longrightarrow> list_all tame (lx_stack lx) \<Longrightarrow> keeps_tame lx (lexNegNumber ud lx)"
  unfolding lexNegNumber_def using tame_rune [of lx]
  by (auto simp: tame_simps split: option.splits bool.splits intro!: tame_intros)

lemma keeps_tame_FloatStart: "tame_text (lx_input lx) \<Longrightarrow> list_all tame (lx_stack lx) \<Longrightarrow> keeps_tame lx (lexFloatStart ud lx)"
  unfolding lexFloatStart_def using tame_rune [of lx]
  by (auto simp: tame_simps split: option.splits bool.splits intro!: tame_intros)

lemma keeps_tame_Float: "tame_text (lx_input lx) \<Longrightarrow> list_all tame (lx_stack lx) \<Longrightarrow> keeps_tame lx (lexFloat ud lx)"
  unfolding lexFloat_def using tame_rune [of lx]
  by (auto simp: tame_simps split: option.splits bool.splits intro!: tame_intros)

lemma keeps_tame_IPAddr: "tame_text (lx_input lx) \<Longrightarrow> list_all tame (lx_stack lx) \<Longrightarrow> keeps_tame lx (lexIPAddr ud lx)"
  unfolding lexIPAddr_def using tame_rune [of lx]
  by (auto simp: tame_simps split: option.splits bool.splits intro!: tame_intros)

lemma keeps_tame_CommentStart: "tame_text (lx_input lx) \<Longrightarrow> list_all tame (lx_stack lx) \<Longrightarrow> keeps_tame lx (lexCommentStart lx)"
  unfolding lexCommentStart_def using tame_rune [of lx]
  by (auto simp: tame_simps split: option.splits bool.splits intro!: tame_intros)

lemma keeps_tame_Comment: "tame_text (lx_input lx) \<Longrightarrow> list_all tame (lx_stack lx) \<Longrightarrow> keeps_tame lx (lexComment lx)"
  unfolding lexComment_def using tame_rune [of lx]
  by (auto simp: tame_simps split: option.splits bool.splits intro!: tame_intros)

lemma keeps_tame_DateAfterYear: "list_all tame (lx_stack lx) \<Longrightarrow> keeps_tame lx (lexDateAfterYear ud lx)"
  unfolding lexDateAfterYear_def by (rule keeps_tame_date_format)

lemmas keeps_tame_rules = keeps_tame_DateAfterYear keeps_tame_Top keeps_tame_TopValueEnd keeps_tame_KeyStart keeps_tame_IncludeStart keeps_tame_IncludeString keeps_tame_Include keeps_tame_Key keeps_tame_KeyEnd keeps_tame_Value keeps_tame_ArrayValue keeps_tame_ArrayValueEnd keeps_tame_ArrayEnd keeps_tame_String keeps_tame_StringEscape keeps_tame_StringBinary keeps_tame_NumberOrDateOrIPStart keeps_tame_NumberOrDateOrIP keeps_tame_ConvenientNumber keeps_tame_NegNumberStart keeps_tame_NegNumber keeps_tame_FloatStart keeps_tame_Float keeps_tame_IPAddr keeps_tame_CommentStart keeps_tame_Comment

lemma keeps_tame_state: "tame_lexer s lx \<Longrightarrow> keeps_tame lx (run_state ud s lx)"
  by (cases s) (simp_all add: tame_lexer_def keeps_tame_rules keeps_tame_to)

section \<open>Calls of nextItem return\<close>

definition lex_size :: "stateFn option \<Rightarrow> lexer \<Rightarrow> nat \<times> nat" where
  "lex_size st lx = (case st of None \<Rightarrow> (0, 0) | Some s \<Rightarrow> (Suc (length (lx_input lx) - lx_pos lx), heft s lx))"

definition lex_order :: "((stateFn option \<times> lexer) \<times> (stateFn option \<times> lexer)) set" where
  "lex_order = inv_image (less_than <*lex*> less_than <*lex*> less_than)
     (\<lambda>(st, lx). (fst (lex_size st lx), snd (lex_size st lx), length (lx_items lx)))"

lemma wf_lex_order: "wf lex_order"
  unfolding lex_order_def by (intro wf_inv_image wf_lex_prod wf_less_than)

lemma trans_lex_order: "trans lex_order"
  unfolding lex_order_def by (intro trans_inv_image trans_lex_prod trans_less_than)

lemma lex_order_iff:
  "((st', lx'), st, lx) \<in> lex_order \<longleftrightarrow>
     fst (lex_size st' lx') < fst (lex_size st lx) \<or>
     fst (lex_size st' lx') = fst (lex_size st lx) \<and>
       (snd (lex_size st' lx') < snd (lex_size st lx) \<or>
        snd (lex_size st' lx') = snd (lex_size st lx) \<and> length (lx_items lx') < length (lx_items lx))"
  by (simp add: lex_order_def)

lemma lex_order_step:
  assumes "progress s lx (To s' lx')" "lx_pos lx \<le> length (lx_input lx)"
  shows "((Some s', lx'), Some s, lx) \<in> lex_order"
  using assms by (auto simp: lex_order_iff lex_size_def progress_to)

lemma lex_order_halt: "((None, lx'), Some s, lx) \<in> lex_order"
  by (simp add: lex_order_iff lex_size_def)

definition tame_at :: "stateFn option \<Rightarrow> lexer \<Rightarrow> bool" where
  "tame_at st lx = (case st of None \<Rightarrow> True | Some s \<Rightarrow> tame_lexer s lx \<and> lx_pos lx \<le> length (lx_input lx))"

lemma tame_not_waits: "tame s \<Longrightarrow> \<not> waits s"
  by (cases s) simp_all

lemma tame_step:
  assumes "tame_at (Some s) lx" "run_state ud s lx = To s' lx'"
  shows "tame_at (Some s') lx'" "((Some s', lx'), Some s, lx) \<in> lex_order"
proof -
  have t: "tame_lexer s lx" "lx_pos lx \<le> length (lx_input lx)" using assms(1) by (simp_all add: tame_at_def)
  then have "\<not> waits s" by (simp add: tame_lexer_def tame_not_waits)
  then have p: "progress s lx (To s' lx')" using progress_state [OF t(2)] assms(2) by metis
  then show "((Some s', lx'), Some s, lx) \<in> lex_order" using t(2) by (rule lex_order_step)
  have "keeps_tame lx (To s' lx')" using keeps_tame_state [OF t(1)] assms(2) by metis
  then show "tame_at (Some s') lx'" using p t by (simp add: tame_at_def tame_lexer_def keeps_tame_to progress_to)
qed

text \<open>A call returns, and leaves less to do.\<close>

lemma nextItem_returns:
  "tame_at st lx \<Longrightarrow>
   \<exists>r. nextItem ud st lx = Some r \<and>
     (\<forall>it st' lx'. r = Got it st' lx' \<longrightarrow> tame_at st' lx' \<and> ((st', lx'), st, lx) \<in> lex_order)"
proof (induction "(st, lx)" arbitrary: st lx rule: wf_induct_rule [OF wf_lex_order])
  case 1
  show ?case
  proof (cases "lx_items lx")
    case (Cons it its)
    have "((st, lx\<lparr>lx_items := its\<rparr>), st, lx) \<in> lex_order"
      using Cons by (cases st) (simp_all add: lex_order_iff lex_size_def heft_def)
    moreover have "tame_at st (lx\<lparr>lx_items := its\<rparr>)"
      using "1.prems" by (cases st) (simp_all add: tame_at_def tame_lexer_def)
    ultimately show ?thesis using Cons by (subst nextItem.simps) simp
  next
    case N: Nil
    show ?thesis
    proof (cases st)
      case None
      then show ?thesis using N by (subst nextItem.simps) simp
    next
      case (Some s)
      show ?thesis
      proof (cases "run_state ud s lx")
        case LexPanic
        then show ?thesis using N Some by (subst nextItem.simps) simp
      next
        case (Halt lx')
        have o: "((None, lx'), st, lx) \<in> lex_order" unfolding Some by (rule lex_order_halt)
        have "nextItem ud st lx = nextItem ud None lx'" using N Some Halt by (subst nextItem.simps) simp
        then show ?thesis
          using "1.hyps" [OF o] transD [OF trans_lex_order _ o] by (fastforce simp: tame_at_def)
      next
        case (To s' lx')
        have o: "((Some s', lx'), st, lx) \<in> lex_order" and t: "tame_at (Some s') lx'"
          using tame_step [OF _ To] "1.prems" unfolding Some by simp_all
        have "nextItem ud st lx = nextItem ud (Some s') lx'" using N Some To by (subst nextItem.simps) simp
        then show ?thesis
          using "1.hyps" [OF o t] transD [OF trans_lex_order _ o] by fastforce
      qed
    qed
  qed
qed

text \<open>At the end of the input a state that waits for a closing character waits for ever.\<close>

lemma waits_stays:
  assumes "waits s" "at_eof lx"
  shows "\<exists>lx'. run_state ud s lx = To s lx' \<and> at_eof lx' \<and> lx_items lx' = lx_items lx"
  using assms
  by (cases s) (simp_all add: lexDubQuotedKey_def lexQuotedKey_def lexIncludeQuotedString_def lexIncludeDubQuotedString_def
      lexMapQuotedKey_def lexMapDubQuotedKey_def lexMapKey_def lexQuotedString_def lexDubQuotedString_def lexBlock_def
      split_beta Let_def)

lemma waits_hangs_aux:
  assumes "nextItem ud st lx = Some r"
  shows "\<not> (\<exists>s. st = Some s \<and> waits s \<and> at_eof lx \<and> lx_items lx = [])"
proof (rule nextItem.raw_induct [OF _ assms, of "\<lambda>ud st lx r. \<not> (\<exists>s. st = Some s \<and> waits s \<and> at_eof lx \<and> lx_items lx = [])"])
  fix f ud st lx r
  assume IH: "\<And>ud st lx y. f ud st lx = Some y \<Longrightarrow> \<not> (\<exists>s. st = Some s \<and> waits s \<and> at_eof lx \<and> lx_items lx = [])"
    and r: "(case lx_items lx of [] \<Rightarrow> (case st of None \<Rightarrow> Some NextPanic | Some s \<Rightarrow>
        (case run_state ud s lx of To s' lx' \<Rightarrow> f ud (Some s') lx' | Halt lx' \<Rightarrow> f ud None lx' | LexPanic \<Rightarrow> Some NextPanic))
      | it # its \<Rightarrow> Some (Got it st (lx\<lparr>lx_items := its\<rparr>))) = Some r"
  show "\<not> (\<exists>s. st = Some s \<and> waits s \<and> at_eof lx \<and> lx_items lx = [])"
  proof
    assume "\<exists>s. st = Some s \<and> waits s \<and> at_eof lx \<and> lx_items lx = []"
    then obtain s where s: "st = Some s" "waits s" "at_eof lx" "lx_items lx = []" by blast
    then obtain lx' where lx': "run_state ud s lx = To s lx'" "at_eof lx'" "lx_items lx' = lx_items lx"
      using waits_stays by blast
    then have "f ud (Some s) lx' = Some r" using r s by simp
    from IH [OF this] show False using s lx' by simp
  qed
qed

lemma waits_hangs: "waits s \<Longrightarrow> at_eof lx \<Longrightarrow> lx_items lx = [] \<Longrightarrow> nextItem ud (Some s) lx = None"
  using waits_hangs_aux by (cases "nextItem ud (Some s) lx") blast+

end
