(* ===== verification/Conf_Settings.thy ===== *)
theory Conf_Settings
  imports Conf_Props
begin

text \<open>
  Whole runs of the configuration lexer and parser on texts of one setting, for every key and
  every value: what is read back, what is refused, and what is cut short.
\<close>

section \<open>Lexing one setting\<close>

abbreviation lexer_at :: "bytes \<Rightarrow> nat \<Rightarrow> nat \<Rightarrow> nat \<Rightarrow> int \<Rightarrow> stateFn list \<Rightarrow> lexer" where
  "lexer_at inp a p w ln st \<equiv>
     \<lparr>lx_input = inp, lx_start = a, lx_pos = p, lx_width = w, lx_line = ln, lx_items = [], lx_stack = st\<rparr>"

lemma next_at:
  assumes "p < length inp" "of_char (inp ! p) < (128 :: nat)"
  shows "lx_next (lexer_at inp a p w ln st) =
    (of_char (inp ! p), lexer_at inp a (Suc p) (Suc 0) (if inp ! p = LF then ln + 1 else ln) st)"
proof -
  have "DecodeRune (drop p inp) = (of_char (inp ! p), 1)"
    using assms DecodeRune_byte [of "drop p inp"] by simp
  then show ?thesis using assms(1) by (simp add: lx_next_def Let_def hd_drop_conv_nth)
qed

lemma next_at_end: "length inp \<le> p \<Longrightarrow> lx_next (lexer_at inp a p w ln st) = (0, lexer_at inp a p 0 ln st)"
  by (simp add: lx_next_def)

lemma backup_at: "p < length inp \<Longrightarrow> inp ! p \<noteq> LF \<Longrightarrow> backup (lexer_at inp a (Suc p) (Suc 0) ln st) = lexer_at inp a p (Suc 0) ln st"
  by (simp add: backup_def)

lemma backup_at_end: "length inp \<le> p \<Longrightarrow> backup (lexer_at inp a p 0 ln st) = lexer_at inp a p 0 ln st"
  by (simp add: backup_def)

lemma nextItem_step:
  "lx_items lx = [] \<Longrightarrow> run_state ud s lx = To s' lx' \<Longrightarrow> nextItem ud (Some s) lx = nextItem ud (Some s') lx'"
  by (subst nextItem.simps) simp

lemma nextItem_emit:
  "lx_items lx = [] \<Longrightarrow> run_state ud s lx = To s' lx' \<Longrightarrow> lx_items lx' = it # its \<Longrightarrow>
   nextItem ud (Some s) lx = Some (Got it (Some s') (lx'\<lparr>lx_items := its\<rparr>))"
  by (subst nextItem.simps, simp, subst nextItem.simps, simp)

lemma nextItem_halt:
  "lx_items lx = [] \<Longrightarrow> run_state ud s lx = Halt lx' \<Longrightarrow> lx_items lx' = it # its \<Longrightarrow>
   nextItem ud (Some s) lx = Some (Got it None (lx'\<lparr>lx_items := its\<rparr>))"
  by (subst nextItem.simps, simp, subst nextItem.simps, simp)

text \<open>The characters of a plain key: letters, digits and the underscore.\<close>

definition word_char :: "char \<Rightarrow> bool" where
  "word_char c \<longleftrightarrow> (let n = of_char c :: nat in 48 \<le> n \<and> n \<le> 57 \<or> 65 \<le> n \<and> n \<le> 90 \<or> n = 95 \<or> 97 \<le> n \<and> n \<le> 122)"

lemma word_char_code:
  assumes "word_char c"
  shows "of_char c < (128 :: nat)" "of_char c \<noteq> (0 :: nat)" "\<not> IsSpace (of_char c)" "\<not> isKeySeparator (of_char c)"
    "of_char c \<notin> {34, 35, 39, 47, 10, 13 :: nat}" "c \<noteq> LF"
  using assms by (auto simp: word_char_def Let_def IsSpace_def isKeySeparator_def)

lemma lexKey_run:
  assumes "p \<le> q" "q < length inp" "inp ! q = CHR ''=''" "\<forall>j. p \<le> j \<and> j < q \<longrightarrow> word_char (inp ! j)" "a \<le> p"
  shows "nextItem ud (Some Key) (lexer_at inp a p w ln st) =
    Some (Got \<lparr>i_typ = itemKey, i_val = take (q - a) (drop a inp), i_line = ln\<rparr> (Some KeyEnd) (lexer_at inp q q 1 ln st))"
  using assms
proof (induction "q - p" arbitrary: p w)
  case 0
  then have "p = q" by simp
  then have "run_state ud Key (lexer_at inp a p w ln st) =
     To KeyEnd ((lexer_at inp q q 1 ln st)\<lparr>lx_items := [\<lparr>i_typ = itemKey, i_val = take (q - a) (drop a inp), i_line = ln\<rparr>]\<rparr>)"
    using 0 by (simp add: lexKey_def peek_def next_at backup_at isKeySeparator_def IsSpace_def emit_def pending_def)
  from nextItem_emit [OF _ this] show ?case by simp
next
  case (Suc n)
  have w: "word_char (inp ! p)" and p: "p < length inp" using Suc.hyps(2) Suc.prems by auto
  then have "run_state ud Key (lexer_at inp a p w ln st) = To Key (lexer_at inp a (Suc p) 1 ln st)"
    using word_char_code [OF w] by (simp add: lexKey_def peek_def next_at backup_at eof_def)
  then have "nextItem ud (Some Key) (lexer_at inp a p w ln st) = nextItem ud (Some Key) (lexer_at inp a (Suc p) 1 ln st)"
    by (intro nextItem_step) simp_all
  also have "\<dots> = Some (Got \<lparr>i_typ = itemKey, i_val = take (q - a) (drop a inp), i_line = ln\<rparr> (Some KeyEnd) (lexer_at inp q q 1 ln st))"
    using Suc.hyps(2) Suc.prems by (intro Suc.hyps(1)) auto
  finally show ?case .
qed

lemma first_key:
  assumes "key \<noteq> []" "list_all word_char key"
  shows "nextItem ud (Some Top) (lexer_at (key @ ''='' @ rest) 0 0 0 1 []) =
    Some (Got \<lparr>i_typ = itemKey, i_val = key, i_line = 1\<rparr> (Some KeyEnd)
      (lexer_at (key @ ''='' @ rest) (length key) (length key) 1 1 [TopValueEnd]))"
proof -
  let ?inp = "key @ ''='' @ rest"
  have w: "word_char (?inp ! 0)" and l: "0 < length ?inp" using assms by (auto simp: nth_append list_all_length)
  note c = word_char_code [OF w]
  have a: "run_state ud Top (lexer_at ?inp 0 0 0 1 []) = To KeyStart (lexer_at ?inp 0 0 1 1 [TopValueEnd])"
    using c next_at [OF l c(1)] backup_at [OF l c(6)] by (simp add: lexTop_def eof_def push_def)
  have b: "run_state ud KeyStart (lexer_at ?inp 0 0 1 1 [TopValueEnd]) = To Key (lexer_at ?inp 0 1 1 1 [TopValueEnd])"
    using c next_at [OF l c(1)] backup_at [OF l c(6)] by (simp add: lexKeyStart_def peek_def ignore_def)
  have d: "nextItem ud (Some Key) (lexer_at ?inp 0 1 1 1 [TopValueEnd]) =
     Some (Got \<lparr>i_typ = itemKey, i_val = take (length key - 0) (drop 0 ?inp), i_line = 1\<rparr> (Some KeyEnd)
       (lexer_at ?inp (length key) (length key) 1 1 [TopValueEnd]))"
    using assms by (intro lexKey_run) (auto simp: nth_append list_all_length Suc_le_eq)
  show ?thesis using nextItem_step [OF _ a] nextItem_step [OF _ b] d by simp
qed

lemma last_end:
  assumes "p = length inp"
  shows "nextItem ud (Some TopValueEnd) (lexer_at inp a p w ln []) =
    Some (Got \<lparr>i_typ = itemEOF, i_val = [], i_line = ln\<rparr> None (lexer_at inp p p 0 ln []))"
proof -
  have a: "run_state ud TopValueEnd (lexer_at inp a p w ln []) = To Top (lexer_at inp p p 0 ln [])"
    using assms by (simp add: lexTopValueEnd_def next_at_end eof_def ignore_def)
  have b: "run_state ud Top (lexer_at inp p p 0 ln []) =
     Halt ((lexer_at inp p p 0 ln [])\<lparr>lx_items := [\<lparr>i_typ = itemEOF, i_val = [], i_line = ln\<rparr>]\<rparr>)"
    using assms by (simp add: lexTop_def next_at_end eof_def emit_def pending_def)
  show ?thesis using nextItem_step [OF _ a] nextItem_halt [OF _ b] by simp
qed

lemma to_value:
  assumes "q < length inp" "inp ! q = CHR ''=''"
  shows "nextItem ud (Some KeyEnd) (lexer_at inp q q w ln st) = nextItem ud (Some Value) (lexer_at inp (Suc q) (Suc q) 1 ln st)"
proof -
  have a: "run_state ud KeyEnd (lexer_at inp q q w ln st) = To (Skip Value) (lexer_at inp q (Suc q) 1 ln st)"
    using assms by (simp add: lexKeyEnd_def next_at IsSpace_def isKeySeparator_def)
  have b: "run_state ud (Skip Value) (lexer_at inp q (Suc q) 1 ln st) = To Value (lexer_at inp (Suc q) (Suc q) 1 ln st)"
    by (simp add: ignore_def)
  show ?thesis using nextItem_step [OF _ a] nextItem_step [OF _ b] by simp
qed

definition string_char :: "char \<Rightarrow> bool" where
  "string_char c \<longleftrightarrow> of_char c < (128 :: nat) \<and> of_char c \<noteq> (34 :: nat)"

lemma lexDubQuotedString_run:
  assumes "p \<le> q" "q < length inp" "inp ! q = CHR 0x22" "\<forall>j. p \<le> j \<and> j < q \<longrightarrow> string_char (inp ! j)" "a \<le> p"
  shows "\<exists>ln'. nextItem ud (Some DubQuotedString) (lexer_at inp a p w ln (s # st)) =
    Some (Got \<lparr>i_typ = itemString, i_val = take (q - a) (drop a inp), i_line = ln'\<rparr> (Some s) (lexer_at inp (Suc q) (Suc q) 1 ln' st))"
  using assms
proof (induction "q - p" arbitrary: p w ln)
  case 0
  let ?it = "\<lparr>i_typ = itemString, i_val = take (q - a) (drop a inp), i_line = ln\<rparr>"
  have "p = q" using 0 by simp
  then have "run_state ud DubQuotedString (lexer_at inp a p w ln (s # st)) =
     To s ((lexer_at inp (Suc q) (Suc q) 1 ln st)\<lparr>lx_items := [?it]\<rparr>)"
    using 0 by (simp add: lexDubQuotedString_def next_at backup_at emit_def pending_def pop_def ignore_def lx_next_def Let_def
        hd_drop_conv_nth DecodeRune_byte)
  from nextItem_emit [OF _ this] show ?case by simp
next
  case (Suc n)
  have c: "string_char (inp ! p)" and p: "p < length inp" using Suc.hyps(2) Suc.prems by auto
  let ?ln = "if inp ! p = LF then ln + 1 else ln"
  have "run_state ud DubQuotedString (lexer_at inp a p w ln (s # st)) = To DubQuotedString (lexer_at inp a (Suc p) 1 ?ln (s # st))"
    using c p by (simp add: lexDubQuotedString_def next_at string_char_def)
  then have "nextItem ud (Some DubQuotedString) (lexer_at inp a p w ln (s # st)) =
     nextItem ud (Some DubQuotedString) (lexer_at inp a (Suc p) 1 ?ln (s # st))"
    by (intro nextItem_step) simp_all
  moreover have "\<exists>ln'. nextItem ud (Some DubQuotedString) (lexer_at inp a (Suc p) 1 ?ln (s # st)) =
    Some (Got \<lparr>i_typ = itemString, i_val = take (q - a) (drop a inp), i_line = ln'\<rparr> (Some s) (lexer_at inp (Suc q) (Suc q) 1 ln' st))"
    using Suc.hyps(2) Suc.prems by (intro Suc.hyps(1)) auto
  ultimately show ?case by simp
qed

lemma lexNumber_run:
  assumes "p \<le> length inp" "\<forall>j. p \<le> j \<and> j < length inp \<longrightarrow> ascii_digit (inp ! j)" "a \<le> p"
  shows "nextItem ud (Some NumberOrDateOrIP) (lexer_at inp a p w ln (s # st)) =
    Some (Got \<lparr>i_typ = itemInteger, i_val = drop a inp, i_line = ln\<rparr> (Some s) (lexer_at inp (length inp) (length inp) 0 ln st))"
  using assms
proof (induction "length inp - p" arbitrary: p w)
  case 0
  then have "p = length inp" by simp
  then have "run_state ud NumberOrDateOrIP (lexer_at inp a p w ln (s # st)) =
     To s ((lexer_at inp (length inp) (length inp) 0 ln st)\<lparr>lx_items := [\<lparr>i_typ = itemInteger, i_val = drop a inp, i_line = ln\<rparr>]\<rparr>)"
    using 0 by (simp add: lexNumberOrDateOrIP_def next_at_end backup_at_end emit_def pending_def pop_def)
  from nextItem_emit [OF _ this] show ?case by simp
next
  case (Suc n)
  have c: "ascii_digit (inp ! p)" and p: "p < length inp" using Suc.hyps(2) Suc.prems by auto
  have "run_state ud NumberOrDateOrIP (lexer_at inp a p w ln (s # st)) = To NumberOrDateOrIP (lexer_at inp a (Suc p) 1 ln (s # st))"
    using c p by (auto simp add: lexNumberOrDateOrIP_def next_at ascii_digit_def IsDigit_def)
  then have "nextItem ud (Some NumberOrDateOrIP) (lexer_at inp a p w ln (s # st)) =
     nextItem ud (Some NumberOrDateOrIP) (lexer_at inp a (Suc p) 1 ln (s # st))"
    by (intro nextItem_step) simp_all
  also have "\<dots> = Some (Got \<lparr>i_typ = itemInteger, i_val = drop a inp, i_line = ln\<rparr> (Some s) (lexer_at inp (length inp) (length inp) 0 ln st))"
    using Suc.hyps(2) Suc.prems by (intro Suc.hyps(1)) auto
  finally show ?case .
qed

section \<open>Parsing one setting\<close>

lemma conf_loop_item:
  "nextItem (ce_digit E) (p_state p) (p_lx p) = Some (Got it st lx) \<Longrightarrow> i_typ it \<noteq> itemEOF \<Longrightarrow>
   processItem E sub it (p\<lparr>p_state := st, p_lx := lx\<rparr>) = Some (POk q) \<Longrightarrow> conf_loop E sub p = conf_loop E sub q"
  by (subst conf_loop.simps) simp

lemma conf_loop_eof:
  "nextItem (ce_digit E) (p_state p) (p_lx p) = Some (Got it st lx) \<Longrightarrow> i_typ it = itemEOF \<Longrightarrow>
   conf_loop E sub p = Some (POk (final_map p))"
  by (subst conf_loop.simps) simp

abbreviation parser_at :: "stateFn \<Rightarrow> lexer \<Rightarrow> mapping \<Rightarrow> bytes list \<Rightarrow> bytes \<Rightarrow> parser" where
  "parser_at s lx m ks fp \<equiv> \<lparr>p_state = Some s, p_lx = lx, p_ctxs = [CMap m], p_keys = ks, p_fp = fp\<rparr>"

lemma parse_key_at:
  assumes "key \<noteq> []" "list_all word_char key" "inp = key @ ''='' @ rest"
  shows "parse_conf E (Suc n) inp fp =
    conf_loop E (parse_conf E n) (parser_at KeyEnd (lexer_at inp (length key) (length key) 1 1 [TopValueEnd]) [] [key] fp)"
proof -
  let ?p = "parser_at Top (lexer_at inp 0 0 0 1 []) [] [] fp"
  have p: "new_parser inp fp = ?p" by (simp add: new_parser_def lex_def pushContext_def)
  have "nextItem (ce_digit E) (p_state ?p) (p_lx ?p) = Some (Got \<lparr>i_typ = itemKey, i_val = key, i_line = 1\<rparr> (Some KeyEnd)
      (lexer_at inp (length key) (length key) 1 1 [TopValueEnd]))"
    using first_key [OF assms(1,2), of "ce_digit E" rest] assms(3) by simp
  from conf_loop_item [OF this] show ?thesis
    unfolding parse_conf.simps p by (simp add: processItem_def pushKey_def)
qed

lemma parse_key:
  assumes "key \<noteq> []" "list_all word_char key" "inp = key @ ''='' @ rest"
  shows "Parse E (Suc n) inp =
    conf_loop E (parse_conf E n) (parser_at KeyEnd (lexer_at inp (length key) (length key) 1 1 [TopValueEnd]) [] [key] [])"
  unfolding Parse_def using assms by (rule parse_key_at)

lemma value_position:
  assumes "inp = key @ ''='' @ v"
  shows "length key < length inp" "inp ! length key = CHR ''=''" "drop (Suc (length key)) inp = v"
    "j < length v \<Longrightarrow> inp ! (Suc (length key) + j) = v ! j" "length inp = Suc (length key) + length v"
  using assms by (auto simp: nth_append)

lemma parse_setting_end:
  assumes "nextItem (ce_digit E) (Some KeyEnd) (lexer_at inp q q 1 1 [TopValueEnd]) =
      Some (Got it (Some TopValueEnd) (lexer_at inp (length inp) (length inp) w ln []))"
    and "i_typ it \<noteq> itemEOF"
    and "\<And>lx. processItem E sub it (parser_at TopValueEnd lx [] [key] fp) = Some (POk (parser_at TopValueEnd lx m [] fp))"
  shows "conf_loop E sub (parser_at KeyEnd (lexer_at inp q q 1 1 [TopValueEnd]) [] [key] fp) = Some (POk m)"
proof -
  have "conf_loop E sub (parser_at KeyEnd (lexer_at inp q q 1 1 [TopValueEnd]) [] [key] fp) =
      conf_loop E sub (parser_at TopValueEnd (lexer_at inp (length inp) (length inp) w ln []) m [] fp)"
    by (rule conf_loop_item [OF _ assms(2)]) (use assms(1,3) in simp_all)
  also have "\<dots> = Some (POk m)"
    using conf_loop_eof [of E "parser_at TopValueEnd (lexer_at inp (length inp) (length inp) w ln []) m [] fp"]
      last_end [OF refl, of "ce_digit E" inp] by (simp add: final_map_def)
  finally show ?thesis .
qed

text \<open>
  (C30) A quoted setting is read back: a line \<open>key="text"\<close>, for a key of letters, digits and
  underscores and any ASCII text without a double quote, parses to the mapping of the key to
  the text, new lines, backslashes and comment characters included.
\<close>
theorem quoted_setting_roundtrip:
  assumes "key \<noteq> []" "list_all word_char key" "list_all string_char s"
  shows "Parse E (Suc n) (key @ ''='' @ [CHR 0x22] @ s @ [CHR 0x22]) = Some (POk [(key, VString s)])"
proof -
  define v where "v = [CHR 0x22] @ s @ [CHR 0x22]"
  define inp where "inp = key @ ''='' @ v"
  let ?q = "length key" and ?e = "Suc (Suc (length key + length s))"
  note pos = value_position [OF inp_def]
  have c: "inp ! Suc ?q = CHR 0x22" "Suc ?q < length inp" "inp ! ?e = CHR 0x22" "?e < length inp" "length inp = Suc ?e"
    using pos(4) [of 0] pos(4) [of "Suc (length s)"] pos(5) by (simp_all add: v_def nth_append)
  have sc: "\<forall>j. Suc (Suc ?q) \<le> j \<and> j < ?e \<longrightarrow> string_char (inp ! j)"
    using assms(3) by (auto simp: inp_def v_def nth_append list_all_length)
  have a: "nextItem (ce_digit E) (Some KeyEnd) (lexer_at inp ?q ?q 1 1 [TopValueEnd]) =
      nextItem (ce_digit E) (Some Value) (lexer_at inp (Suc ?q) (Suc ?q) 1 1 [TopValueEnd])"
    using pos(1,2) by (rule to_value)
  have "run_state (ce_digit E) Value (lexer_at inp (Suc ?q) (Suc ?q) 1 1 [TopValueEnd]) =
      To DubQuotedString (lexer_at inp (Suc (Suc ?q)) (Suc (Suc ?q)) 1 1 [TopValueEnd])"
    using c by (simp add: lexValue_def next_at isWhitespace_def ignore_def)
  note b = nextItem_step [OF _ this]
  obtain ln where d: "nextItem (ce_digit E) (Some DubQuotedString) (lexer_at inp (Suc (Suc ?q)) (Suc (Suc ?q)) 1 1 [TopValueEnd]) =
      Some (Got \<lparr>i_typ = itemString, i_val = take (?e - Suc (Suc ?q)) (drop (Suc (Suc ?q)) inp), i_line = ln\<rparr> (Some TopValueEnd)
        (lexer_at inp (length inp) (length inp) 1 ln []))"
    using lexDubQuotedString_run [OF _ c(4,3) sc] c(5) by fastforce
  have i: "take (?e - Suc (Suc ?q)) (drop (Suc (Suc ?q)) inp) = s" by (simp add: inp_def v_def)
  have "conf_loop E (parse_conf E n) (parser_at KeyEnd (lexer_at inp ?q ?q 1 1 [TopValueEnd]) [] [key] []) = Some (POk [(key, VString s)])"
    by (rule parse_setting_end [where it = "\<lparr>i_typ = itemString, i_val = s, i_line = ln\<rparr>"])
      (use a b d i in \<open>simp_all add: processItem_def setValue_def popKey_def\<close>)
  then show ?thesis using parse_key [OF assms(1,2) inp_def] by (simp add: inp_def v_def)
qed

theorem quoted_setting_roundtrip_witness:
  "Parse empty_env 1 (''user'' @ ''='' @ [CHR 0x22] @ ''a # b'' @ [CHR 0x22]) = Some (POk [(''user'', VString ''a # b'')])"
  using quoted_setting_roundtrip [of "''user''" "''a # b''" empty_env 0] by (simp add: word_char_def string_char_def)

section \<open>Integers\<close>

lemma ascii_digit_char: "d < 10 \<Longrightarrow> ascii_digit (char_of (48 + d :: nat))"
  by (simp add: ascii_digit_def of_char_of)

lemma decimal_digits_from:
  "list_all ascii_digit acc \<Longrightarrow>
   decimal 0 (digits_from n acc) = decimal (int n) acc \<and> list_all ascii_digit (digits_from n acc) \<and> digits_from n acc \<noteq> []"
proof (induction n acc rule: digits_from.induct)
  case (1 n acc)
  let ?c = "char_of (48 + n mod 10) :: char"
  have c: "ascii_digit ?c" by (rule ascii_digit_char) simp
  have d: "decimal m (?c # acc) = decimal (m * 10 + int (n mod 10)) acc" for m by (simp add: of_char_of)
  show ?case
  proof (cases "n < 10")
    case True
    with "1.prems" c d [of 0] show ?thesis by (simp add: digits_from.simps [of n acc])
  next
    case False
    have "int (n div 10) * 10 + int (n mod 10) = int n" by (metis div_mult_mod_eq of_nat_add of_nat_mult of_nat_numeral)
    then show ?thesis using "1.IH" [OF refl False] "1.prems" c d False by (simp add: digits_from.simps [of n acc])
  qed
qed

lemma fmt_d_decimal: "decimal 0 (fmt_d n) = int n" "list_all ascii_digit (fmt_d n)" "fmt_d n \<noteq> []"
  using decimal_digits_from [of "[]" n] by (simp_all add: fmt_d_def)

lemma digit_not_sign: "ascii_digit c \<Longrightarrow> c \<noteq> CHR ''-'' \<and> c \<noteq> CHR ''+''"
  by (auto simp: ascii_digit_def)

lemma ParseInt_fmt_d:
  assumes "n < 2 ^ 63"
  shows "ParseInt (fmt_d n) = IOk (int n)"
proof -
  obtain c cs where "fmt_d n = c # cs" using fmt_d_decimal(3) [of n] by (cases "fmt_d n") auto
  then show ?thesis
    using assms fmt_d_decimal [of n] digit_not_sign [of c] by (simp add: ParseInt_def Let_def)
qed

lemma digit_count_digits: "list_all ascii_digit v \<Longrightarrow> digit_count ud v = length v"
  by (induction v) (simp_all add: digit_count.simps [of _ "_ # _"] digit_count.simps [of _ "[]"] DecodeRune_byte ascii_digit_def IsDigit_def)

lemma process_integer_fmt_d:
  "n < 2 ^ 63 \<Longrightarrow> process_integer ud (fmt_d n) p = setValue (VInt (int n)) p"
  by (simp add: process_integer_def Let_def digit_count_digits fmt_d_decimal ParseInt_fmt_d TrimSpace_def suffix_factor_def in_int64_nonneg)

lemma lex_integer:
  assumes "inp = key @ ''='' @ fmt_d m"
  shows "nextItem ud (Some KeyEnd) (lexer_at inp (length key) (length key) 1 1 [TopValueEnd]) =
    Some (Got \<lparr>i_typ = itemInteger, i_val = fmt_d m, i_line = 1\<rparr> (Some TopValueEnd) (lexer_at inp (length inp) (length inp) 0 1 []))"
proof -
  let ?q = "Suc (length key)"
  note pos = value_position [OF assms]
  have d: "\<forall>j. ?q \<le> j \<and> j < length inp \<longrightarrow> ascii_digit (inp ! j)"
    using fmt_d_decimal(2) [of m] by (auto simp: assms nth_append list_all_length)
  have l: "?q < length inp" using pos(5) fmt_d_decimal(3) [of m] by simp
  then have c: "ascii_digit (inp ! ?q)" using d by simp
  then have c': "inp ! ?q \<noteq> LF" "of_char (inp ! ?q) < (128 :: nat)" by (auto simp: ascii_digit_def)
  have a: "run_state ud Value (lexer_at inp ?q ?q 1 1 [TopValueEnd]) = To NumberOrDateOrIPStart (lexer_at inp ?q ?q 1 1 [TopValueEnd])"
    using c c' l by (auto simp: lexValue_def next_at backup_at ascii_digit_def IsDigit_def isWhitespace_def)
  have b: "run_state ud NumberOrDateOrIPStart (lexer_at inp ?q ?q 1 1 [TopValueEnd]) =
      To NumberOrDateOrIP (lexer_at inp ?q (Suc ?q) 1 1 [TopValueEnd])"
    using c c' l by (auto simp: lexNumberOrDateOrIPStart_def next_at ascii_digit_def IsDigit_def)
  show ?thesis
    using to_value [OF pos(1,2)] nextItem_step [OF _ a] nextItem_step [OF _ b]
      lexNumber_run [of "Suc ?q" inp ?q ud 1 1 TopValueEnd "[]"] l d pos(3) by simp
qed

lemma parse_integer:
  assumes "key \<noteq> []" "list_all word_char key" "m < 2 ^ 63" "inp = key @ ''='' @ fmt_d m"
  shows "parse_conf E (Suc n) inp fp = Some (POk [(key, VInt (int m))])"
proof -
  have "conf_loop E (parse_conf E n) (parser_at KeyEnd (lexer_at inp (length key) (length key) 1 1 [TopValueEnd]) [] [key] fp) =
      Some (POk [(key, VInt (int m))])"
    by (rule parse_setting_end [OF lex_integer [OF assms(4)]])
      (simp_all add: processItem_def process_integer_fmt_d [OF assms(3)] setValue_def popKey_def)
  then show ?thesis using parse_key_at [OF assms(1,2,4)] by simp
qed

text \<open>
  An integer setting is read back: \<open>key=\<close> followed by the decimal digits of a number that
  an \<^verbatim>\<open>int64\<close> can hold parses to the mapping of the key to that number.
\<close>
theorem integer_setting_roundtrip:
  assumes "key \<noteq> []" "list_all word_char key" "m < 2 ^ 63"
  shows "Parse E (Suc n) (key @ ''='' @ fmt_d m) = Some (POk [(key, VInt (int m))])"
  unfolding Parse_def using parse_integer [OF assms refl] .

theorem integer_setting_roundtrip_witness:
  "Parse empty_env 1 (''port'' @ ''='' @ fmt_d 4222) = Some (POk [(''port'', VInt 4222)])"
  using integer_setting_roundtrip [of "''port''" 4222 empty_env 0] by (simp add: word_char_def)

section \<open>Settings that are refused or cut short\<close>

lemma parse_setting_error:
  assumes "nextItem (ce_digit E) (Some s) lx = Some (Got it st lx')" "i_typ it \<noteq> itemEOF"
    and "\<And>p. processItem E sub it p = Some (PErr e)"
  shows "conf_loop E sub (parser_at s lx m ks fp) = Some (PErr e)"
  using assms by (subst conf_loop.simps) simp

lemma lexNegNumber_run:
  assumes "p \<le> length inp" "\<forall>j. p \<le> j \<and> j < length inp \<longrightarrow> ascii_digit (inp ! j)" "a \<le> p"
  shows "nextItem ud (Some NegNumber) (lexer_at inp a p w ln (s # st)) =
    Some (Got \<lparr>i_typ = itemInteger, i_val = drop a inp, i_line = ln\<rparr> (Some s) (lexer_at inp (length inp) (length inp) 0 ln st))"
  using assms
proof (induction "length inp - p" arbitrary: p w)
  case 0
  then have "p = length inp" by simp
  then have "run_state ud NegNumber (lexer_at inp a p w ln (s # st)) =
     To s ((lexer_at inp (length inp) (length inp) 0 ln st)\<lparr>lx_items := [\<lparr>i_typ = itemInteger, i_val = drop a inp, i_line = ln\<rparr>]\<rparr>)"
    using 0 by (simp add: lexNegNumber_def next_at_end backup_at_end emit_def pending_def pop_def)
  from nextItem_emit [OF _ this] show ?case by simp
next
  case (Suc n)
  have c: "ascii_digit (inp ! p)" and p: "p < length inp" using Suc.hyps(2) Suc.prems by auto
  have "run_state ud NegNumber (lexer_at inp a p w ln (s # st)) = To NegNumber (lexer_at inp a (Suc p) 1 ln (s # st))"
    using c p by (auto simp add: lexNegNumber_def next_at ascii_digit_def IsDigit_def)
  then have "nextItem ud (Some NegNumber) (lexer_at inp a p w ln (s # st)) =
     nextItem ud (Some NegNumber) (lexer_at inp a (Suc p) 1 ln (s # st))"
    by (intro nextItem_step) simp_all
  also have "\<dots> = Some (Got \<lparr>i_typ = itemInteger, i_val = drop a inp, i_line = ln\<rparr> (Some s) (lexer_at inp (length inp) (length inp) 0 ln st))"
    using Suc.hyps(2) Suc.prems by (intro Suc.hyps(1)) auto
  finally show ?case .
qed

lemma lex_negative:
  assumes "inp = key @ ''='' @ (CHR ''-'' # fmt_d m)"
  shows "nextItem ud (Some KeyEnd) (lexer_at inp (length key) (length key) 1 1 [TopValueEnd]) =
    Some (Got \<lparr>i_typ = itemInteger, i_val = CHR ''-'' # fmt_d m, i_line = 1\<rparr> (Some TopValueEnd) (lexer_at inp (length inp) (length inp) 0 1 []))"
proof -
  let ?q = "Suc (length key)"
  note pos = value_position [OF assms]
  have d: "\<forall>j. Suc ?q \<le> j \<and> j < length inp \<longrightarrow> ascii_digit (inp ! j)"
    using fmt_d_decimal(2) [of m] by (auto simp: assms nth_append list_all_length nth_Cons split: nat.splits)
  have l: "Suc ?q < length inp" using pos(5) fmt_d_decimal(3) [of m] by simp
  have c: "inp ! ?q = CHR ''-''" using pos(4) [of 0] by simp
  have c1: "ascii_digit (inp ! Suc ?q)" using d l by simp
  then have c': "inp ! Suc ?q \<noteq> LF" "of_char (inp ! Suc ?q) < (128 :: nat)" by (auto simp: ascii_digit_def)
  have a: "run_state ud Value (lexer_at inp ?q ?q 1 1 [TopValueEnd]) = To NegNumberStart (lexer_at inp ?q (Suc ?q) 1 1 [TopValueEnd])"
    using c l by (simp add: lexValue_def next_at isWhitespace_def)
  have b: "run_state ud NegNumberStart (lexer_at inp ?q (Suc ?q) 1 1 [TopValueEnd]) =
      To NegNumber (lexer_at inp ?q (Suc (Suc ?q)) 1 1 [TopValueEnd])"
    using c1 c' l by (auto simp: lexNegNumberStart_def next_at ascii_digit_def IsDigit_def)
  show ?thesis
    using to_value [OF pos(1,2)] nextItem_step [OF _ a] nextItem_step [OF _ b]
      lexNegNumber_run [of "Suc (Suc ?q)" inp ?q ud 1 1 TopValueEnd "[]"] l d pos(3) by simp
qed

text \<open>
  No negative integer can be configured: the lexer accepts a minus sign before the digits,
  but the parser counts the leading digits of the item, finds none, and refuses the setting as
  not being an integer.
\<close>
theorem negative_setting_refused:
  assumes "key \<noteq> []" "list_all word_char key"
  shows "Parse E (Suc n) (key @ ''='' @ (CHR ''-'' # fmt_d m)) =
    Some (PErr (''Expected integer, but got '' @ quoted (CHR ''-'' # fmt_d m) @ ''.''))"
proof -
  define inp where "inp = key @ ''='' @ (CHR ''-'' # fmt_d m)"
  have "digit_count (ce_digit E) (CHR ''-'' # fmt_d m) = 0"
    by (simp add: digit_count.simps DecodeRune_byte IsDigit_def)
  then have "process_integer (ce_digit E) (CHR ''-'' # fmt_d m) p = PErr (''Expected integer, but got '' @ quoted (CHR ''-'' # fmt_d m) @ ''.'')" for p
    by (simp add: process_integer_def ParseInt_def)
  then have "conf_loop E (parse_conf E n) (parser_at KeyEnd (lexer_at inp (length key) (length key) 1 1 [TopValueEnd]) [] [key] []) =
      Some (PErr (''Expected integer, but got '' @ quoted (CHR ''-'' # fmt_d m) @ ''.''))"
    by (intro parse_setting_error [OF lex_negative [OF inp_def]]) (simp_all add: processItem_def)
  then show ?thesis using parse_key [OF assms(1,2) inp_def] by (simp add: inp_def)
qed

theorem negative_setting_refused_witness:
  "\<exists>e. Parse empty_env 1 (''max_pending'' @ ''='' @ (CHR ''-'' # fmt_d 1)) = Some (PErr e)"
  using negative_setting_refused [of "''max_pending''" empty_env 0 1] by (simp add: word_char_def)

text \<open>
  A setting whose value is missing at the end of the text crashes the parser: the check for
  a variable reference reads the first byte of an empty value, past the end of the input.
\<close>
theorem missing_value_panics:
  assumes "key \<noteq> []" "list_all word_char key"
  shows "Parse E (Suc n) (key @ ''='') = Some PPanic"
proof -
  define inp where "inp = key @ ''='' @ []"
  let ?q = "Suc (length key)"
  note pos = value_position [OF inp_def]
  have l: "length inp \<le> ?q" using pos(5) by simp
  have a: "run_state (ce_digit E) Value (lexer_at inp ?q ?q 1 1 [TopValueEnd]) = To String (lexer_at inp ?q ?q 0 1 [TopValueEnd])"
    using l by (simp add: lexValue_def next_at_end backup_at_end)
  have "run_state (ce_digit E) String (lexer_at inp ?q ?q 0 1 [TopValueEnd]) = LexPanic"
    using l by (simp add: lexString_def next_at_end backup_at_end pending_def isVariable_def isBool_def Let_def)
  then have b: "nextItem (ce_digit E) (Some String) (lexer_at inp ?q ?q 0 1 [TopValueEnd]) = Some NextPanic"
    by (subst nextItem.simps) simp
  have "nextItem (ce_digit E) (Some KeyEnd) (lexer_at inp (length key) (length key) 1 1 [TopValueEnd]) = Some NextPanic"
    using to_value [OF pos(1,2)] nextItem_step [OF _ a] b by simp
  then have "conf_loop E (parse_conf E n) (parser_at KeyEnd (lexer_at inp (length key) (length key) 1 1 [TopValueEnd]) [] [key] []) = Some PPanic"
    by (subst conf_loop.simps) simp
  then show ?thesis using parse_key [OF assms(1,2) inp_def] by (simp add: inp_def)
qed

theorem missing_value_panics_witness: "Parse empty_env 1 (''port'' @ ''='') = Some PPanic"
  using missing_value_panics [of "''port''" empty_env 0] by (simp add: word_char_def)

text \<open>
  An unclosed map hangs the parser: on a text that ends inside a map the lexer never
  returns, since reading a key at the end of the input neither moves nor stops.
\<close>
theorem unclosed_map_hangs:
  assumes "key \<noteq> []" "list_all word_char key"
  shows "Parse E n (key @ ''={'') = None"
proof (cases n)
  case (Suc k)
  define inp where "inp = key @ ''='' @ ''{''"
  let ?q = "Suc (length key)" and ?it = "\<lparr>i_typ = itemMapStart, i_val = [], i_line = 1\<rparr> :: item"
  let ?l = "lexer_at inp (Suc ?q) (Suc ?q) 1 1 [TopValueEnd]"
  note pos = value_position [OF inp_def]
  have c: "inp ! ?q = CHR ''{''" "length inp = Suc ?q" using pos(4) [of 0] pos(5) by simp_all
  have "run_state (ce_digit E) Value (lexer_at inp ?q ?q 1 1 [TopValueEnd]) = To MapKeyStart (?l\<lparr>lx_items := [?it]\<rparr>)"
    using c by (simp add: lexValue_def next_at isWhitespace_def ignore_def emit_def pending_def)
  from nextItem_emit [OF _ this]
  have a: "nextItem (ce_digit E) (Some KeyEnd) (lexer_at inp (length key) (length key) 1 1 [TopValueEnd]) = Some (Got ?it (Some MapKeyStart) ?l)"
    using to_value [OF pos(1,2)] by simp
  have "run_state (ce_digit E) MapKeyStart ?l = To MapKey (lexer_at inp (Suc ?q) (Suc ?q) 0 1 [TopValueEnd])"
    using c by (simp add: lexMapKeyStart_def peek_def next_at_end backup_at_end ignore_def)
  from nextItem_step [OF _ this] have b: "nextItem (ce_digit E) (Some MapKeyStart) ?l = None"
    using waits_hangs [of MapKey] c by simp
  have "conf_loop E (parse_conf E k) (parser_at KeyEnd (lexer_at inp (length key) (length key) 1 1 [TopValueEnd]) [] [key] []) =
      conf_loop E (parse_conf E k) \<lparr>p_state = Some MapKeyStart, p_lx = ?l, p_ctxs = [CMap [], CMap []], p_keys = [key], p_fp = []\<rparr>"
    by (rule conf_loop_item [of _ _ ?it "Some MapKeyStart" ?l]) (use a in \<open>simp_all add: processItem_def pushContext_def\<close>)
  also have "\<dots> = None" using b by (subst conf_loop.simps) simp
  finally show ?thesis using parse_key [OF assms(1,2) inp_def] Suc by (simp add: inp_def)
qed (simp add: Parse_def)

theorem unclosed_map_hangs_witness: "Parse empty_env 5 (''cluster'' @ ''={'') = None"
  using unclosed_map_hangs [of "''cluster''" empty_env 5] by (simp add: word_char_def)



end
