(* ===== verification/Options_Props.thy ===== *)
theory Options_Props
  imports Options_Process Conf_Settings
begin

text \<open>
  What the options of the server promise: the users of a configuration file are complete and
  their permissions are valid subjects, in whatever order the maps are visited; a setting of the
  file arrives in the options; and the flags that are lost when a file is given.
\<close>

section \<open>Folding with results\<close>

lemma pbind_POk: "pbind r f = POk y \<longleftrightarrow> (\<exists>x. r = POk x \<and> f x = POk y)"
  by (cases r) (auto simp: pbind_def)

lemma pfold_inv:
  assumes "pfold f xs s = POk s'" "P s" "\<And>x s s'. f x s = POk s' \<Longrightarrow> P s \<Longrightarrow> P s'"
  shows "P s'"
  using assms(1,2)
proof (induction xs arbitrary: s)
  case (Cons x xs)
  then obtain s1 where "f x s = POk s1" "pfold f xs s1 = POk s'" by (auto simp: pbind_POk)
  then show ?case using Cons.IH Cons.prems(2) assms(3) by blast
qed simp

lemma pfold_never:
  assumes "x \<in> set xs" "\<And>s s'. f x s \<noteq> POk s'"
  shows "pfold f xs s \<noteq> POk s'"
  using assms(1)
proof (induction xs arbitrary: s)
  case (Cons y ys)
  then show ?case using assms(2) by (auto simp: pbind_POk)
qed simp

lemma pmap_all: "pmap f xs = POk ys \<Longrightarrow> (\<And>x y. f x = POk y \<Longrightarrow> P y) \<Longrightarrow> list_all P ys"
proof (induction xs arbitrary: ys)
  case (Cons x xs)
  then show ?case by (auto simp: pbind_POk)
qed simp

section \<open>Users\<close>

definition perm_ok :: "Permissions \<Rightarrow> bool" where
  "perm_ok p \<longleftrightarrow> list_all IsValidSubject (Publish p) \<and> list_all IsValidSubject (Subscribe p)"

definition user_ok :: "User \<Rightarrow> bool" where
  "user_ok u \<longleftrightarrow> UUsername u \<noteq> [] \<and> UPassword u \<noteq> [] \<and> pred_option perm_ok (UPermissions u)"

lemma parseSubjects_ok: "parseSubjects v = POk ss \<Longrightarrow> list_all IsValidSubject ss"
  by (auto simp: parseSubjects_def checkSubjectArray_def pbind_POk split: val.splits if_splits)

lemma parseUserPermissions_ok: "parseUserPermissions E pm = POk p \<Longrightarrow> perm_ok p"
  unfolding parseUserPermissions_def
  by (erule pfold_inv) (auto simp: perm_ok_def permission_entry_def Let_def pbind_POk parseSubjects_ok split: if_splits)

lemma parseUser_ok: "parseUser E v = POk u \<Longrightarrow> user_ok u"
proof -
  assume "parseUser E v = POk u"
  then obtain um where f: "pfold (user_entry E) (oe_order E um) \<lparr>UUsername = [], UPassword = [], UPermissions = None\<rparr> = POk u"
    and n: "UUsername u \<noteq> []" "UPassword u \<noteq> []"
    by (auto simp: parseUser_def pbind_POk split: val.splits if_splits)
  have "pred_option perm_ok (UPermissions u)"
    using f by (rule pfold_inv)
      (auto simp: user_entry_def Let_def pbind_POk parseUserPermissions_ok split: if_splits val.splits)
  then show ?thesis using n by (simp add: user_ok_def)
qed

lemma parseUsers_ok: "parseUsers E v = POk us \<Longrightarrow> list_all user_ok us"
  by (auto simp: parseUsers_def parseUser_ok split: val.splits elim: pmap_all)

definition auth_ok :: "authorization \<Rightarrow> bool" where
  "auth_ok a \<longleftrightarrow> pred_option (list_all user_ok) (a_users a) \<and> pred_option perm_ok (a_defaultPermissions a)"

lemma fill_permissions_ok: "auth_ok a \<Longrightarrow> auth_ok (fill_permissions a)"
  by (fastforce simp: auth_ok_def fill_permissions_def list_all_iff user_ok_def split: option.splits)

lemma auth_entry_ok: "auth_entry E kv a = POk a' \<Longrightarrow> auth_ok a \<Longrightarrow> auth_ok a'"
  by (auto simp: auth_entry_def Let_def pbind_POk intro!: fill_permissions_ok split: if_split_asm val.split_asm)
    (simp_all add: auth_ok_def parseUsers_ok parseUserPermissions_ok)

lemma parseAuthorization_ok: "parseAuthorization E am = POk a \<Longrightarrow> auth_ok a"
  unfolding parseAuthorization_def by (erule pfold_inv) (auto simp: auth_ok_def no_authorization_def auth_entry_ok [unfolded auth_ok_def])

definition opts_ok :: "Options \<Rightarrow> bool" where
  "opts_ok opts \<longleftrightarrow> pred_option (list_all user_ok) (o_Users opts)"

lemma cluster_entry_users: "cluster_entry E kv opts = POk opts' \<Longrightarrow> o_Users opts' = o_Users opts"
  by (auto simp: cluster_entry_def cluster_auth_def cluster_tls_def setInt_def setString_def setBool_def Let_def pbind_POk split: if_splits)

lemma parseCluster_users: "parseCluster E cm opts = POk opts' \<Longrightarrow> o_Users opts' = o_Users opts"
  unfolding parseCluster_def by (erule pfold_inv) (auto dest: cluster_entry_users)

lemma option_auth_ok: "option_auth E v opts = POk opts' \<Longrightarrow> opts_ok opts \<Longrightarrow> opts_ok opts'"
  using parseAuthorization_ok
  by (fastforce simp: option_auth_def Let_def pbind_POk opts_ok_def auth_ok_def split: option.splits if_splits)

lemma option_entry_users:
  assumes "option_entry E kv opts = POk opts'"
  shows "o_Users opts' = o_Users opts \<or> option_auth E (snd kv) opts = POk opts'"
  using assms unfolding option_entry_def Let_def setInt_def setString_def setBool_def option_tls_def
  by (auto simp: pbind_POk parseCluster_users split: if_split_asm)

lemma option_entry_ok: "option_entry E kv opts = POk opts' \<Longrightarrow> opts_ok opts \<Longrightarrow> opts_ok opts'"
  using option_entry_users option_auth_ok by (fastforce simp: opts_ok_def)

text \<open>
  (C16) Every user that a configuration file sets up has a name and a password, and every subject
  in the permissions of a user is valid.
\<close>

theorem configured_users_complete:
  assumes "apply_settings E m = POk opts" "o_Users opts = Some us" "u \<in> set us"
  shows "UUsername u \<noteq> [] \<and> UPassword u \<noteq> [] \<and>
    (case UPermissions u of None \<Rightarrow> True | Some p \<Rightarrow> list_all IsValidSubject (Publish p @ Subscribe p))"
proof -
  have "opts_ok opts"
    using assms(1) unfolding apply_settings_def
    by (rule pfold_inv) (auto simp: opts_ok_def no_Options_def option_entry_ok [unfolded opts_ok_def])
  then show ?thesis
    using assms(2,3) by (auto simp: opts_ok_def list_all_iff user_ok_def perm_ok_def split: option.splits)
qed

text \<open>
  When an authorization section has default permissions, every user it lists has
  permissions, in whatever order the entries of the section and of the users are visited.
\<close>

theorem default_permissions_given:
  assumes "parseAuthorization E am = POk a" "a_users a = Some us" "a_defaultPermissions a = Some d" "u \<in> set us"
  shows "UPermissions u \<noteq> None"
proof -
  define P where "P a \<longleftrightarrow> (\<forall>us. a_users a = Some us \<longrightarrow> a_defaultPermissions a \<noteq> None \<longrightarrow> (\<forall>u \<in> set us. UPermissions u \<noteq> None))" for a :: authorization
  have f: "P (fill_permissions a)" for a
    by (auto simp: P_def fill_permissions_def split: option.splits)
  have step: "P a'" if e: "auth_entry E kv a = POk a'" for kv a a'
  proof -
    obtain a1 where "a' = fill_permissions a1"
      using e unfolding auth_entry_def Let_def pbind_POk by auto
    then show ?thesis using f by simp
  qed
  have "P no_authorization" by (simp add: P_def no_authorization_def)
  with assms(1) have "P a"
    unfolding parseAuthorization_def by (rule pfold_inv) (rule step)
  then show ?thesis using assms(2-4) by (auto simp: P_def)
qed

section \<open>Settings that arrive\<close>

definition int_settings :: "(bytes \<times> (Options \<Rightarrow> int)) list" where
  "int_settings = [(''port'', o_Port), (''http_port'', o_HTTPPort), (''monitor_port'', o_HTTPPort), (''https_port'', o_HTTPSPort),
     (''prof_port'', o_ProfPort), (''max_control_line'', o_MaxControlLine), (''max_payload'', o_MaxPayload),
     (''max_connections'', o_MaxConn), (''max_conn'', o_MaxConn), (''ping_max'', o_MaxPingsOut), (''health_rank'', o_HealthRank)]"

lemma int_setting_set:
  assumes "(key, field) \<in> set int_settings"
  shows "key \<noteq> []" "list_all word_char key" "\<exists>opts'. option_entry E (key, VInt m) opts = POk opts' \<and> field opts' = m"
  using assms
  by (auto simp: int_settings_def word_char_def option_entry_def setInt_def as_int_def pbind_def)

text \<open>
  (C32) A number in a configuration file arrives in the options of the server: a file with one
  integer setting, of any of the keys of the table and of any value that an \<^verbatim>\<open>int64\<close> can hold, is
  processed to options with that value in the field of the key.
\<close>

theorem integer_option_roundtrip:
  assumes "(key, field) \<in> set int_settings" "m < 2 ^ 63" "configFile \<noteq> []"
    and "ce_read C configFile = Inr (key @ ''='' @ fmt_d m)" and order: "\<And>m. mset (oe_order E m) = mset m"
  shows "\<exists>opts. ProcessConfigFile E C (Suc n) configFile = Some (POk opts) \<and> field opts = int m"
proof -
  note key = int_setting_set [OF assms(1)]
  have "ParseFile C (parse_conf C (Suc n)) configFile = Some (POk [(key, VInt (int m))])"
    unfolding ParseFile_def assms(4) sum.case by (rule parse_integer [OF key(1,2) assms(2) refl])
  moreover have "oe_order E [(key, VInt (int m))] = [(key, VInt (int m))]"
    using order [of "[(key, VInt (int m))]"] by simp
  ultimately show ?thesis
    using key(3) [where E = E and m = "int m" and opts = no_Options] assms(3) by (auto simp: ProcessConfigFile_def apply_settings_def pbind_def)
qed

section \<open>Settings that do not\<close>

text \<open>
  The durations of the health agent cannot be set in a file: no value of a configuration file
  has the type that the code asserts, so a file with \<open>health_lease\<close> or \<open>health_beat\<close> never gives
  options.
\<close>

theorem health_durations_unusable:
  assumes "(k, v) \<in> set m" "ToLower k = ''health_lease'' \<or> ToLower k = ''health_beat''"
    and order: "\<And>m. mset (oe_order E m) = mset m"
  shows "apply_settings E m \<noteq> POk opts"
proof -
  have "(k, v) \<in> set (oe_order E m)"
    using assms(1) order by (metis set_mset_mset)
  moreover have "option_entry E (k, v) s \<noteq> POk s'" for s s'
    using assms(2) by (auto simp: option_entry_def as_duration_def pbind_def)
  ultimately show ?thesis
    unfolding apply_settings_def by (rule pfold_never)
qed

lemma MergeOptions_cong:
  assumes "o_Port a = o_Port b" "o_Host a = o_Host b" "o_Username a = o_Username b" "o_Password a = o_Password b"
    "o_Authorization a = o_Authorization b" "o_HTTPPort a = o_HTTPPort b" "o_Debug a = o_Debug b" "o_Trace a = o_Trace b"
    "o_Logtime a = o_Logtime b" "o_LogFile a = o_LogFile b" "o_PidFile a = o_PidFile b" "o_ProfPort a = o_ProfPort b"
    "o_Cluster a = o_Cluster b" "o_RoutesStr a = o_RoutesStr b"
  shows "MergeOptions E (Some f) (Some a) = MergeOptions E (Some f) (Some b)"
  unfolding MergeOptions_def mergeRoutes_def prod.case option.case assms by (rule refl)

text \<open>
  (C17) With a configuration file the TLS flags of the command line have no effect, nor have those
  of the HTTPS port, of the system log and of the health agent: the server starts with the same
  options as if they had not been given.
\<close>

theorem flags_lost_with_file:
  assumes "configFile \<noteq> []"
  shows "main_options E C n
      (flags\<lparr>o_TLS := tls, o_TLSVerify := verify, o_TLSCert := cert, o_TLSKey := key, o_TLSCaCert := ca, o_HTTPSPort := ms,
             o_Syslog := syslog, o_RemoteSyslog := remote, o_HealthAgent := agent, o_HealthRank := rank,
             o_HealthLease := lease, o_HealthBeat := beat\<rparr>) configFile =
    main_options E C n flags configFile"
proof -
  have "MergeOptions E (Some f)
      (Some (flags\<lparr>o_TLS := tls, o_TLSVerify := verify, o_TLSCert := cert, o_TLSKey := key, o_TLSCaCert := ca, o_HTTPSPort := ms,
             o_Syslog := syslog, o_RemoteSyslog := remote, o_HealthAgent := agent, o_HealthRank := rank,
             o_HealthLease := lease, o_HealthBeat := beat\<rparr>)) =
    MergeOptions E (Some f) (Some flags)" for f
    by (rule MergeOptions_cong) simp_all
  then show ?thesis using assms by (simp add: main_options_def)
qed

section \<open>Concrete settings\<close>

definition plain_opt_env :: opt_env where
  "plain_opt_env = \<lparr>oe_order = (\<lambda>m. m), oe_float = (\<lambda>_. 0), oe_url = (\<lambda>s. Some \<lparr>u_Host = s, u_User = None\<rparr>),
     oe_keypair = (\<lambda>c k. Inr c), oe_leaf = Some, oe_pem = (\<lambda>f. Inr f), oe_pool = Some, oe_interfaces = [], oe_lookup = (\<lambda>h. [h]),
     oe_sscan = (\<lambda>_. None)\<rparr>"

definition file_env :: "bytes \<Rightarrow> conf_env" where
  "file_env text = empty_env\<lparr>ce_read := (\<lambda>_. Inr text)\<rparr>"

definition demo_entry :: val where
  "demo_entry = VMap [(''user'', VString ''a''), (''pass'', VString ''b'')]"

definition demo_auth :: mapping where
  "demo_auth = [(''users'', VArray [demo_entry]), (''default_permissions'', VMap [(''publish'', VString ''foo.*'')])]"

definition demo_configured :: User where
  "demo_configured = \<lparr>UUsername = ''a'', UPassword = ''b'', UPermissions = Some \<lparr>Publish = [''foo.*''], Subscribe = []\<rparr>\<rparr>"

lemma demo_parse:
  "parseAuthorization plain_opt_env demo_auth =
     POk (no_authorization\<lparr>a_users := Some [demo_configured], a_defaultPermissions := Some \<lparr>Publish = [''foo.*''], Subscribe = []\<rparr>\<rparr>)"
  by code_simp

lemma configured_users_complete_witness:
  "\<exists>opts. apply_settings plain_opt_env [(''authorization'', VMap demo_auth)] = POk opts \<and> o_Users opts = Some [demo_configured] \<and>
     UUsername demo_configured \<noteq> [] \<and> UPassword demo_configured \<noteq> []"
proof -
  have order: "oe_order plain_opt_env m = m" for m by (simp add: plain_opt_env_def)
  have "option_entry plain_opt_env (''authorization'', v) s = option_auth plain_opt_env v s" for v s
    by (simp add: option_entry_def Let_def)
  then have "apply_settings plain_opt_env [(''authorization'', VMap demo_auth)] = option_auth plain_opt_env (VMap demo_auth) no_Options"
    by (simp add: apply_settings_def order pbind_def split: pres.split)
  then obtain opts where o: "apply_settings plain_opt_env [(''authorization'', VMap demo_auth)] = POk opts" "o_Users opts = Some [demo_configured]"
    by (simp add: option_auth_def as_map_def pbind_def demo_parse no_authorization_def)
  then show ?thesis using configured_users_complete [OF o, of demo_configured] by simp
qed

lemma default_permissions_given_witness:
  "parseAuthorization plain_opt_env demo_auth =
     POk (no_authorization\<lparr>a_users := Some [demo_configured], a_defaultPermissions := Some \<lparr>Publish = [''foo.*''], Subscribe = []\<rparr>\<rparr>) \<and>
   UPermissions demo_configured \<noteq> None"
  using default_permissions_given [OF demo_parse, of "[demo_configured]" _ demo_configured] demo_parse by simp

lemma integer_option_roundtrip_witness:
  "\<exists>opts. ProcessConfigFile plain_opt_env (file_env (''max_payload'' @ ''='' @ fmt_d 65536)) 1 ''f'' = Some (POk opts) \<and> o_MaxPayload opts = 65536"
  using integer_option_roundtrip [of "''max_payload''" o_MaxPayload 65536 "''f''" "file_env (''max_payload'' @ ''='' @ fmt_d 65536)" plain_opt_env 0]
  by (simp add: int_settings_def file_env_def plain_opt_env_def)

lemma health_durations_unusable_witness:
  "apply_settings plain_opt_env [(''health_lease'', VInt 12)] \<noteq> POk no_Options"
  by (rule health_durations_unusable [of "''health_lease''" "VInt 12"]) (simp_all add: plain_opt_env_def)

lemma flags_lost_with_file_witness:
  "main_options plain_opt_env (file_env []) 1
      (no_Options\<lparr>o_TLS := True, o_TLSVerify := True, o_TLSCert := ''c'', o_TLSKey := ''k'', o_TLSCaCert := ''a'', o_HTTPSPort := 443,
             o_Syslog := True, o_RemoteSyslog := ''r'', o_HealthAgent := True, o_HealthRank := 1, o_HealthLease := 2, o_HealthBeat := 3\<rparr>) ''f'' =
   main_options plain_opt_env (file_env []) 1 no_Options ''f''"
  by (rule flags_lost_with_file) simp

end
