(* ===== verification/Monitor.thy ===== *)
theory Monitor
  imports Server_Props Conf_Parse
begin

text \<open>
  The monitoring endpoints of src/server/monitor.go and monitor_sort_opts.go: \<open>HandleConnz\<close>,
  \<open>HandleRoutez\<close>, \<open>HandleSubsz\<close>, \<open>HandleVarz\<close>, \<open>HandleStacksz\<close>, \<open>HandleRoot\<close> and the dispatch of
  \<^verbatim>\<open>startMonitoring\<close> in server.go. What a handler reads and the state of the server do not hold,
  clocks, the fill of write buffers, addresses and the state of TLS connections, is an argument.
  A handler that releases the lock of the server and goes on reads two states of it.
\<close>

section \<open>Printing and reading of numbers\<close>

fun hex_digits :: "nat \<Rightarrow> nat \<Rightarrow> bytes" where
  "hex_digits 0 n = []"
| "hex_digits (Suc f) n =
     (if n < 16 then [''0123456789abcdef'' ! n] else hex_digits f (n div 16) @ [''0123456789abcdef'' ! (n mod 16)])"

text \<open>The argument is a 16-bit number: four digits are enough.\<close>

definition fmt_x :: "nat \<Rightarrow> bytes" where
  "fmt_x n = hex_digits 4 n"

text \<open>\<^verbatim>\<open>strconv.Atoi\<close> with its error ignored: a number out of range is cut off at the range.\<close>

definition Atoi :: "bytes \<Rightarrow> int" where
  "Atoi s = (case ParseInt s of IOk n \<Rightarrow> n | ISyntax \<Rightarrow> 0
     | IRange \<Rightarrow> if take 1 s = ''-'' then - (2 ^ 63) else 2 ^ 63 - 1)"

text \<open>Go's division of integers rounds towards zero.\<close>

definition go_div :: "int \<Rightarrow> int \<Rightarrow> int" where
  "go_div a b = (if a < 0 then - ((- a) div b) else a div b)"

definition go_mod :: "int \<Rightarrow> int \<Rightarrow> int" where
  "go_mod a b = a - b * go_div a b"

text \<open>\<^verbatim>\<open>time.Time.Sub\<close>, in nanoseconds, saturates.\<close>

definition time_Sub :: "int \<Rightarrow> int \<Rightarrow> int" where
  "time_Sub t u = max (- (2 ^ 63)) (min (2 ^ 63 - 1) (t - u))"

definition myUptime :: "int \<Rightarrow> bytes" where
  "myUptime d =
     (let tsecs = go_div d 1000000000; tmins = go_div tsecs 60; thrs = go_div tmins 60;
          tdays = go_div thrs 24; tyrs = go_div tdays 365
      in if tyrs > 0 then
           fmt_int tyrs @ ''y'' @ fmt_int (go_mod tdays 365) @ ''d'' @ fmt_int (go_mod thrs 24) @ ''h'' @
           fmt_int (go_mod tmins 60) @ ''m'' @ fmt_int (go_mod tsecs 60) @ ''s''
         else if tdays > 0 then
           fmt_int tdays @ ''d'' @ fmt_int (go_mod thrs 24) @ ''h'' @ fmt_int (go_mod tmins 60) @ ''m'' @
           fmt_int (go_mod tsecs 60) @ ''s''
         else if thrs > 0 then
           fmt_int thrs @ ''h'' @ fmt_int (go_mod tmins 60) @ ''m'' @ fmt_int (go_mod tsecs 60) @ ''s''
         else if tmins > 0 then fmt_int tmins @ ''m'' @ fmt_int (go_mod tsecs 60) @ ''s''
         else fmt_int tsecs @ ''s'')"

section \<open>Sorting options\<close>

definition byCid :: bytes where "byCid = ''cid''"
definition bySubs :: bytes where "bySubs = ''subs''"
definition byPending :: bytes where "byPending = ''pending''"
definition byOutMsgs :: bytes where "byOutMsgs = ''msgs_to''"
definition byInMsgs :: bytes where "byInMsgs = ''msgs_from''"
definition byOutBytes :: bytes where "byOutBytes = ''bytes_to''"
definition byInBytes :: bytes where "byInBytes = ''bytes_from''"
definition byLast :: bytes where "byLast = ''last''"
definition byIdle :: bytes where "byIdle = ''idle''"
definition byUptime :: bytes where "byUptime = ''uptime''"

lemmas sort_names = byCid_def bySubs_def byPending_def byOutMsgs_def byInMsgs_def byOutBytes_def
  byInBytes_def byLast_def byIdle_def byUptime_def

definition SortOpt_IsValid :: "bytes \<Rightarrow> bool" where
  "SortOpt_IsValid s \<longleftrightarrow> s \<in> set [[], byCid, bySubs, byPending, byOutMsgs, byInMsgs, byOutBytes, byInBytes,
     byLast, byIdle, byUptime]"

text \<open>
  \<^verbatim>\<open>sort.Sort\<close> leaves the order of equal values open. The order in which the clients are visited is
  an argument, so a stable sort has every result that the code can have.
\<close>

definition sort_pairs :: "bytes \<Rightarrow> (nat \<times> int) list \<Rightarrow> (nat \<times> int) list" where
  "sort_pairs opt ps = (if opt = byCid then sort_key snd ps else sort_key (\<lambda>p. - snd p) ps)"

section \<open>TLS names\<close>

definition tlsVersion :: "nat \<Rightarrow> bytes" where
  "tlsVersion ver =
     (if ver = 0x0301 then ''1.0'' else if ver = 0x0302 then ''1.1'' else if ver = 0x0303 then ''1.2''
      else ''Unknown ['' @ fmt_x ver @ '']'')"

definition tls_cipher_names :: "(nat \<times> bytes) list" where
  "tls_cipher_names =
     [(0x0005, ''TLS_RSA_WITH_RC4_128_SHA''), (0x000a, ''TLS_RSA_WITH_3DES_EDE_CBC_SHA''),
      (0x002f, ''TLS_RSA_WITH_AES_128_CBC_SHA''), (0x0035, ''TLS_RSA_WITH_AES_256_CBC_SHA''),
      (0xc007, ''TLS_ECDHE_ECDSA_WITH_RC4_128_SHA''), (0xc009, ''TLS_ECDHE_ECDSA_WITH_AES_128_CBC_SHA''),
      (0xc00a, ''TLS_ECDHE_ECDSA_WITH_AES_256_CBC_SHA''), (0xc011, ''TLS_ECDHE_RSA_WITH_RC4_128_SHA''),
      (0xc012, ''TLS_ECDHE_RSA_WITH_3DES_EDE_CBC_SHA''), (0xc013, ''TLS_ECDHE_RSA_WITH_AES_128_CBC_SHA''),
      (0xc014, ''TLS_ECDHE_RSA_WITH_AES_256_CBC_SHA''), (0xc02f, ''TLS_ECDHE_RSA_WITH_AES_128_GCM_SHA256''),
      (0xc02b, ''TLS_ECDHE_ECDSA_WITH_AES_128_GCM_SHA256''), (0xc030, ''TLS_ECDHE_RSA_WITH_AES_256_GCM_SHA384''),
      (0xc02c, ''TLS_ECDHE_ECDSA_WITH_AES_256_GCM_SHA384'')]"

definition tlsCipher :: "nat \<Rightarrow> bytes" where
  "tlsCipher cs = (case map_of tls_cipher_names cs of Some n \<Rightarrow> n | None \<Rightarrow> ''Unknown ['' @ fmt_x cs @ '']'')"

section \<open>Requests and readings\<close>

definition RootPath :: bytes where "RootPath = ''/''"
definition VarzPath :: bytes where "VarzPath = ''/varz''"
definition ConnzPath :: bytes where "ConnzPath = ''/connz''"
definition RoutezPath :: bytes where "RoutezPath = ''/routez''"
definition SubszPath :: bytes where "SubszPath = ''/subsz''"
definition StackszPath :: bytes where "StackszPath = ''/stacksz''"

lemmas path_names = RootPath_def VarzPath_def ConnzPath_def RoutezPath_def SubszPath_def StackszPath_def

type_synonym req_stats = "(bytes \<times> 64 word) list"

text \<open>The counters of \<^verbatim>\<open>startMonitoring\<close>, and the increment of one of them.\<close>

definition httpReqStats0 :: req_stats where
  "httpReqStats0 = map (\<lambda>p. (p, 0)) [RootPath, VarzPath, ConnzPath, RoutezPath, SubszPath]"

definition count_request :: "bytes \<Rightarrow> req_stats \<Rightarrow> req_stats" where
  "count_request p hs = AList.update p ((case map_of hs p of None \<Rightarrow> 0 | Some n \<Rightarrow> n) + 1) hs"

record query =
  q_sort :: bytes
  q_auth :: bytes
  q_subs :: bytes
  q_offset :: bytes
  q_limit :: bytes
  q_callback :: bytes

record readings =
  r_start :: "nat \<Rightarrow> int"
  r_last :: "nat \<Rightarrow> int"
  r_buffered :: "nat \<Rightarrow> int"
  r_addr :: "nat \<Rightarrow> bytes \<times> int"
  r_tls :: "nat \<Rightarrow> nat \<times> nat"
  r_visit :: "nat list \<Rightarrow> nat list"
  r_visit_subs :: "subscription list \<Rightarrow> subscription list"

text \<open>A panic of a handler ends the request; \<^verbatim>\<open>net/http\<close> recovers from it.\<close>

datatype 'a answer = Answer 'a | BadRequest bytes | NotFound | HPanic

section \<open>Connections\<close>

record ConnInfo =
  ci_Cid :: nat
  ci_IP :: bytes
  ci_Port :: int
  ci_Start :: int
  ci_LastActivity :: int
  ci_Uptime :: bytes
  ci_Idle :: bytes
  ci_Pending :: int
  ci_InMsgs :: int
  ci_OutMsgs :: int
  ci_InBytes :: int
  ci_OutBytes :: int
  ci_NumSubs :: "32 word"
  ci_Name :: bytes
  ci_Lang :: bytes
  ci_Version :: bytes
  ci_TLSVersion :: bytes
  ci_TLSCipher :: bytes
  ci_AuthorizedUser :: bytes
  ci_Subs :: "bytes list"

record Connz =
  cz_Now :: int
  cz_NumConns :: nat
  cz_Total :: nat
  cz_Offset :: int
  cz_Limit :: int
  cz_Conns :: "ConnInfo list"

definition DefaultConnListSize :: int where "DefaultConnListSize = 1024"

definition castToSliceString :: "subscription list \<Rightarrow> bytes list" where
  "castToSliceString = map sub_subject"

definition connz_sort :: "bytes \<Rightarrow> bytes" where
  "connz_sort s = (if s = [] \<or> s = byUptime then byCid else s)"

text \<open>The value of a client that is sorted by.\<close>

definition sort_value :: "bytes \<Rightarrow> int \<Rightarrow> readings \<Rightarrow> nat \<Rightarrow> client \<Rightarrow> int" where
  "sort_value opt now R i c =
     (if opt = byCid then wrap64 (int (cid c))
      else if opt = bySubs then int (length (subs c))
      else if opt = byPending then r_buffered R i
      else if opt = byOutMsgs then outMsgs c
      else if opt = byInMsgs then inMsgs c
      else if opt = byOutBytes then outBytes c
      else if opt = byInBytes then inBytes c
      else if opt = byLast then r_last R i
      else if opt = byIdle then time_Sub now (r_last R i)
      else 0)"

definition connz_pairs :: "bytes \<Rightarrow> int \<Rightarrow> readings \<Rightarrow> server \<Rightarrow> (nat \<times> int) list" where
  "connz_pairs opt now R w =
     sort_pairs opt (map (\<lambda>i. (i, sort_value opt now R i (the_client i w))) (r_visit R (clients w)))"

text \<open>The slice \<^verbatim>\<open>pairs[minoff:maxoff]\<close>, which panics when its bounds are not in order.\<close>

definition connz_page :: "int \<Rightarrow> int \<Rightarrow> 'a list \<Rightarrow> 'a list option" where
  "connz_page offset limit ps =
     (let total = int (length ps);
          minoff = (if offset > total then total else offset);
          maxoff = (let m = wrap64 (offset + limit) in if m > total then total else m)
      in if 0 \<le> minoff \<and> minoff \<le> maxoff then Some (take (nat (maxoff - minoff)) (drop (nat minoff) ps))
         else None)"

text \<open>The values of a client at the time of printing.\<close>

definition conn_now :: "int \<Rightarrow> readings \<Rightarrow> nat \<Rightarrow> client \<Rightarrow> ConnInfo" where
  "conn_now now R i c =
     \<lparr>ci_Cid = cid c, ci_IP = [], ci_Port = 0, ci_Start = r_start R i, ci_LastActivity = r_last R i,
      ci_Uptime = myUptime (time_Sub now (r_start R i)), ci_Idle = myUptime (time_Sub now (r_last R i)),
      ci_Pending = r_buffered R i, ci_InMsgs = inMsgs c, ci_OutMsgs = outMsgs c, ci_InBytes = inBytes c,
      ci_OutBytes = outBytes c, ci_NumSubs = of_nat (length (subs c)), ci_Name = Name (copts c),
      ci_Lang = Lang (copts c), ci_Version = Version (copts c), ci_TLSVersion = [], ci_TLSCipher = [],
      ci_AuthorizedUser = [], ci_Subs = []\<rparr>"

text \<open>The field that was sorted by gets the value it was sorted by.\<close>

definition overwrite_sorted :: "bytes \<Rightarrow> int \<Rightarrow> ConnInfo \<Rightarrow> ConnInfo" where
  "overwrite_sorted opt v ci =
     (if opt = bySubs then ci\<lparr>ci_NumSubs := word_of_int v\<rparr>
      else if opt = byPending then ci\<lparr>ci_Pending := v\<rparr>
      else if opt = byOutMsgs then ci\<lparr>ci_OutMsgs := v\<rparr>
      else if opt = byInMsgs then ci\<lparr>ci_InMsgs := v\<rparr>
      else if opt = byOutBytes then ci\<lparr>ci_OutBytes := v\<rparr>
      else if opt = byInBytes then ci\<lparr>ci_InBytes := v\<rparr>
      else if opt = byLast then ci\<lparr>ci_LastActivity := v\<rparr>
      else if opt = byIdle then ci\<lparr>ci_Idle := myUptime v\<rparr>
      else ci)"

text \<open>
  With TLS required the connection is asserted to be a TLS connection. The address is that of a
  TCP or TLS connection.
\<close>

definition fill_tls :: "bool \<Rightarrow> readings \<Rightarrow> nat \<Rightarrow> client \<Rightarrow> ConnInfo \<Rightarrow> ConnInfo option" where
  "fill_tls tlsReq R i c ci =
     (case nc c of
        Some k \<Rightarrow> if \<not> tlsReq then Some ci
                  else if ckind k \<noteq> TLSConn then None
                  else Some (ci\<lparr>ci_TLSVersion := tlsVersion (fst (r_tls R i)), ci_TLSCipher := tlsCipher (snd (r_tls R i))\<rparr>)
      | None \<Rightarrow> Some ci)"

definition fill_addr :: "readings \<Rightarrow> nat \<Rightarrow> client \<Rightarrow> ConnInfo \<Rightarrow> ConnInfo" where
  "fill_addr R i c ci =
     (case nc c of
        Some k \<Rightarrow> if ckind k = OtherConn then ci else ci\<lparr>ci_Port := snd (r_addr R i), ci_IP := fst (r_addr R i)\<rparr>
      | None \<Rightarrow> ci)"

definition fill_requested :: "query \<Rightarrow> readings \<Rightarrow> client \<Rightarrow> ConnInfo \<Rightarrow> ConnInfo" where
  "fill_requested q R c ci =
     (let ci1 = (if Atoi (q_subs q) = 1
                 then ci\<lparr>ci_Subs := castToSliceString (r_visit_subs R (map snd (subs c)))\<rparr> else ci)
      in if Atoi (q_auth q) = 1 then ci1\<lparr>ci_AuthorizedUser := Username (copts c)\<rparr> else ci1)"

definition conn_info :: "query \<Rightarrow> bytes \<Rightarrow> int \<Rightarrow> bool \<Rightarrow> readings \<Rightarrow> server \<Rightarrow> nat \<times> int \<Rightarrow> ConnInfo option" where
  "conn_info q opt now tlsReq R w = (\<lambda>(i, v).
     let c = the_client i w in
     map_option (\<lambda>ci. fill_requested q R c (fill_addr R i c ci))
       (fill_tls tlsReq R i c (overwrite_sorted opt v (conn_now now R i c))))"

fun all_or_none :: "('a \<Rightarrow> 'b option) \<Rightarrow> 'a list \<Rightarrow> 'b list option" where
  "all_or_none f [] = Some []"
| "all_or_none f (x # xs) =
     (case f x of None \<Rightarrow> None | Some y \<Rightarrow> map_option (\<lambda>ys. y # ys) (all_or_none f xs))"

text \<open>
  The pairs are made of \<open>w\<close> with the readings \<open>R\<close>, the connections are printed from \<open>w'\<close> with \<open>R'\<close>.
\<close>

definition HandleConnz ::
  "query \<Rightarrow> int \<Rightarrow> bool \<Rightarrow> readings \<Rightarrow> server \<Rightarrow> readings \<Rightarrow> server \<Rightarrow> req_stats \<Rightarrow> Connz answer \<times> req_stats" where
  "HandleConnz q now tlsReq R w R' w' hs =
     (let opt = connz_sort (q_sort q) in
      if \<not> SortOpt_IsValid opt then (BadRequest (''Invalid sorting option: '' @ opt), hs)
      else
        let offset = Atoi (q_offset q);
            limit = (if Atoi (q_limit q) = 0 then DefaultConnListSize else Atoi (q_limit q));
            hs1 = count_request ConnzPath hs;
            answer = (case connz_page offset limit (connz_pairs opt now R w) of
                None \<Rightarrow> HPanic
              | Some ps \<Rightarrow>
                  (case all_or_none (conn_info q opt now tlsReq R' w') ps of
                     None \<Rightarrow> HPanic
                   | Some cis \<Rightarrow> Answer \<lparr>cz_Now = now, cz_NumConns = length ps, cz_Total = length (clients w),
                       cz_Offset = offset, cz_Limit = limit, cz_Conns = cis\<rparr>))
        in (answer, hs1))"

section \<open>Routes\<close>

record RouteInfo =
  ri_Rid :: nat
  ri_RemoteID :: bytes
  ri_DidSolicit :: bool
  ri_IsConfigured :: bool
  ri_IP :: bytes
  ri_Port :: int
  ri_Pending :: int
  ri_InMsgs :: int
  ri_OutMsgs :: int
  ri_InBytes :: int
  ri_OutBytes :: int
  ri_NumSubs :: "32 word"
  ri_Subs :: "bytes list"

record Routez =
  rz_Now :: int
  rz_NumRoutes :: nat
  rz_Routes :: "RouteInfo list"

text \<open>The number of pending bytes is never set. The route of a client without one is a nil pointer.\<close>

definition route_info :: "query \<Rightarrow> readings \<Rightarrow> server \<Rightarrow> nat \<Rightarrow> RouteInfo option" where
  "route_info q R w i =
     (let c = the_client i w in
      case croute c of None \<Rightarrow> None
      | Some r \<Rightarrow>
          let tcp = (case nc c of Some k \<Rightarrow> ckind k = TCPConn | None \<Rightarrow> False)
          in Some \<lparr>ri_Rid = cid c, ri_RemoteID = remoteID r, ri_DidSolicit = didSolicit r,
               ri_IsConfigured = (routeType r = Explicit),
               ri_IP = (if tcp then fst (r_addr R i) else []), ri_Port = (if tcp then snd (r_addr R i) else 0), ri_Pending = 0,
               ri_InMsgs = inMsgs c, ri_OutMsgs = outMsgs c, ri_InBytes = inBytes c, ri_OutBytes = outBytes c,
               ri_NumSubs = of_nat (length (subs c)),
               ri_Subs = (if Atoi (q_subs q) = 1
                          then castToSliceString (r_visit_subs R (map snd (subs c))) else [])\<rparr>)"

definition HandleRoutez :: "query \<Rightarrow> int \<Rightarrow> readings \<Rightarrow> server \<Rightarrow> req_stats \<Rightarrow> Routez answer \<times> req_stats" where
  "HandleRoutez q now R w hs =
     (case all_or_none (route_info q R w) (r_visit R (routes w)) of
        None \<Rightarrow> HPanic
      | Some ris \<Rightarrow> Answer \<lparr>rz_Now = now, rz_NumRoutes = length (routes w), rz_Routes = ris\<rparr>,
      count_request RoutezPath hs)"

section \<open>Subscriptions, variables and stacks\<close>

definition HandleSubsz :: "'f \<Rightarrow> (nat \<Rightarrow> nat \<Rightarrow> 'f) \<Rightarrow> server \<Rightarrow> req_stats \<Rightarrow> 'f SublistStats answer \<times> req_stats" where
  "HandleSubsz zero fdiv w hs = (Answer (Stats zero fdiv (sl w)), count_request SubszPath hs)"

text \<open>The fields of the information and of the options that are printed along are left out.\<close>

record 'f Varz =
  vz_MaxPayload :: int
  vz_Start :: int
  vz_Now :: int
  vz_Uptime :: bytes
  vz_Mem :: int
  vz_Cores :: int
  vz_CPU :: 'f
  vz_Connections :: nat
  vz_TotalConnections :: nat
  vz_Routes :: nat
  vz_Remotes :: nat
  vz_InMsgs :: int
  vz_OutMsgs :: int
  vz_InBytes :: int
  vz_OutBytes :: int
  vz_SlowConsumers :: int
  vz_Subscriptions :: "32 word"
  vz_HTTPReqStats :: req_stats

text \<open>\<^verbatim>\<open>updateUsage\<close>: the usage of the process is read from the operating system.\<close>

definition updateUsage :: "'f \<times> int \<times> int \<Rightarrow> 'f Varz \<Rightarrow> 'f Varz" where
  "updateUsage = (\<lambda>(pcpu, rss, numCores) v. v\<lparr>vz_Mem := rss, vz_CPU := pcpu, vz_Cores := numCores\<rparr>)"

definition HandleVarz ::
  "'f \<times> int \<times> int \<Rightarrow> 'f \<Rightarrow> int \<Rightarrow> int \<Rightarrow> int \<Rightarrow> server \<Rightarrow> req_stats \<Rightarrow> 'f Varz answer \<times> req_stats" where
  "HandleVarz usage zero maxPayload start now w hs =
     (let hs1 = count_request VarzPath hs;
          v = updateUsage usage
            \<lparr>vz_MaxPayload = maxPayload, vz_Start = start, vz_Now = now, vz_Uptime = myUptime (time_Sub now start),
             vz_Mem = 0, vz_Cores = 0, vz_CPU = zero, vz_Connections = 0, vz_TotalConnections = 0,
             vz_Routes = 0, vz_Remotes = 0, vz_InMsgs = 0, vz_OutMsgs = 0, vz_InBytes = 0, vz_OutBytes = 0,
             vz_SlowConsumers = 0, vz_Subscriptions = 0, vz_HTTPReqStats = []\<rparr>
      in (Answer (v\<lparr>vz_Connections := length (clients w), vz_TotalConnections := totalClients w,
             vz_Routes := length (routes w), vz_Remotes := length (remotes w),
             vz_InMsgs := sInMsgs w, vz_InBytes := sInBytes w, vz_OutMsgs := sOutMsgs w, vz_OutBytes := sOutBytes w,
             vz_SlowConsumers := slowConsumers w, vz_Subscriptions := Count (sl w), vz_HTTPReqStats := hs1\<rparr>), hs1))"

definition defaultStackBufSize :: nat where "defaultStackBufSize = 10000"

text \<open>
  \<^verbatim>\<open>runtime.Stack\<close> writes as much of the trace as fits into the buffer. The loop doubles the buffer
  until the trace leaves a byte of it free. The trace can change between two calls: it is given
  by the size of the buffer.
\<close>

definition runtime_Stack :: "bytes \<Rightarrow> nat \<Rightarrow> bytes" where
  "runtime_Stack trace sz = take sz trace"

fun stacks_loop :: "nat \<Rightarrow> (nat \<Rightarrow> bytes) \<Rightarrow> nat \<Rightarrow> bytes option" where
  "stacks_loop 0 trace sz = None"
| "stacks_loop (Suc fuel) trace sz =
     (let buf = runtime_Stack (trace sz) sz
      in if length buf < sz then Some buf else stacks_loop fuel trace (sz * 2))"

definition HandleStacksz :: "nat \<Rightarrow> (nat \<Rightarrow> bytes) \<Rightarrow> bytes option" where
  "HandleStacksz fuel trace = stacks_loop fuel trace defaultStackBufSize"

section \<open>Responses\<close>

datatype endpoint = EpRoot | EpVarz | EpConnz | EpRoutez | EpSubsz | EpStacksz

text \<open>The patterns that are registered: all but the root match one path only, the root matches the rest.\<close>

definition startMonitoring_mux :: "bytes \<Rightarrow> endpoint" where
  "startMonitoring_mux path =
     (if path = VarzPath then EpVarz else if path = ConnzPath then EpConnz else if path = RoutezPath then EpRoutez
      else if path = SubszPath \<or> path = ''/subscriptionsz'' then EpSubsz
      else if path = StackszPath then EpStacksz else EpRoot)"

definition HandleRoot :: "bytes \<Rightarrow> bytes \<Rightarrow> req_stats \<Rightarrow> bytes answer \<times> req_stats" where
  "HandleRoot page path hs = (if path \<noteq> ''/'' then (NotFound, hs) else (Answer page, count_request RootPath hs))"

text \<open>The type and the body of a response, with the body wrapped for JSONP.\<close>

definition ResponseHandler :: "bytes \<Rightarrow> bytes \<Rightarrow> bytes \<times> bytes" where
  "ResponseHandler callback data =
     (if callback \<noteq> [] then (''application/javascript'', callback @ ''('' @ data @ '')'')
      else (''application/json'', data))"

end
