(* ===== verification/Monitor_Props.thy ===== *)
theory Monitor_Props
  imports Monitor Conf_Settings
begin

text \<open>
  Properties of the monitoring endpoints: the counts they report are those of the server, paging
  through the connections shows each of them once, a list stays sorted although the counters move
  on, the printed uptime can be read back, and the requests that fail.
\<close>

section \<open>The reported counts\<close>

lemma contents_live:
  assumes "winv w"
  shows "contents (sl w) = mset_set (entry_of ` live_subs w)" "finite (live_subs w)"
proof -
  have ix: "index_ok w" using assms by (simp add: winv_def)
  then have c: "Multiset.count (contents (sl w)) e = (if e \<in> entry_of ` live_subs w then 1 else 0)" for e
    unfolding index_ok_def by blast
  have "entry_of ` live_subs w = set_mset (contents (sl w))" using in_contents_iff [OF ix] by blast
  then have fin: "finite (entry_of ` live_subs w)" by simp
  moreover have "inj_on entry_of (live_subs w)" by (simp add: inj_on_def)
  ultimately show "finite (live_subs w)" by (simp add: finite_image_iff)
  show "contents (sl w) = mset_set (entry_of ` live_subs w)"
    by (rule multiset_eqI) (simp add: c fin count_mset_set')
qed

lemma Count_live:
  assumes "winv w"
  shows "Count (sl w) = of_nat (card (live_subs w))"
proof -
  have "size (contents (sl w)) = card (live_subs w)"
    using contents_live [OF assms] by (simp add: card_image inj_on_def)
  moreover have "Count (sl w) = of_nat (size (contents (sl w)))"
    using assms by (simp add: Count_def winv_def index_ok_def sl_wf_def)
  ultimately show ?thesis by simp
qed

definition demo_readings :: readings where
  "demo_readings = \<lparr>r_start = (\<lambda>_. 0), r_last = int, r_buffered = (\<lambda>_. 0), r_addr = (\<lambda>_. (''::1'', 9)),
     r_tls = (\<lambda>_. (0x0303, 0xc02f)), r_visit = id, r_visit_subs = id\<rparr>"

text \<open>Two clients, and an internal client.\<close>

definition demo_pair :: server where
  "demo_pair = snd (createClient False demo_conn None demo_sub)"

definition mon_internal :: server where
  "mon_internal = snd (createClient True (demo_conn\<lparr>ckind := OtherConn\<rparr>) None demo_start)"

lemma demo_pair_reach: "reachable server_init server_step demo_pair"
  by (rule reach_step [OF demo_reach(3) step_client]) (auto simp: demo_pair_def intro: surjective_pairing)



section \<open>Pages of connections\<close>

lemma connz_page_slice:
  assumes "0 \<le> offset" "0 \<le> limit" "offset + limit < 2 ^ 63"
  shows "connz_page offset limit ps = Some (take (nat limit) (drop (nat offset) ps))"
proof -
  have w: "wrap64 (offset + limit) = offset + limit"
    using assms by (intro wrap64_id in_int64_nonneg) auto
  consider "offset > int (length ps)" | "offset \<le> int (length ps)" "offset + limit > int (length ps)"
    | "offset + limit \<le> int (length ps)" by linarith
  then show ?thesis
  proof cases
    case 1
    with assms(2) show ?thesis by (simp add: connz_page_def Let_def w)
  next
    case 2
    with assms show ?thesis by (simp add: connz_page_def Let_def w)
  next
    case 3
    with assms show ?thesis by (simp add: connz_page_def Let_def w)
  qed
qed

lemma all_or_none_map:
  "(\<And>x. x \<in> set xs \<Longrightarrow> f x = Some (g x)) \<Longrightarrow> all_or_none f xs = Some (map g xs)"
  by (induction xs) auto

lemma all_or_none_None: "all_or_none f xs = None \<longleftrightarrow> (\<exists>x \<in> set xs. f x = None)"
  by (induction xs) (auto split: option.split)

lemma all_or_none_Some:
  "all_or_none f xs = Some ys \<Longrightarrow> list_all2 (\<lambda>x y. f x = Some y) xs ys"
  by (induction xs arbitrary: ys) (auto split: option.splits)

lemma conn_now_kept:
  "ci_Cid (overwrite_sorted opt v ci) = ci_Cid ci"
  "ci_Cid (fill_addr R i c ci) = ci_Cid ci"
  "ci_Cid (fill_requested q R c ci) = ci_Cid ci"
  "fill_tls tlsReq R i c ci = Some ci' \<Longrightarrow> ci_Cid ci' = ci_Cid ci"
  by (auto simp: overwrite_sorted_def fill_addr_def fill_requested_def fill_tls_def Let_def
      split: option.splits if_splits)

lemma conn_info_Cid: "conn_info q opt now tlsReq R w p = Some ci \<Longrightarrow> ci_Cid ci = cid (the_client (fst p) w)"
  by (cases p) (auto simp: conn_info_def Let_def conn_now_kept conn_now_def)

lemma conn_info_plain: "\<exists>ci. conn_info q opt now False R w p = Some ci"
  by (cases p) (simp add: conn_info_def Let_def fill_tls_def split: option.split)

lemma sorted_int: "sorted (map int ys) = sorted ys"
  by (induction ys) auto

lemma sort_pairs_cid:
  assumes "\<And>i. i \<in> set xs \<Longrightarrow> f i = int i"
  shows "map fst (sort_pairs byCid (map (\<lambda>i. (i, f i)) xs)) = sort xs"
proof -
  let ?ps = "sort_key snd (map (\<lambda>i. (i, f i)) xs)"
  have "snd p = int (fst p)" if "p \<in> set ?ps" for p using that assms by auto
  then have "map snd ?ps = map int (map fst ?ps)" by simp
  then have "sorted (map int (map fst ?ps))" by (metis sorted_sort_key)
  then have "sorted (map fst ?ps)" by (simp only: sorted_int)
  moreover have "mset (map fst ?ps) = mset xs" by (simp add: multiset.map_comp comp_def)
  ultimately have "sort xs = map fst ?ps" by (metis properties_for_sort)
  then show ?thesis by (simp add: sort_pairs_def)
qed

lemma chunks_take: "concat (map (\<lambda>k. take l (drop (k * l) xs)) [0..<n]) = take (n * l) xs"
proof (induction n)
  case 0
  show ?case by simp
next
  case (Suc n)
  have "Suc n * l = n * l + l" by simp
  with Suc show ?case by (simp only: take_add) simp
qed


definition listed_cids :: "Connz answer \<Rightarrow> nat list" where
  "listed_cids a = (case a of Answer cz \<Rightarrow> map ci_Cid (cz_Conns cz) | _ \<Rightarrow> [])"

definition page_query :: "nat \<Rightarrow> nat \<Rightarrow> query" where
  "page_query offset limit =
     \<lparr>q_sort = [], q_auth = [], q_subs = [], q_offset = fmt_d offset, q_limit = fmt_d limit, q_callback = []\<rparr>"

lemma page_query_sel:
  "q_sort (page_query k l) = []" "q_offset (page_query k l) = fmt_d k" "q_limit (page_query k l) = fmt_d l"
  by (simp_all add: page_query_def)

lemma Atoi_fmt_d: "n < 2 ^ 63 \<Longrightarrow> Atoi (fmt_d n) = int n"
  by (simp add: Atoi_def ParseInt_fmt_d)

lemma page_shown:
  assumes "winv w" "mset (r_visit R (clients w)) = mset (clients w)" "0 < l" "offset + l < 2 ^ 63" "gcid w < 2 ^ 63"
  shows "listed_cids (fst (HandleConnz (page_query offset l) now False R w R' w hs)) =
    take l (drop offset (sort (clients w)))"
proof -
  let ?q = "page_query offset l"
  have t: "tables_ok w" using assms(1) by (simp add: winv_def)
  have set_eq: "set (r_visit R (clients w)) = set (clients w)" using assms(2) by (metis set_mset_mset)
  have c: "cid (the_client i w) = i \<and> i \<le> gcid w" if "i \<in> set (clients w)" for i
    using t that unfolding tables_ok_def the_client_def by fastforce
  have "sort_value byCid now R i (the_client i w) = int i" if "i \<in> set (r_visit R (clients w))" for i
    using c [of i] that assms(5) by (simp add: set_eq sort_value_def in_int64_nonneg)
  from sort_pairs_cid [OF this] assms(2) have ps: "map fst (connz_pairs byCid now R w) = sort (clients w)"
    by (simp add: connz_pairs_def) (metis properties_for_sort mset_sort sorted_sort)
  let ?ps = "take l (drop offset (connz_pairs byCid now R w))"
  define g where "g p = the (conn_info ?q byCid now False R' w p)" for p
  have g: "conn_info ?q byCid now False R' w p = Some (g p)" for p
    unfolding g_def using conn_info_plain [of ?q byCid now R' w p] by auto
  have "ci_Cid (g p) = fst p" if "p \<in> set ?ps" for p
  proof -
    have "fst p \<in> set (map fst (connz_pairs byCid now R w))" using that by (auto dest: in_set_takeD in_set_dropD)
    with c conn_info_Cid [OF g] show ?thesis by (simp add: ps)
  qed
  then have "map ci_Cid (map g ?ps) = map fst ?ps" by simp
  moreover have "connz_page (int offset) (int l) (connz_pairs byCid now R w) = Some ?ps"
    using assms(3,4) by (subst connz_page_slice) auto
  moreover have "all_or_none (conn_info ?q byCid now False R' w) ?ps = Some (map g ?ps)"
    by (rule all_or_none_map) (rule g)
  ultimately show ?thesis
    using assms(3,4)
    by (simp add: HandleConnz_def page_query_sel connz_sort_def SortOpt_IsValid_def Let_def Atoi_fmt_d
        listed_cids_def flip: ps take_map drop_map)
qed



text \<open>Without TLS a request with sane bounds is answered.\<close>

lemma HandleConnz_plain:
  assumes "SortOpt_IsValid (connz_sort (q_sort q))" "0 \<le> Atoi (q_offset q)" "0 < Atoi (q_limit q)"
    and "Atoi (q_offset q) + Atoi (q_limit q) < 2 ^ 63"
  shows "\<exists>cz. HandleConnz q now False R w R' w' hs = (Answer cz, count_request ConnzPath hs) \<and>
    length (cz_Conns cz) = min (length (r_visit R (clients w)) - nat (Atoi (q_offset q))) (nat (Atoi (q_limit q)))"
proof -
  let ?o = "connz_sort (q_sort q)"
  let ?ps = "take (nat (Atoi (q_limit q))) (drop (nat (Atoi (q_offset q))) (connz_pairs ?o now R w))"
  define g where "g p = the (conn_info q ?o now False R' w' p)" for p
  have g: "conn_info q ?o now False R' w' p = Some (g p)" for p
    unfolding g_def using conn_info_plain [of q ?o now R' w' p] by auto
  have "connz_page (Atoi (q_offset q)) (Atoi (q_limit q)) (connz_pairs ?o now R w) = Some ?ps"
    using assms by (intro connz_page_slice) auto
  moreover have "all_or_none (conn_info q ?o now False R' w') ?ps = Some (map g ?ps)"
    by (rule all_or_none_map) (rule g)
  moreover have "length (connz_pairs ?o now R w) = length (r_visit R (clients w))"
    by (simp add: connz_pairs_def sort_pairs_def)
  ultimately show ?thesis using assms by (simp add: HandleConnz_def Let_def)
qed

section \<open>A list stays sorted\<close>

definition shown :: "bytes \<Rightarrow> ConnInfo \<Rightarrow> int" where
  "shown opt ci =
     (if opt = byPending then ci_Pending ci else if opt = byOutMsgs then ci_OutMsgs ci
      else if opt = byInMsgs then ci_InMsgs ci else if opt = byOutBytes then ci_OutBytes ci
      else if opt = byInBytes then ci_InBytes ci else ci_LastActivity ci)"

definition moving :: "bytes list" where
  "moving = [byPending, byOutMsgs, byInMsgs, byOutBytes, byInBytes, byLast]"

lemma shown_cong:
  "ci_Pending a = ci_Pending b \<Longrightarrow> ci_OutMsgs a = ci_OutMsgs b \<Longrightarrow> ci_InMsgs a = ci_InMsgs b \<Longrightarrow>
   ci_OutBytes a = ci_OutBytes b \<Longrightarrow> ci_InBytes a = ci_InBytes b \<Longrightarrow> ci_LastActivity a = ci_LastActivity b \<Longrightarrow>
   shown opt a = shown opt b"
  by (simp add: shown_def)

lemma shown_kept:
  "shown opt (fill_addr R i c ci) = shown opt ci"
  "shown opt (fill_requested q R c ci) = shown opt ci"
  "fill_tls tlsReq R i c ci = Some ci' \<Longrightarrow> shown opt ci' = shown opt ci"
  by (rule shown_cong; auto simp: fill_addr_def fill_requested_def fill_tls_def Let_def
      split: option.splits if_splits)+

lemma shown_overwritten: "opt \<in> set moving \<Longrightarrow> shown opt (overwrite_sorted opt v ci) = v"
  unfolding moving_def set_simps insert_iff empty_iff
  by (elim disjE) (simp_all add: shown_def overwrite_sorted_def sort_names)

lemma conn_info_shown:
  "opt \<in> set moving \<Longrightarrow> conn_info q opt now tlsReq R w p = Some ci \<Longrightarrow> shown opt ci = snd p"
  by (cases p) (auto simp: conn_info_def Let_def shown_kept shown_overwritten)

lemma sorted_wrt_slice: "sorted_wrt P xs \<Longrightarrow> sorted_wrt P (take n (drop m xs))"
  by (simp add: sorted_wrt_take sorted_wrt_drop)

lemma connz_page_Some: "connz_page offset limit ps = Some qs \<Longrightarrow> \<exists>n m. qs = take n (drop m ps)"
  unfolding connz_page_def Let_def by (metis option.distinct(1) option.inject)

lemma pairs_descend:
  assumes "opt \<noteq> byCid"
  shows "sorted_wrt (\<lambda>p q. snd p \<ge> snd q) (connz_pairs opt now R w)"
proof -
  have "sorted (map (\<lambda>p. - snd p) (sort_key (\<lambda>p. - snd p) ps))" for ps :: "(nat \<times> int) list" by simp
  with assms show ?thesis by (simp add: connz_pairs_def sort_pairs_def sorted_map)
qed

lemma list_all2_shown:
  assumes "list_all2 (\<lambda>p ci. h ci = snd p) ps cis" "sorted_wrt (\<lambda>p q. snd p \<ge> snd q) ps"
  shows "sorted_wrt (\<ge>) (map h cis)"
proof -
  have "map h cis = map snd ps" using assms(1) by (induction rule: list_all2_induct) auto
  with assms(2) show ?thesis by (simp add: sorted_wrt_map)
qed

text \<open>
  (C29) An answer of /connz sorted by a counter or by the last activity is in descending order of the
  printed values, although the connections may have moved on between sorting and printing.
\<close>

theorem connz_stays_sorted:
  assumes "q_sort q \<in> set moving" "HandleConnz q now tlsReq R w R' w' hs = (Answer cz, hs')"
  shows "sorted_wrt (\<ge>) (map (shown (q_sort q)) (cz_Conns cz))"
proof -
  let ?o = "q_sort q"
  have o: "connz_sort ?o = ?o" "SortOpt_IsValid ?o" "?o \<noteq> byCid"
    using assms(1) by (auto simp: moving_def connz_sort_def SortOpt_IsValid_def sort_names)
  from assms(2) o obtain ps offset limit where
    ps: "connz_page offset limit (connz_pairs ?o now R w) = Some ps"
      "all_or_none (conn_info q ?o now tlsReq R' w') ps = Some (cz_Conns cz)"
    by (auto simp: HandleConnz_def Let_def split: option.splits)
  have "sorted_wrt (\<lambda>p q. snd p \<ge> snd q) ps"
    using connz_page_Some [OF ps(1)] pairs_descend [OF o(3)] sorted_wrt_slice by blast
  moreover have "list_all2 (\<lambda>p ci. shown ?o ci = snd p) ps (cz_Conns cz)"
    using all_or_none_Some [OF ps(2)] by (rule list_all2_mono) (rule conn_info_shown [OF assms(1)])
  ultimately show ?thesis by (intro list_all2_shown)
qed

theorem connz_stays_sorted_witness:
  "\<exists>cz hs'. HandleConnz ((page_query 0 5)\<lparr>q_sort := byLast\<rparr>) 9 False demo_readings demo_pair
       (demo_readings\<lparr>r_last := (\<lambda>i. 9 - int i)\<rparr>) demo_pair httpReqStats0 = (Answer cz, hs') \<and>
     length (cz_Conns cz) = 2 \<and> sorted_wrt (\<ge>) (map (shown byLast) (cz_Conns cz))"
proof -
  let ?q = "(page_query 0 5)\<lparr>q_sort := byLast\<rparr>"
  have n: "length (clients demo_pair) = 2" by code_simp
  have q: "Atoi (q_offset ?q) = 0" "Atoi (q_limit ?q) = 5"
    using Atoi_fmt_d [of 0] Atoi_fmt_d [of 5] by (simp_all add: page_query_sel)
  have "connz_sort byLast = byLast" "SortOpt_IsValid byLast" "byLast \<in> set moving" by code_simp+
  with HandleConnz_plain [of ?q 9 demo_readings demo_pair "demo_readings\<lparr>r_last := (\<lambda>i. 9 - int i)\<rparr>" demo_pair httpReqStats0]
    connz_stays_sorted [of ?q 9 False demo_readings demo_pair "demo_readings\<lparr>r_last := (\<lambda>i. 9 - int i)\<rparr>" demo_pair httpReqStats0]
    n q show ?thesis by (fastforce simp: demo_readings_def)
qed

section \<open>Requests that fail\<close>

text \<open>
  (C38) With TLS required and an internal client connected, as the health agent is, a request to
  /connz whose page shows all clients panics while it holds the lock of that client.
\<close>

theorem connz_panics_on_internal_client:
  assumes "i \<in> set (clients w)" "\<And>xs. mset (r_visit R xs) = mset xs" "heap w i = Some c"
    and "nc c = Some k" "ckind k \<noteq> TLSConn" "length (clients w) \<le> l" "0 < l" "l < 2 ^ 63"
  shows "fst (HandleConnz (page_query 0 l) now True R w R' w hs) = HPanic"
proof -
  let ?ps = "connz_pairs byCid now R w"
  have "length (r_visit R (clients w)) = length (clients w)" using assms(2) by (metis size_mset)
  then have len: "length ?ps = length (clients w)" by (simp add: connz_pairs_def sort_pairs_def)
  have "set (r_visit R (clients w)) = set (clients w)" using assms(2) by (metis set_mset_mset)
  then have "i \<in> fst ` set ?ps" using assms(1) by (simp add: connz_pairs_def sort_pairs_def image_image)
  then obtain v where "(i, v) \<in> set ?ps" by auto
  moreover have "conn_info (page_query 0 l) byCid now True R' w (i, v) = None"
    using assms(3-5) by (simp add: conn_info_def Let_def the_client_def fill_tls_def)
  ultimately have "all_or_none (conn_info (page_query 0 l) byCid now True R' w) ?ps = None"
    unfolding all_or_none_None by blast
  moreover have "connz_page 0 (int l) ?ps = Some ?ps"
    using assms(6,8) by (subst connz_page_slice) (auto simp: len)
  moreover have "Atoi (fmt_d 0) = 0" using Atoi_fmt_d [of 0] by simp
  ultimately show ?thesis using assms(7,8)
    by (simp add: HandleConnz_def page_query_sel connz_sort_def SortOpt_IsValid_def Let_def Atoi_fmt_d)
qed

theorem connz_panics_on_internal_client_witness:
  "fst (createClient True (demo_conn\<lparr>ckind := OtherConn\<rparr>) None demo_start) = Some 1 \<and>
   fst (HandleConnz (page_query 0 1024) 9 True demo_readings mon_internal demo_readings mon_internal httpReqStats0) = HPanic"
proof -
  have d: "clients mon_internal = [1]" "fst (createClient True (demo_conn\<lparr>ckind := OtherConn\<rparr>) None demo_start) = Some 1"
    "map_option (\<lambda>c. map_option ckind (nc c)) (heap mon_internal 1) = Some (Some OtherConn)" by code_simp+
  then obtain c k where "heap mon_internal 1 = Some c" "nc c = Some k" "ckind k = OtherConn" by auto
  with d show ?thesis
    by (intro conjI connz_panics_on_internal_client [of 1 _ _ c k]) (simp_all add: demo_readings_def)
qed

section \<open>The printed uptime\<close>

definition unit_secs :: "char \<Rightarrow> int" where
  "unit_secs u = (if u = CHR ''y'' then 365 * 86400 else if u = CHR ''d'' then 86400 else if u = CHR ''h'' then 3600
     else if u = CHR ''m'' then 60 else 1)"

fun read_uptime :: "int \<Rightarrow> int \<Rightarrow> bytes \<Rightarrow> int" where
  "read_uptime acc n [] = acc"
| "read_uptime acc n (c # cs) =
     (if ascii_digit c then read_uptime acc (n * 10 + (int (of_char c) - 48)) cs
      else read_uptime (acc + n * unit_secs c) 0 cs)"

lemma read_digits:
  "list_all ascii_digit ds \<Longrightarrow> read_uptime acc n (ds @ rest) = read_uptime acc (decimal n ds) rest"
  by (induction ds arbitrary: n) auto

lemma read_part:
  assumes "0 \<le> x" "\<not> ascii_digit u"
  shows "read_uptime acc 0 (fmt_int x @ u # rest) = read_uptime (acc + x * unit_secs u) 0 rest"
  using assms fmt_d_decimal [of "nat x"] by (simp add: fmt_int_def read_digits)

lemma go_div_nonneg: "0 \<le> a \<Longrightarrow> go_div a b = a div b"
  by (simp add: go_div_def)

lemma go_mod_nonneg: "0 \<le> a \<Longrightarrow> go_mod a b = a mod b"
  by (simp add: go_mod_def go_div_nonneg minus_mult_div_eq_mod)

text \<open>The uptime that is printed, in years, days, hours, minutes and seconds, is the number of seconds.\<close>

theorem uptime_roundtrip:
  assumes "0 \<le> d"
  shows "read_uptime 0 0 (myUptime d) = d div 1000000000"
proof -
  define s m h t y where "s = d div 1000000000" and "m = s div 60" and "h = m div 60" and "t = h div 24" and "y = t div 365"
  note defs = s_def m_def h_def t_def y_def
  have pos: "0 \<le> s" "0 \<le> m" "0 \<le> h" "0 \<le> t" "0 \<le> y"
    using assms by (simp_all add: defs pos_imp_zdiv_nonneg_iff)
  have mods: "s mod 60 = s - 60 * m" "m mod 60 = m - 60 * h" "h mod 24 = h - 24 * t" "t mod 365 = t - 365 * y"
    by (simp_all add: m_def h_def t_def y_def minus_mult_div_eq_mod)
  have units: "\<not> ascii_digit (CHR ''y'')" "\<not> ascii_digit (CHR ''d'')" "\<not> ascii_digit (CHR ''h'')"
      "\<not> ascii_digit (CHR ''m'')" "\<not> ascii_digit (CHR ''s'')"
    by (simp_all add: ascii_digit_def)
  have mod_pos: "0 \<le> x mod 60" "0 \<le> x mod 24" "0 \<le> x mod 365" for x :: int by simp_all
  have up: "myUptime d =
     (if y > 0 then fmt_int y @ CHR ''y'' # fmt_int (t mod 365) @ CHR ''d'' # fmt_int (h mod 24) @ CHR ''h'' #
        fmt_int (m mod 60) @ CHR ''m'' # fmt_int (s mod 60) @ CHR ''s'' # []
      else if t > 0 then fmt_int t @ CHR ''d'' # fmt_int (h mod 24) @ CHR ''h'' # fmt_int (m mod 60) @ CHR ''m'' #
        fmt_int (s mod 60) @ CHR ''s'' # []
      else if h > 0 then fmt_int h @ CHR ''h'' # fmt_int (m mod 60) @ CHR ''m'' # fmt_int (s mod 60) @ CHR ''s'' # []
      else if m > 0 then fmt_int m @ CHR ''m'' # fmt_int (s mod 60) @ CHR ''s'' # []
      else fmt_int s @ CHR ''s'' # [])"
    using assms pos by (simp add: myUptime_def Let_def go_div_nonneg go_mod_nonneg flip: s_def m_def h_def t_def y_def)
  have "read_uptime 0 0 (myUptime d) = s"
    unfolding up by (simp only: if_distrib [of "read_uptime 0 0"] read_part units pos mod_pos not_False_eq_True)
      (simp add: unit_secs_def mods)
  then show ?thesis by (simp add: s_def)
qed

theorem uptime_roundtrip_witness:
  "myUptime 90061000000000 = ''1d1h1m1s'' \<and> read_uptime 0 0 (myUptime 90061000000000) = 90061000000000 div 1000000000"
proof -
  have "myUptime 90061000000000 = ''1d1h1m1s''" by code_simp
  then show ?thesis using uptime_roundtrip [of 90061000000000] by simp
qed

section \<open>The dump of the stacks\<close>

lemma stacks_loop_returns:
  assumes "\<And>sz. length (trace sz) < n" "n \<le> sz * 2 ^ fuel"
  shows "\<exists>k. stacks_loop (Suc fuel) trace sz = Some (trace k)"
  using assms(2)
proof (induction fuel arbitrary: sz)
  case 0
  then have "length (trace sz) < sz" using assms(1) [of sz] by simp
  then show ?case by (auto simp: runtime_Stack_def Let_def)
next
  case (Suc fuel)
  then have "\<exists>k. stacks_loop (Suc fuel) trace (sz * 2) = Some (trace k)" by (simp add: mult.assoc)
  then show ?case
    by (cases "length (trace sz) < sz") (auto simp: runtime_Stack_def Let_def simp del: stacks_loop.simps(2)
        simp: stacks_loop.simps(2) [of "Suc fuel"])
qed

text \<open>
  /stacksz ends and gives a whole dump: with the dump bounded by \<open>10000 * 2 ^ n\<close> bytes, however
  it changes in between, \<open>n\<close> doublings of the buffer are enough.
\<close>

theorem stacksz_returns_whole_dump:
  assumes "\<And>sz. length (trace sz) < defaultStackBufSize * 2 ^ n"
  shows "\<exists>k. HandleStacksz (Suc n) trace = Some (trace k)"
  unfolding HandleStacksz_def using assms by (intro stacks_loop_returns [OF assms]) simp

theorem stacksz_returns_whole_dump_witness:
  "\<exists>k. HandleStacksz 2 (\<lambda>sz. replicate (if sz < 10001 then 10000 else 12000) (CHR ''x'')) =
     Some (replicate (if k < (10001 :: nat) then 10000 else 12000) (CHR ''x''))"
  using stacksz_returns_whole_dump [of "\<lambda>sz. replicate (if sz < 10001 then 10000 else 12000) (CHR ''x'')" 1]
  by (simp add: defaultStackBufSize_def numeral_2_eq_2)

end
