(* ===== verification/Health_Rank.thy ===== *)
theory Health_Rank
  imports Prelude "HOL-Library.Char_ord" "HOL-Library.List_Lexorder" "HOL-Library.Product_Lexorder"
begin

text \<open>
  Agents and their order (src/health/aloc.go, health.go) and the trees of agents that the
  health agent collects (btree.go, setutil.go). A tree of the B-tree package is the sequence
  of its items in order; its operations keep the sequence sorted and free of duplicates.

  Times are nanoseconds since 1970 as unbounded integers; \<open>UnixNano\<close> wraps at 64 bits, as the
  library documents for dates outside the years 1678 to 2262.
\<close>

section \<open>Agents\<close>

record HostPort =
  hp_Host :: bytes
  hp_Port :: int

record ExtInt =
  External :: HostPort
  Internal :: HostPort

record AgentLoc =
  a_ID :: bytes
  a_NatsHost :: bytes
  a_NatsClientPort :: int
  a_Grpc :: ExtInt
  a_LeaseExpires :: int
  a_Rank :: int
  a_Pid :: int

definition zero_time :: int where
  "zero_time = - 62135596800000000000"

definition UnixNano :: "int \<Rightarrow> int" where
  "UnixNano t = wrap64 t"

definition no_HostPort :: HostPort where
  "no_HostPort = \<lparr>hp_Host = [], hp_Port = 0\<rparr>"

definition no_AgentLoc :: AgentLoc where
  "no_AgentLoc = \<lparr>a_ID = [], a_NatsHost = [], a_NatsClientPort = 0,
     a_Grpc = \<lparr>External = no_HostPort, Internal = no_HostPort\<rparr>, a_LeaseExpires = zero_time, a_Rank = 0, a_Pid = 0\<rparr>"

definition lessThanString :: "bytes \<Rightarrow> bytes \<Rightarrow> bool" where
  "lessThanString i j =
     (let iempt = i = []; jempt = j = []
      in if iempt \<or> jempt then (if jempt then True else False) else i < j)"

definition AgentLocLessThan :: "AgentLoc \<Rightarrow> AgentLoc \<Rightarrow> bool" where
  "AgentLocLessThan i j =
     (let iempt = a_ID i = []; jempt = a_ID j = []
      in if iempt \<and> jempt then False
         else if jempt then True
         else if iempt then False
         else if a_Rank i \<noteq> a_Rank j then a_Rank i < a_Rank j
         else if a_ID i \<noteq> a_ID j then lessThanString (a_ID i) (a_ID j)
         else if a_NatsHost i \<noteq> a_NatsHost j then lessThanString (a_NatsHost i) (a_NatsHost j)
         else if a_NatsClientPort i \<noteq> a_NatsClientPort j then a_NatsClientPort i < a_NatsClientPort j
         else if a_Pid i \<noteq> a_Pid j then a_Pid i < a_Pid j
         else UnixNano (a_LeaseExpires i) > UnixNano (a_LeaseExpires j))"

definition alocEqual :: "AgentLoc \<Rightarrow> AgentLoc \<Rightarrow> bool" where
  "alocEqual a b =
     (let aless = AgentLocLessThan a b; bless = AgentLocLessThan b a in \<not> aless \<and> \<not> bless)"

definition slocEqualIgnoreLease :: "AgentLoc \<Rightarrow> AgentLoc \<Rightarrow> bool" where
  "slocEqualIgnoreLease a b =
     (let a0 = a\<lparr>a_LeaseExpires := zero_time\<rparr>;
          b0 = b\<lparr>a_LeaseExpires := zero_time\<rparr>;
          aless = AgentLocLessThan a0 b0;
          bless = AgentLocLessThan b0 a0
      in \<not> aless \<and> \<not> bless)"

section \<open>Trees of agents\<close>

type_synonym ranktree = "AgentLoc list"

fun rt_insert :: "AgentLoc \<Rightarrow> ranktree \<Rightarrow> ranktree" where
  "rt_insert j [] = [j]"
| "rt_insert j (x # xs) =
     (if AgentLocLessThan x j then x # rt_insert j xs
      else if AgentLocLessThan j x then j # x # xs
      else j # xs)"

fun present :: "AgentLoc \<Rightarrow> ranktree \<Rightarrow> bool" where
  "present j [] = False"
| "present j (x # xs) = (if AgentLocLessThan x j then present j xs else \<not> AgentLocLessThan j x)"

fun deleteSloc :: "AgentLoc \<Rightarrow> ranktree \<Rightarrow> ranktree" where
  "deleteSloc j [] = []"
| "deleteSloc j (x # xs) =
     (if AgentLocLessThan x j then x # deleteSloc j xs
      else if AgentLocLessThan j x then x # xs
      else xs)"

text \<open>The smallest item; the type assertion on the result of an empty tree panics.\<close>

definition minrank :: "ranktree \<Rightarrow> AgentLoc option" where
  "minrank t = (case t of [] \<Rightarrow> None | x # xs \<Rightarrow> Some x)"

text \<open>The items before the empty agent, in order, as the iterations visit them.\<close>

definition AscendLessThan :: "AgentLoc \<Rightarrow> ranktree \<Rightarrow> AgentLoc list" where
  "AscendLessThan p t = takeWhile (\<lambda>x. AgentLocLessThan x p) t"

definition rt_clone :: "ranktree \<Rightarrow> ranktree" where
  "rt_clone t = fold rt_insert (AscendLessThan no_AgentLoc t) []"

record members =
  DedupTree :: ranktree
  LeadID :: bytes

definition newMembers :: members where
  "newMembers = \<lparr>DedupTree = [], LeadID = []\<rparr>"

definition mem_insert :: "AgentLoc \<Rightarrow> members \<Rightarrow> members" where
  "mem_insert s m = m\<lparr>DedupTree := rt_insert s (DedupTree m)\<rparr>"

definition mem_clear :: "members \<Rightarrow> members" where
  "mem_clear m = m\<lparr>DedupTree := []\<rparr>"

definition mem_clone :: "members \<Rightarrow> members" where
  "mem_clone m = newMembers\<lparr>DedupTree := rt_clone (DedupTree m)\<rparr>"

definition setEmpty :: "members \<Rightarrow> bool" where
  "setEmpty m \<longleftrightarrow> length (DedupTree m) = 0"

definition setDiff :: "members \<Rightarrow> members \<Rightarrow> members" where
  "setDiff a b =
     \<lparr>DedupTree = fold deleteSloc (AscendLessThan no_AgentLoc (DedupTree b)) (rt_clone (DedupTree a)), LeadID = []\<rparr>"

definition setsEqual :: "members \<Rightarrow> members \<Rightarrow> bool" where
  "setsEqual a b =
     (let alen = length (DedupTree a)
      in if alen \<noteq> length (DedupTree b) then False
         else if alen = 0 then True
         else list_all (\<lambda>v. present v (DedupTree b)) (AscendLessThan no_AgentLoc (DedupTree a)))"

section \<open>The order\<close>

text \<open>
  The comparison is the lexicographic order of a key: agents without an ID come last, then
  rank, ID, host (an empty one last), port, process and the later lease first.
\<close>

definition rank_key :: "AgentLoc \<Rightarrow> bool \<times> int \<times> bytes \<times> (bool \<times> bytes) \<times> int \<times> int \<times> int" where
  "rank_key a =
     (if a_ID a = [] then (True, 0, [], (False, []), 0, 0, 0)
      else (False, a_Rank a, a_ID a, (a_NatsHost a = [], a_NatsHost a), a_NatsClientPort a, a_Pid a, - UnixNano (a_LeaseExpires a)))"

lemma less_key: "AgentLocLessThan i j \<longleftrightarrow> rank_key i < rank_key j"
  by (auto simp: AgentLocLessThan_def rank_key_def lessThanString_def Let_def less_bool_def)

lemma alocEqual_key: "alocEqual i j \<longleftrightarrow> rank_key i = rank_key j"
  by (auto simp: alocEqual_def less_key Let_def)

section \<open>Trees over an order\<close>

text \<open>
  The contract of a tree kept as its sequence of items, over any comparison that is the order of
  a key: inserting replaces an item of the same key, deleting removes it, and the sequence stays
  strictly increasing.
\<close>

locale ordered_tree =
  fixes key :: "'a \<Rightarrow> 'k :: linorder"
    and lt :: "'a \<Rightarrow> 'a \<Rightarrow> bool"
    and ins :: "'a \<Rightarrow> 'a list \<Rightarrow> 'a list"
    and has :: "'a \<Rightarrow> 'a list \<Rightarrow> bool"
    and del :: "'a \<Rightarrow> 'a list \<Rightarrow> 'a list"
  assumes lt_key: "lt x y \<longleftrightarrow> key x < key y"
    and ins_nil: "ins j [] = [j]"
    and ins_cons: "ins j (x # xs) = (if lt x j then x # ins j xs else if lt j x then j # x # xs else j # xs)"
    and has_nil: "\<not> has j []"
    and has_cons: "has j (x # xs) = (if lt x j then has j xs else \<not> lt j x)"
    and del_nil: "del j [] = []"
    and del_cons: "del j (x # xs) = (if lt x j then x # del j xs else if lt j x then x # xs else xs)"
begin

definition ordered :: "'a list \<Rightarrow> bool" where
  "ordered t \<longleftrightarrow> sorted_wrt (<) (map key t)"

lemma ordered_cons: "ordered (x # xs) \<longleftrightarrow> (\<forall>y \<in> set xs. key x < key y) \<and> ordered xs"
  by (simp add: ordered_def)

lemma ordered_nil: "ordered []"
  by (simp add: ordered_def)

lemma filter_cons: "{y \<in> set (x # xs). key y \<noteq> k} = (if key x \<noteq> k then insert x {y \<in> set xs. key y \<noteq> k} else {y \<in> set xs. key y \<noteq> k})"
  by auto

lemma key_neq: "\<forall>y \<in> set xs. key x < key y \<Longrightarrow> key j \<le> key x \<Longrightarrow> {y \<in> set xs. key y \<noteq> key j} = set xs"
  by (metis (mono_tags, lifting) Collect_mem_eq Collect_cong leD)

lemma ins_set: "ordered t \<Longrightarrow> set (ins j t) = insert j {y \<in> set t. key y \<noteq> key j}"
proof (induction t)
  case (Cons x xs)
  then have s: "\<forall>y \<in> set xs. key x < key y" "ordered xs" by (simp_all add: ordered_cons)
  show ?case
  proof (cases "key x < key j")
    case True
    then have "{y \<in> set (x # xs). key y \<noteq> key j} = insert x {y \<in> set xs. key y \<noteq> key j}"
      using less_imp_neq [OF True] by (simp only: filter_cons if_True not_False_eq_True)
    then show ?thesis using Cons.IH [OF s(2)] True by (simp add: ins_cons lt_key insert_commute)
  next
    case False
    then have e: "{y \<in> set xs. key y \<noteq> key j} = set xs" using key_neq [OF s(1)] by simp
    show ?thesis
    proof (cases "key j < key x")
      case True
      then have "{y \<in> set (x # xs). key y \<noteq> key j} = insert x (set xs)"
        using less_imp_neq [OF True, symmetric] by (simp only: filter_cons e if_True not_False_eq_True)
      then show ?thesis using True False by (simp add: ins_cons lt_key)
    next
      case F: False
      then have "{y \<in> set (x # xs). key y \<noteq> key j} = set xs"
        using antisym [OF leI [OF F] leI [OF False]] by (simp only: filter_cons e if_False not_True_eq_False simp_thms)
      then show ?thesis using F False by (simp add: ins_cons lt_key)
    qed
  qed
qed (simp add: ins_nil)

lemma ins_ordered: "ordered t \<Longrightarrow> ordered (ins j t)"
proof (induction t)
  case (Cons x xs)
  then have s: "\<forall>y \<in> set xs. key x < key y" "ordered xs" by (simp_all add: ordered_cons)
  show ?case
  proof (cases "key x < key j")
    case True
    have "\<forall>y \<in> set (ins j xs). key x < key y" unfolding ins_set [OF s(2)] using s(1) True by simp
    then show ?thesis using True Cons.IH [OF s(2)] by (simp add: ins_cons lt_key ordered_cons)
  next
    case False
    then have "\<forall>y \<in> set xs. key j < key y" using s(1) by (meson le_less_trans leI)
    then show ?thesis using False Cons.prems s by (simp add: ins_cons lt_key ordered_cons)
  qed
qed (simp add: ins_nil ordered_def)

lemma has_iff: "ordered t \<Longrightarrow> has j t \<longleftrightarrow> key j \<in> key ` set t"
proof (induction t)
  case (Cons x xs)
  then have s: "\<forall>y \<in> set xs. key x < key y" "ordered xs" by (simp_all add: ordered_cons)
  show ?case
  proof (cases "key x < key j")
    case True
    then have "key j \<noteq> key x" by (rule less_imp_neq [symmetric])
    then show ?thesis using True Cons.IH [OF s(2)] by (simp add: has_cons lt_key)
  next
    case False
    then have "key j \<notin> key ` set xs" using s(1) by (metis imageE)
    moreover have "\<not> key j < key x \<longleftrightarrow> key j = key x" using False by auto
    ultimately show ?thesis using False by (simp only: has_cons lt_key if_False list.set image_insert insert_iff simp_thms)
  qed
qed (simp add: has_nil)

lemma del_set: "ordered t \<Longrightarrow> set (del j t) = {y \<in> set t. key y \<noteq> key j}"
proof (induction t)
  case (Cons x xs)
  then have s: "\<forall>y \<in> set xs. key x < key y" "ordered xs" by (simp_all add: ordered_cons)
  show ?case
  proof (cases "key x < key j")
    case True
    then have "{y \<in> set (x # xs). key y \<noteq> key j} = insert x {y \<in> set xs. key y \<noteq> key j}"
      using less_imp_neq [OF True] by (simp only: filter_cons if_True not_False_eq_True)
    then show ?thesis using Cons.IH [OF s(2)] True by (simp add: del_cons lt_key)
  next
    case False
    then have e: "{y \<in> set xs. key y \<noteq> key j} = set xs" using key_neq [OF s(1)] by simp
    show ?thesis
    proof (cases "key j < key x")
      case True
      then have "{y \<in> set (x # xs). key y \<noteq> key j} = insert x (set xs)"
        using less_imp_neq [OF True, symmetric] by (simp only: filter_cons e if_True not_False_eq_True)
      then show ?thesis using True False by (simp add: del_cons lt_key)
    next
      case F: False
      then have "{y \<in> set (x # xs). key y \<noteq> key j} = set xs"
        using antisym [OF leI [OF F] leI [OF False]] by (simp only: filter_cons e if_False not_True_eq_False simp_thms)
      then show ?thesis using F False by (simp add: del_cons lt_key)
    qed
  qed
qed (simp add: del_nil)

lemma del_ordered: "ordered t \<Longrightarrow> ordered (del j t)"
proof (induction t)
  case (Cons x xs)
  then have s: "\<forall>y \<in> set xs. key x < key y" "ordered xs" by (simp_all add: ordered_cons)
  then have "\<forall>y \<in> set (del j xs). key x < key y" unfolding del_set [OF s(2)] by simp
  then show ?case using s Cons.IH [OF s(2)] by (simp add: del_cons ordered_cons)
qed (simp add: del_nil ordered_def)

text \<open>An ordered sequence is determined by its items.\<close>

lemma ordered_unique: "ordered s \<Longrightarrow> ordered t \<Longrightarrow> set s = set t \<Longrightarrow> s = t"
proof (induction s arbitrary: t)
  case (Cons x xs)
  then obtain y ys where t: "t = y # ys" by (cases t) auto
  have "x = y"
  proof (rule ccontr)
    assume "x \<noteq> y"
    then have "x \<in> set ys" "y \<in> set xs" using Cons.prems(3) t by auto
    then have "key x < key y" "key y < key x" using Cons.prems(1,2) t by (auto simp: ordered_cons)
    then show False by simp
  qed
  moreover have "x \<notin> set xs" "y \<notin> set ys" using Cons.prems(1,2) t by (auto simp: ordered_cons)
  ultimately have "set xs = set ys" using Cons.prems(3) t by auto
  then show ?case using Cons t \<open>x = y\<close> by (simp add: ordered_cons)
qed simp

lemma fold_ins_ordered: "ordered t \<Longrightarrow> ordered (fold ins js t)"
  by (induction js arbitrary: t) (simp_all add: ins_ordered)

lemma fold_ins_set:
  "ordered t \<Longrightarrow> \<forall>x \<in> set js \<union> set t. \<forall>y \<in> set js \<union> set t. key x = key y \<longrightarrow> x = y \<Longrightarrow>
   set (fold ins js t) = set js \<union> set t"
proof (induction js arbitrary: t)
  case (Cons j js)
  have i: "set (ins j t) = insert j (set t)" using ins_set [OF Cons.prems(1), of j] Cons.prems(2) by auto
  have "set (fold ins js (ins j t)) = set js \<union> set (ins j t)"
    using Cons.prems by (intro Cons.IH) (auto simp: ins_ordered i)
  then show ?case using i by auto
qed simp

lemma fold_del_ordered: "ordered t \<Longrightarrow> ordered (fold del js t)"
  by (induction js arbitrary: t) (simp_all add: del_ordered)

lemma fold_del_set: "ordered t \<Longrightarrow> set (fold del js t) = {x \<in> set t. key x \<notin> key ` set js}"
  by (induction js arbitrary: t) (auto simp: del_ordered del_set)

lemma ordered_inj:
  assumes "ordered t" "x \<in> set t" "y \<in> set t" "key x = key y"
  shows "x = y"
proof -
  have "distinct (map key t)" using assms(1) by (simp add: ordered_def strict_sorted_iff)
  then show ?thesis using assms(2-4) by (simp add: distinct_map inj_on_def)
qed

lemma fold_ins_sorted: "ordered (s @ js) \<Longrightarrow> fold ins js s = s @ js"
proof (induction js arbitrary: s)
  case (Cons j js)
  have "ins j t = t @ [j]" if "\<forall>y \<in> set t. key y < key j" for t
    using that by (induction t) (simp_all add: ins_nil ins_cons lt_key)
  moreover have "\<forall>y \<in> set s. key y < key j" using Cons.prems by (simp add: ordered_def sorted_wrt_append)
  ultimately show ?case using Cons.IH [of "s @ [j]"] Cons.prems by simp
qed simp

end

interpretation rt: ordered_tree rank_key AgentLocLessThan rt_insert present deleteSloc
  by unfold_locales (simp_all add: less_key)

section \<open>Trees of agents\<close>

definition has_id :: "AgentLoc \<Rightarrow> bool" where
  "has_id a \<longleftrightarrow> a_ID a \<noteq> []"

lemma less_empty: "AgentLocLessThan x no_AgentLoc \<longleftrightarrow> has_id x"
  by (auto simp: AgentLocLessThan_def no_AgentLoc_def has_id_def Let_def)

lemma Ascend_all: "list_all has_id t \<Longrightarrow> AscendLessThan no_AgentLoc t = t"
  by (simp add: AscendLessThan_def less_empty list_all_iff)

lemma rt_clone_id: "rt.ordered t \<Longrightarrow> list_all has_id t \<Longrightarrow> rt_clone t = t"
  using rt.fold_ins_sorted [of "[]" t] by (simp add: rt_clone_def Ascend_all)

end
