(* ===== verification/Health_Ring.thy ===== *)
theory Health_Ring
  imports Prelude
begin

text \<open>
  The ring buffer of the health agent (src/health/rbuf.go), with the sequence of its items as
  its abstraction: every operation is the list operation on that sequence.
\<close>

record 'a ringBuf =
  rb_A :: "'a option list"
  rb_N :: nat
  rb_Beg :: nat
  rb_Readable :: nat

definition newRingBuf :: "nat \<Rightarrow> 'a ringBuf" where
  "newRingBuf n = \<lparr>rb_A = replicate n None, rb_N = n, rb_Beg = 0, rb_Readable = 0\<rparr>"

definition rb_clone :: "'a ringBuf \<Rightarrow> 'a ringBuf" where
  "rb_clone b = \<lparr>rb_A = map (\<lambda>i. rb_A b ! i) [0..<length (rb_A b)], rb_N = rb_N b, rb_Beg = rb_Beg b, rb_Readable = rb_Readable b\<rparr>"

definition rb_Reset :: "'a ringBuf \<Rightarrow> 'a ringBuf" where
  "rb_Reset b = b\<lparr>rb_Beg := 0, rb_Readable := 0\<rparr>"

text \<open>\<open>None\<close> is the division by zero of a ring of size zero.\<close>

definition rb_Advance :: "int \<Rightarrow> 'a ringBuf \<Rightarrow> 'a ringBuf option" where
  "rb_Advance n b =
     (if n \<le> 0 then Some b
      else
        let m = (if n > int (rb_Readable b) then rb_Readable b else nat n)
        in if rb_N b = 0 then None
           else Some (b\<lparr>rb_Readable := rb_Readable b - m, rb_Beg := (rb_Beg b + m) mod rb_N b\<rparr>))"

definition rb_Avail :: "'a ringBuf \<Rightarrow> nat" where
  "rb_Avail b = rb_Readable b"

definition rb_First :: "'a ringBuf \<Rightarrow> int" where
  "rb_First b = (if rb_Readable b = 0 then -1 else int (rb_Beg b))"

definition rb_Last :: "'a ringBuf \<Rightarrow> int" where
  "rb_Last b =
     (if rb_Readable b = 0 then -1
      else let l = rb_Beg b + rb_Readable b - 1 in if l < rb_N b then int l else int (l mod rb_N b))"

definition rb_Kth :: "int \<Rightarrow> 'a ringBuf \<Rightarrow> int" where
  "rb_Kth k b =
     (if rb_Readable b = 0 \<or> k < 0 \<or> k \<ge> int (rb_Readable b) then -1 else (int (rb_Beg b) + k) mod int (rb_N b))"

text \<open>The first component is whether the write succeeded.\<close>

definition rb_Append :: "'a \<Rightarrow> 'a ringBuf \<Rightarrow> bool \<times> 'a ringBuf" where
  "rb_Append p b =
     (if int (rb_N b) - int (rb_Readable b) \<le> 0 then (False, b)
      else
        let writeStart = (rb_Beg b + rb_Readable b) mod rb_N b
        in (True, b\<lparr>rb_A := (rb_A b)[writeStart := Some p], rb_Readable := rb_Readable b + 1\<rparr>))"

section \<open>The sequence a ring holds\<close>

definition rb_ok :: "'a ringBuf \<Rightarrow> bool" where
  "rb_ok b \<longleftrightarrow> length (rb_A b) = rb_N b \<and> rb_Readable b \<le> rb_N b \<and> (rb_N b = 0 \<or> rb_Beg b < rb_N b)"

definition rb_items :: "'a ringBuf \<Rightarrow> 'a option list" where
  "rb_items b = map (\<lambda>k. rb_A b ! ((rb_Beg b + k) mod rb_N b)) [0..<rb_Readable b]"

lemma rb_items_length [simp]: "length (rb_items b) = rb_Readable b"
  by (simp add: rb_items_def)

lemma rb_clone_same: "rb_clone b = b"
  by (cases b) (simp add: rb_clone_def map_nth)

lemma newRingBuf_items: "rb_items (newRingBuf n) = []" "rb_ok (newRingBuf n)"
  by (auto simp: rb_items_def newRingBuf_def rb_ok_def)

lemma mod_distinct:
  assumes "a < n" "b < n" "(s + a) mod n = (s + b) mod (n :: nat)"
  shows "a = b"
proof -
  have "int (s + a) mod int n = int (s + b) mod int n" using assms(3) by (metis of_nat_mod)
  then have d: "int n dvd int a - int b" by (simp add: mod_eq_dvd_iff)
  then have d': "int n dvd int b - int a" by (metis dvd_minus_iff minus_diff_eq)
  show ?thesis
  proof (rule linorder_cases [of a b])
    assume "a < b"
    then have "\<not> int n dvd int b - int a" using assms(2) by (intro zdvd_not_zless) simp_all
    then show ?thesis using d' by simp
  next
    assume "b < a"
    then have "\<not> int n dvd int a - int b" using assms(1) by (intro zdvd_not_zless) simp_all
    then show ?thesis using d by simp
  qed
qed

lemma rb_Append_full: "rb_Readable b \<ge> rb_N b \<Longrightarrow> rb_Append p b = (False, b)"
  by (simp add: rb_Append_def)

lemma rb_Append_room:
  assumes ok: "rb_ok b" and room: "rb_Readable b < rb_N b" and app: "rb_Append p b = (r, b')"
  shows "r" "rb_items b' = rb_items b @ [Some p]" "rb_ok b'"
proof -
  let ?w = "(rb_Beg b + rb_Readable b) mod rb_N b"
  have b': "b' = b\<lparr>rb_A := (rb_A b)[?w := Some p], rb_Readable := rb_Readable b + 1\<rparr>" and r: "r"
    using app room by (simp_all add: rb_Append_def Let_def)
  have w: "?w < length (rb_A b)" using ok room by (simp add: rb_ok_def)
  have "?w \<noteq> (rb_Beg b + k) mod rb_N b" if "k < rb_Readable b" for k
    using mod_distinct [of k "rb_N b" "rb_Readable b" "rb_Beg b"] that room by auto
  then show "rb_items b' = rb_items b @ [Some p]" using w by (auto simp: b' rb_items_def)
  show "rb_ok b'" using ok room by (simp add: b' rb_ok_def)
  show r by (rule r)
qed

lemma rb_Advance_items:
  assumes ok: "rb_ok b" and pos: "rb_N b > 0" and adv: "rb_Advance n b = Some b'"
  shows "rb_items b' = drop (nat n) (rb_items b)" "rb_ok b'"
proof -
  define m where "m = (if n > int (rb_Readable b) then rb_Readable b else nat n)"
  have "rb_items b' = drop (nat n) (rb_items b) \<and> rb_ok b'"
  proof (cases "n \<le> 0")
    case True
    then show ?thesis using adv ok by (simp add: rb_Advance_def)
  next
    case False
    have b': "b' = b\<lparr>rb_Readable := rb_Readable b - m, rb_Beg := (rb_Beg b + m) mod rb_N b\<rparr>"
      using False adv pos by (simp add: rb_Advance_def Let_def m_def)
    have l: "m \<le> rb_Readable b" by (auto simp: m_def nat_le_iff)
    have "rb_items b' = drop m (rb_items b)"
    proof (rule nth_equalityI)
      fix i
      assume "i < length (rb_items b')"
      then have "m + i < rb_Readable b" "i < rb_Readable b - m" using l by (simp_all add: b')
      then show "rb_items b' ! i = drop m (rb_items b) ! i"
        using l by (simp add: b' rb_items_def mod_add_left_eq add.assoc)
    qed (simp add: b')
    moreover have "drop m (rb_items b) = drop (nat n) (rb_items b)" by (simp add: m_def)
    ultimately show ?thesis using ok pos by (auto simp: b' rb_ok_def)
  qed
  then show "rb_items b' = drop (nat n) (rb_items b)" "rb_ok b'" by simp_all
qed

lemma rb_Kth_items:
  assumes "0 \<le> k" "k < int (rb_Readable b)"
  shows "rb_A b ! nat (rb_Kth k b) = rb_items b ! nat k"
proof -
  have "nat ((int (rb_Beg b) + k) mod int (rb_N b)) = (rb_Beg b + nat k) mod rb_N b"
    using assms(1) by (metis nat_0_le nat_int of_nat_add of_nat_mod)
  then show ?thesis using assms by (simp add: rb_Kth_def rb_items_def nat_less_iff)
qed

lemma rb_Last_items:
  assumes "rb_ok b" "rb_Readable b > 0"
  shows "rb_A b ! nat (rb_Last b) = last (rb_items b)"
proof -
  have "last (rb_items b) = rb_items b ! (rb_Readable b - 1)" using assms(2) by (subst last_conv_nth) (auto simp: rb_items_def)
  also have "\<dots> = rb_A b ! ((rb_Beg b + rb_Readable b - 1) mod rb_N b)" using assms(2) by (simp add: rb_items_def)
  finally have "last (rb_items b) = rb_A b ! ((rb_Beg b + rb_Readable b - 1) mod rb_N b)" .
  moreover have "nat (rb_Last b) = (rb_Beg b + rb_Readable b - 1) mod rb_N b"
    using assms(2) unfolding rb_Last_def Let_def by (simp only: nat_int mod_less split: if_split) simp
  ultimately show ?thesis by simp
qed

text \<open>
  The ring buffer is a bounded queue: on the sequence of items, appending adds the item at
  the end, or reports that the ring is full and changes nothing; advancing drops that many items
  from the front, and a k-th index is the place of the k-th item.
\<close>
theorem ring_refines_queue:
  assumes "rb_ok b" "0 < rb_N b"
  shows "(case rb_Append p b of (r, b1) \<Rightarrow>
      rb_ok b1 \<and> (r \<longleftrightarrow> rb_Avail b < rb_N b) \<and> rb_items b1 = rb_items b @ (if r then [Some p] else [])) \<and>
    (\<exists>b2. rb_Advance n b = Some b2 \<and> rb_ok b2 \<and> rb_items b2 = drop (nat n) (rb_items b)) \<and>
    (k < rb_Avail b \<longrightarrow> rb_A b ! nat (rb_Kth (int k) b) = rb_items b ! k)"
proof (intro conjI)
  obtain r b1 where a: "rb_Append p b = (r, b1)" by (cases "rb_Append p b")
  then show "case rb_Append p b of (r, b1) \<Rightarrow>
      rb_ok b1 \<and> (r \<longleftrightarrow> rb_Avail b < rb_N b) \<and> rb_items b1 = rb_items b @ (if r then [Some p] else [])"
    using rb_Append_room [OF assms(1) _ a] rb_Append_full [of b p] assms(1)
    by (cases "rb_Readable b < rb_N b") (auto simp: rb_Avail_def)
  have "rb_Advance n b \<noteq> None" using assms(2) by (simp add: rb_Advance_def Let_def)
  then obtain b2 where "rb_Advance n b = Some b2" by blast
  then show "\<exists>b2. rb_Advance n b = Some b2 \<and> rb_ok b2 \<and> rb_items b2 = drop (nat n) (rb_items b)"
    using rb_Advance_items [OF assms] by blast
  show "k < rb_Avail b \<longrightarrow> rb_A b ! nat (rb_Kth (int k) b) = rb_items b ! k"
    using rb_Kth_items [of "int k" b] by (simp add: rb_Avail_def)
qed

theorem ring_refines_queue_witness:
  "rb_ok (newRingBuf 2 :: nat ringBuf) \<and> rb_items (snd (rb_Append (3 :: nat) (newRingBuf 2))) = [Some 3]"
proof -
  have "fst (rb_Append (3 :: nat) (newRingBuf 2))" by (simp add: rb_Append_def newRingBuf_def Let_def)
  then show ?thesis
    using ring_refines_queue [of "newRingBuf 2 :: nat ringBuf" 3 1 0] newRingBuf_items [of 2]
    by (simp add: newRingBuf_def rb_items_def rb_ok_def split_beta)
qed

end
