(* ===== verification/Health_Agent.thy ===== *)
theory Health_Agent
  imports Health_Rank Health_Ring
begin

text \<open>
  The health agent (src/health/health.go, config.go): the leader it holds, the replies it
  collects, and the turns of its loop. A panic is \<open>None\<close>. What is published is the value a
  message carries; the JSON encoding is not modelled, nor are log lines and their timing.
\<close>

section \<open>Configuration\<close>

record MembershipCfg =
  MaxClockSkew :: int
  BeatDur :: int
  NatsURL :: bytes
  SysMemberPrefix :: bytes
  LeaseTime :: int
  MyRank :: int
  deaf_flag :: int
  historyCount :: nat

definition deafTrue :: int where "deafTrue = 1"
definition deafFalse :: int where "deafFalse = 0"

definition SetDefaults :: "MembershipCfg \<Rightarrow> MembershipCfg" where
  "SetDefaults cfg =
     (let c1 = (if LeaseTime cfg = 0 then cfg\<lparr>LeaseTime := 12000000000\<rparr> else cfg);
          c2 = (if SysMemberPrefix c1 = [] then c1\<lparr>SysMemberPrefix := ''_nats.cluster.members.''\<rparr> else c1);
          c3 = (if BeatDur c2 = 0 then c2\<lparr>BeatDur := 3000000000\<rparr> else c2);
          c4 = (if MaxClockSkew c3 = 0 then c3\<lparr>MaxClockSkew := 1000000000\<rparr> else c3)
      in if NatsURL c4 = [] then c4\<lparr>NatsURL := ''nats://127.0.0.1:4222''\<rparr> else c4)"

section \<open>The leader an agent holds\<close>

record leadHolder =
  e_sloc :: AgentLoc
  e_myID :: bytes
  e_myRank :: int
  e_myLocHasBeenSet :: bool
  e_history :: "AgentLoc ringBuf"
  e_histsz :: nat

definition newLeadHolder :: "nat \<Rightarrow> leadHolder" where
  "newLeadHolder histsz =
     (let n = (if histsz = 0 then 100 else histsz)
      in \<lparr>e_sloc = no_AgentLoc, e_myID = [], e_myRank = 0, e_myLocHasBeenSet = False, e_history = newRingBuf n, e_histsz = n\<rparr>)"

definition setMyLoc :: "AgentLoc \<Rightarrow> leadHolder \<Rightarrow> leadHolder option" where
  "setMyLoc myLoc e =
     (if e_myLocHasBeenSet e then None
      else Some (e\<lparr>e_myLocHasBeenSet := True, e_myID := a_ID myLoc, e_myRank := a_Rank myLoc\<rparr>))"

definition getLeader :: "leadHolder \<Rightarrow> AgentLoc" where
  "getLeader e = e_sloc e"

definition record_win :: "AgentLoc \<Rightarrow> leadHolder \<Rightarrow> bool \<times> AgentLoc \<times> leadHolder" where
  "record_win sloc e = (True, sloc, e\<lparr>e_sloc := sloc, e_history := snd (rb_Append sloc (e_history e))\<rparr>)"

definition setLeader :: "AgentLoc \<Rightarrow> int \<Rightarrow> leadHolder \<Rightarrow> bool \<times> AgentLoc \<times> leadHolder" where
  "setLeader sloc now e =
     (if a_ID sloc = [] then (False, e_sloc e, e)
      else
        let nowu = UnixNano now;
            cure = UnixNano (a_LeaseExpires (e_sloc e));
            newe = UnixNano (a_LeaseExpires sloc);
            curExpired = cure \<le> nowu;
            newExpired = newe \<le> nowu
        in if curExpired \<and> newExpired then (False, e_sloc e, e)
           else if \<not> curExpired \<and> newExpired then (False, e_sloc e, e)
           else
             let newWon = (if curExpired then True else AgentLocLessThan sloc (e_sloc e));
                 oldWon = (if curExpired then False else AgentLocLessThan (e_sloc e) sloc)
             in if \<not> newWon \<and> \<not> oldWon then
                  (if a_LeaseExpires sloc > a_LeaseExpires (e_sloc e) then record_win sloc e else (False, e_sloc e, e))
                else if newWon then record_win sloc e
                else (False, e_sloc e, e))"

section \<open>Stopping\<close>

text \<open>Channels that are closed at most once (idem.go). \<open>None\<close> is the panic of closing a closed channel.\<close>

record idemCloseChan =
  ic_Chan_closed :: bool
  ic_closed :: bool

definition newIdemCloseChan :: idemCloseChan where
  "newIdemCloseChan = \<lparr>ic_Chan_closed = False, ic_closed = False\<rparr>"

definition idem_Reinit :: "idemCloseChan \<Rightarrow> idemCloseChan" where
  "idem_Reinit c = c\<lparr>ic_Chan_closed := False, ic_closed := False\<rparr>"

text \<open>The first component is the error \<open>errAlreadyClosed\<close>.\<close>

definition idem_Close :: "idemCloseChan \<Rightarrow> (bool \<times> idemCloseChan) option" where
  "idem_Close c =
     (if \<not> ic_closed c then
        (if ic_Chan_closed c then None else Some (False, c\<lparr>ic_Chan_closed := True, ic_closed := True\<rparr>))
      else Some (True, c))"

definition idem_IsClosed :: "idemCloseChan \<Rightarrow> bool" where
  "idem_IsClosed c = ic_closed c"

record halter =
  h_Done :: idemCloseChan
  h_ReqStop :: idemCloseChan

definition newHalter :: halter where
  "newHalter = \<lparr>h_Done = newIdemCloseChan, h_ReqStop = newIdemCloseChan\<rparr>"

definition RequestStop :: "halter \<Rightarrow> halter option" where
  "RequestStop h = map_option (\<lambda>(_, c). h\<lparr>h_ReqStop := c\<rparr>) (idem_Close (h_ReqStop h))"

definition MarkDone :: "halter \<Rightarrow> halter option" where
  "MarkDone h = map_option (\<lambda>(_, c). h\<lparr>h_Done := c\<rparr>) (idem_Close (h_Done h))"

definition IsStopRequested :: "halter \<Rightarrow> bool" where
  "IsStopRequested h = idem_IsClosed (h_ReqStop h)"

definition IsDone :: "halter \<Rightarrow> bool" where
  "IsDone h = idem_IsClosed (h_Done h)"

text \<open>A channel that is closed only through these operations is never closed twice.\<close>

definition idem_ok :: "idemCloseChan \<Rightarrow> bool" where
  "idem_ok c \<longleftrightarrow> ic_Chan_closed c = ic_closed c"

lemma idem_Close_ok: "idem_ok c \<Longrightarrow> \<exists>e c'. idem_Close c = Some (e, c') \<and> idem_ok c' \<and> idem_IsClosed c' \<and> e = idem_IsClosed c"
  by (auto simp: idem_Close_def idem_ok_def idem_IsClosed_def)

section \<open>The agent\<close>

record pongCollector =
  replies :: int
  fromNoTime :: members

record ServerLoc =
  s_ID :: bytes
  s_Host :: bytes
  s_NatsPort :: int
  s_Rank :: int

record Membership =
  m_Cfg :: MembershipCfg
  m_pc :: pongCollector
  m_elec :: leadHolder
  m_myLoc :: AgentLoc
  m_pid :: int
  m_stopping :: bool
  m_halt :: halter
  m_k :: int
  m_prevCount :: nat
  m_prevMember :: members
  m_prevLead :: AgentLoc

definition newPongCollector :: pongCollector where
  "newPongCollector = \<lparr>replies = 0, fromNoTime = newMembers\<rparr>"

definition NewMembership :: "MembershipCfg \<Rightarrow> int \<Rightarrow> Membership" where
  "NewMembership cfg pid =
     \<lparr>m_Cfg = cfg, m_pc = newPongCollector, m_elec = newLeadHolder (historyCount cfg), m_myLoc = no_AgentLoc, m_pid = pid,
      m_stopping = False, m_halt = newHalter, m_k = -1, m_prevCount = 0, m_prevMember = newMembers, m_prevLead = no_AgentLoc\<rparr>"

definition deaf :: "Membership \<Rightarrow> bool" where
  "deaf m \<longleftrightarrow> deaf_flag (m_Cfg m) = deafTrue"

definition setDeaf :: "Membership \<Rightarrow> Membership" where
  "setDeaf m = m\<lparr>m_Cfg := (m_Cfg m)\<lparr>deaf_flag := deafTrue\<rparr>\<rparr>"

definition unDeaf :: "Membership \<Rightarrow> Membership" where
  "unDeaf m = m\<lparr>m_Cfg := (m_Cfg m)\<lparr>deaf_flag := deafFalse\<rparr>\<rparr>"

definition Stop :: "Membership \<Rightarrow> Membership option" where
  "Stop m = (if m_stopping m then Some m else map_option (\<lambda>h. m\<lparr>m_stopping := True, m_halt := h\<rparr>) (RequestStop (m_halt m)))"

definition getMyLocWithAnyLease :: "Membership \<Rightarrow> AgentLoc" where
  "getMyLocWithAnyLease m =
     (let myLoc = m_myLoc m; lead = getLeader (m_elec m)
      in if slocEqualIgnoreLease lead myLoc then myLoc\<lparr>a_LeaseExpires := a_LeaseExpires lead\<rparr> else myLoc)"

definition getMyLocWithZeroLease :: "Membership \<Rightarrow> AgentLoc" where
  "getMyLocWithZeroLease m = (m_myLoc m)\<lparr>a_LeaseExpires := zero_time\<rparr>"

definition locDifferent :: "ServerLoc \<Rightarrow> Membership \<Rightarrow> bool" where
  "locDifferent b m \<longleftrightarrow>
     s_ID b \<noteq> a_ID (m_myLoc m) \<or> s_Rank b \<noteq> a_Rank (m_myLoc m) \<or> s_Host b \<noteq> a_NatsHost (m_myLoc m) \<or>
     s_NatsPort b \<noteq> a_NatsClientPort (m_myLoc m)"

definition setLoc :: "ServerLoc \<Rightarrow> Membership \<Rightarrow> Membership option" where
  "setLoc b m =
     (let loc = (m_myLoc m)\<lparr>a_ID := s_ID b, a_Rank := s_Rank b, a_NatsHost := s_Host b, a_NatsClientPort := s_NatsPort b, a_Pid := m_pid m\<rparr>
      in case setMyLoc loc (m_elec m) of
           None \<Rightarrow> None
         | Some e \<Rightarrow> Some (m\<lparr>m_myLoc := loc, m_elec := e\<rparr>))"

text \<open>The server's answer, with the configured rank filled in; \<open>None\<close> is an error.\<close>

definition getNatsServerLocation :: "ServerLoc option \<Rightarrow> Membership \<Rightarrow> ServerLoc option" where
  "getNatsServerLocation answer m = map_option (\<lambda>loc. loc\<lparr>s_Rank := MyRank (m_Cfg m)\<rparr>) answer"

text \<open>The part of \<open>setupNatsClient\<close> that changes the agent: its own location.\<close>

definition setupNatsClient :: "ServerLoc option \<Rightarrow> Membership \<Rightarrow> (bytes + Membership) option" where
  "setupNatsClient answer m =
     (case getNatsServerLocation answer m of
        None \<Rightarrow> Some (Inl ''error'')
      | Some loc \<Rightarrow> map_option Inr (setLoc loc m))"

section \<open>Replies\<close>

definition pc_insert :: "AgentLoc \<Rightarrow> pongCollector \<Rightarrow> pongCollector" where
  "pc_insert sloc pc = pc\<lparr>fromNoTime := mem_insert (sloc\<lparr>a_LeaseExpires := zero_time\<rparr>) (fromNoTime pc)\<rparr>"

definition receivePong :: "AgentLoc \<Rightarrow> Membership \<Rightarrow> Membership" where
  "receivePong loc m =
     (if deaf m then m
      else m\<lparr>m_pc := pc_insert loc ((m_pc m)\<lparr>replies := replies (m_pc m) + 1\<rparr>)\<rparr>)"

definition pc_clear :: "pongCollector \<Rightarrow> pongCollector" where
  "pc_clear pc = pc\<lparr>fromNoTime := mem_clear (fromNoTime pc)\<rparr>"

definition getSetAndClear :: "Membership \<Rightarrow> nat \<times> members \<times> Membership" where
  "getSetAndClear m =
     (let mem = mem_clone (fromNoTime (m_pc m));
          m1 = m\<lparr>m_pc := pc_insert (getMyLocWithZeroLease m) (pc_clear (m_pc m))\<rparr>
      in (length (DedupTree mem), mem, m1))"

datatype health_msg = MAllCall AgentLoc | MPong AgentLoc | MLost members | MAdded members | MList members

definition allcall :: "Membership \<Rightarrow> health_msg" where
  "allcall m = MAllCall (getLeader (m_elec m))"

text \<open>The handler of an allcall. The leader that the call carries is only traced.\<close>

definition on_allcall :: "ServerLoc option \<Rightarrow> Membership \<Rightarrow> health_msg list option" where
  "on_allcall answer m =
     (if deaf m then Some []
      else case getNatsServerLocation answer m of
        None \<Rightarrow> Some []
      | Some loc \<Rightarrow> if locDifferent loc m then None else Some [MPong (getMyLocWithAnyLease m)])"

section \<open>Elections\<close>

definition leaderLeaseCheck :: "int \<Rightarrow> int \<Rightarrow> AgentLoc \<Rightarrow> int \<Rightarrow> members \<Rightarrow> bool \<times> AgentLoc" where
  "leaderLeaseCheck now leaseLen prevLead maxClockSkew mems =
     (if a_LeaseExpires prevLead + maxClockSkew > now then (False, prevLead)
      else case minrank (DedupTree mems) of
        None \<Rightarrow> (False, prevLead)
      | Some lead \<Rightarrow> (True, lead\<lparr>a_LeaseExpires := now + leaseLen\<rparr>))"

definition membership_changes :: "members \<Rightarrow> members \<Rightarrow> Membership \<Rightarrow> health_msg list" where
  "membership_changes prev cur m =
     (let lost = setDiff prev cur; gained = setDiff cur prev
      in if setsEqual prev cur \<or> deaf m then []
         else (if setEmpty lost then [] else [MLost lost]) @ (if setEmpty gained then [] else [MAdded gained]))"

text \<open>One turn of the loop of \<open>start\<close>, from the end of the heartbeat to the next allcall.\<close>

definition heartbeat :: "int \<Rightarrow> Membership \<Rightarrow> health_msg list \<times> Membership" where
  "heartbeat now m =
     (let lastSeenLead = getLeader (m_elec m);
          (curCount, curMember, m1) = getSetAndClear m;
          (expired, lead) = leaderLeaseCheck now (LeaseTime (m_Cfg m)) lastSeenLead (MaxClockSkew (m_Cfg m)) curMember;
          (curLead, m2) =
            (if expired then
               (let (won, alt, e) = setLeader lead now (m_elec m1)
                in (if won then lead else alt, m1\<lparr>m_elec := e\<rparr>))
             else (lead, m1));
          changes = membership_changes (m_prevMember m2) curMember m2;
          curMember1 = (if expired then curMember\<lparr>LeadID := a_ID curLead\<rparr> else curMember);
          listed = (if expired \<and> \<not> deaf m2 then [MList curMember1] else [])
      in (changes @ listed,
          m2\<lparr>m_k := m_k m2 + 1, m_prevCount := curCount, m_prevMember := curMember1, m_prevLead := curLead\<rparr>))"

datatype agent_event = Beat int | Pong AgentLoc | Deafen | Undeafen | Halt_request

text \<open>
  What can happen to a running agent. The clock of a heartbeat is past 1970, and a lease that
  starts then ends at a date that \<open>UnixNano\<close> can represent.
\<close>

definition in_range :: "int \<Rightarrow> Membership \<Rightarrow> bool" where
  "in_range now m \<longleftrightarrow> 0 \<le> now \<and> now + LeaseTime (m_Cfg m) < 2 ^ 63"

inductive agent_step :: "Membership \<Rightarrow> agent_event \<Rightarrow> Membership \<Rightarrow> bool" where
  Beat_step: "in_range now m \<Longrightarrow> \<not> IsStopRequested (m_halt m) \<Longrightarrow> agent_step m (Beat now) (snd (heartbeat now m))"
| Pong_step: "agent_step m (Pong loc) (receivePong loc m)"
| Deafen_step: "agent_step m Deafen (setDeaf m)"
| Undeafen_step: "agent_step m Undeafen (unDeaf m)"
| Halt_step: "Stop m = Some m' \<Longrightarrow> agent_step m Halt_request m'"

inductive_cases agent_stepE: "agent_step m e m'"

text \<open>An agent that has been configured and has learnt its own location.\<close>

definition agent_init :: "Membership \<Rightarrow> bool" where
  "agent_init m \<longleftrightarrow>
     (\<exists>cfg pid loc. setupNatsClient (Some loc) (NewMembership (SetDefaults cfg) pid) = Some (Inr m) \<and>
        s_ID loc \<noteq> [] \<and> 0 \<le> MaxClockSkew cfg \<and> MaxClockSkew cfg < 2 ^ 63 \<and> 0 \<le> LeaseTime cfg)"

end
