(* ===== verification/Health_Props.thy ===== *)
theory Health_Props
  imports Health_Agent
begin

text \<open>
  Properties of the health agent: the order of candidates, the views of two agents, the terms of
  the leaders one agent accepts, and when it elects.
\<close>

section \<open>Copies of a tree\<close>

lemma rt_clone_takeWhile:
  assumes "rt.ordered t"
  shows "rt_clone t = takeWhile has_id t"
proof -
  have "rt.ordered (takeWhile has_id t @ dropWhile has_id t)" using assms by simp
  then have "rt.ordered (takeWhile has_id t)" unfolding rt.ordered_def map_append sorted_wrt_append by simp
  then show ?thesis using rt.fold_ins_sorted [of "[]" "takeWhile has_id t"] by (simp add: rt_clone_def AscendLessThan_def less_empty)
qed

lemma ordered_takeWhile: "rt.ordered t \<Longrightarrow> rt.ordered (takeWhile P t)"
  using takeWhile_dropWhile_id [of P t] unfolding rt.ordered_def by (metis map_append sorted_wrt_append)

lemma ordered_ids:
  assumes "rt.ordered t" "x \<in> set t" "has_id x"
  shows "t \<noteq> []" "has_id (hd t)"
proof -
  show "t \<noteq> []" using assms(2) by auto
  then obtain y ys where t: "t = y # ys" by (cases t) auto
  have "rank_key x < rank_key no_AgentLoc" using assms(3) less_empty less_key by simp
  moreover have "rank_key y \<le> rank_key x" using assms(1,2) t by (auto simp: rt.ordered_cons dest: less_imp_le)
  ultimately have "AgentLocLessThan y no_AgentLoc" unfolding less_key by (rule le_less_trans [rotated])
  then show "has_id (hd t)" by (simp add: t less_empty)
qed

lemma minrank_clone:
  assumes "rt.ordered t" "x \<in> set t" "has_id x"
  shows "minrank (rt_clone t) = Some (hd t)" "has_id (hd t)"
  using ordered_ids [OF assms] rt_clone_takeWhile [OF assms(1)] by (cases t; simp add: minrank_def)+

section \<open>One election\<close>

definition agent_ok :: "Membership \<Rightarrow> bool" where
  "agent_ok m \<longleftrightarrow>
     0 \<le> MaxClockSkew (m_Cfg m) \<and> MaxClockSkew (m_Cfg m) < 2 ^ 63 \<and> 0 < LeaseTime (m_Cfg m) \<and> a_ID (m_myLoc m) \<noteq> [] \<and>
     rt.ordered (DedupTree (fromNoTime (m_pc m))) \<and>
     (0 \<le> m_k m \<longrightarrow> rank_key (getMyLocWithZeroLease m) \<in> rank_key ` set (DedupTree (fromNoTime (m_pc m))))"

definition lead_ok :: "Membership \<Rightarrow> bool" where
  "lead_ok m \<longleftrightarrow> e_myLocHasBeenSet (m_elec m) \<and> (let t = a_LeaseExpires (e_sloc (m_elec m)) in t = zero_time \<or> 0 \<le> t \<and> t < 2 ^ 63)"

lemma UnixNano_id: "0 \<le> t \<Longrightarrow> t < 2 ^ 63 \<Longrightarrow> UnixNano t = t"
  by (simp add: UnixNano_def in_int64_def)

lemma UnixNano_zero: "UnixNano zero_time < 0"
  by (simp add: UnixNano_def zero_time_def wrap64_def)

lemma setLeader_expired:
  assumes "lead_ok m" "in_range now m" "agent_ok m" "a_ID c \<noteq> []"
    and "a_LeaseExpires (e_sloc (m_elec m)) + MaxClockSkew (m_Cfg m) \<le> now"
  defines "c' \<equiv> c\<lparr>a_LeaseExpires := now + LeaseTime (m_Cfg m)\<rparr>"
  shows "setLeader c' now (m_elec m) = record_win c' (m_elec m)"
proof -
  have n: "UnixNano now = now" "UnixNano (now + LeaseTime (m_Cfg m)) = now + LeaseTime (m_Cfg m)" "0 \<le> now" "0 < LeaseTime (m_Cfg m)"
    using assms(2,3) by (auto simp: in_range_def agent_ok_def intro!: UnixNano_id)
  have "UnixNano (a_LeaseExpires (e_sloc (m_elec m))) \<le> now"
    using assms(1,3,5) n(3) UnixNano_zero UnixNano_id by (fastforce simp: lead_ok_def agent_ok_def Let_def)
  then show ?thesis using n assms(4) by (simp add: setLeader_def Let_def c'_def)
qed

text \<open>What a heartbeat does to the leader.\<close>

definition elects :: "int \<Rightarrow> Membership \<Rightarrow> AgentLoc option" where
  "elects now m =
     (if a_LeaseExpires (e_sloc (m_elec m)) + MaxClockSkew (m_Cfg m) > now then None
      else case minrank (rt_clone (DedupTree (fromNoTime (m_pc m)))) of
        None \<Rightarrow> None
      | Some c \<Rightarrow> Some (c\<lparr>a_LeaseExpires := now + LeaseTime (m_Cfg m)\<rparr>))"

lemma heartbeat_elec:
  "m_elec (snd (heartbeat now m)) =
     (case elects now m of None \<Rightarrow> m_elec m | Some c \<Rightarrow> snd (snd (setLeader c now (m_elec m))))"
  by (simp add: heartbeat_def elects_def getSetAndClear_def leaderLeaseCheck_def getLeader_def mem_clone_def newMembers_def Let_def split_beta
      split: option.split)

lemma heartbeat_fields:
  "m_Cfg (snd (heartbeat now m)) = m_Cfg m" "m_myLoc (snd (heartbeat now m)) = m_myLoc m" "m_k (snd (heartbeat now m)) = m_k m + 1"
  "m_pc (snd (heartbeat now m)) = pc_insert (getMyLocWithZeroLease m) (pc_clear (m_pc m))"
  by (simp_all add: heartbeat_def getSetAndClear_def Let_def split_beta)

section \<open>The invariant\<close>

definition terms :: "Membership \<Rightarrow> AgentLoc list" where
  "terms m = map the (rb_items (e_history (m_elec m)))"

definition term_gap :: "Membership \<Rightarrow> AgentLoc \<Rightarrow> AgentLoc \<Rightarrow> bool" where
  "term_gap m x y \<longleftrightarrow> a_LeaseExpires x + MaxClockSkew (m_Cfg m) + LeaseTime (m_Cfg m) \<le> a_LeaseExpires y"

definition hist_ok :: "Membership \<Rightarrow> bool" where
  "hist_ok m \<longleftrightarrow> rb_ok (e_history (m_elec m)) \<and> sorted_wrt (term_gap m) (terms m) \<and>
     (\<forall>x \<in> set (terms m). a_LeaseExpires x \<le> a_LeaseExpires (e_sloc (m_elec m)))"

definition agent_inv :: "Membership \<Rightarrow> bool" where
  "agent_inv m \<longleftrightarrow> agent_ok m \<and> lead_ok m \<and> hist_ok m"

lemma agent_inv_cong:
  assumes "agent_inv m" "MaxClockSkew (m_Cfg m') = MaxClockSkew (m_Cfg m)" "LeaseTime (m_Cfg m') = LeaseTime (m_Cfg m)"
    "m_myLoc m' = m_myLoc m" "m_elec m' = m_elec m" "m_k m' = m_k m"
    "rt.ordered (DedupTree (fromNoTime (m_pc m')))"
    "rank_key ` set (DedupTree (fromNoTime (m_pc m))) \<subseteq> rank_key ` set (DedupTree (fromNoTime (m_pc m')))"
  shows "agent_inv m'"
proof -
  have "term_gap m' = term_gap m" using assms(2,3) by (simp add: term_gap_def fun_eq_iff)
  then show ?thesis
    using assms by (auto simp: agent_inv_def agent_ok_def lead_ok_def hist_ok_def terms_def getMyLocWithZeroLease_def)
qed

lemma receivePong_inv:
  assumes "agent_inv m"
  shows "agent_inv (receivePong loc m)"
proof -
  let ?t = "DedupTree (fromNoTime (m_pc m))" and ?l = "loc\<lparr>a_LeaseExpires := zero_time\<rparr>"
  have o: "rt.ordered ?t" using assms by (simp add: agent_inv_def agent_ok_def)
  have "rank_key ` set ?t \<subseteq> rank_key ` set (rt_insert ?l ?t)"
    using rt.ins_set [OF o, of ?l] by auto
  then show ?thesis
    using assms rt.ins_ordered [OF o, of ?l]
    by (cases "deaf m") (simp_all add: receivePong_def pc_insert_def mem_insert_def agent_inv_cong [OF assms])
qed

lemma record_win_inv:
  assumes "lead_ok m" "hist_ok m" "agent_ok m" "in_range now m"
    and "a_LeaseExpires (e_sloc (m_elec m)) + MaxClockSkew (m_Cfg m) \<le> now"
    and "m_Cfg m' = m_Cfg m" "m_elec m' = snd (snd (record_win c (m_elec m)))" "a_LeaseExpires c = now + LeaseTime (m_Cfg m)"
  shows "lead_ok m' \<and> hist_ok m'"
proof -
  obtain r h where a: "rb_Append c (e_history (m_elec m)) = (r, h)" by (cases "rb_Append c (e_history (m_elec m))")
  have e: "e_sloc (m_elec m') = c" "e_history (m_elec m') = h" "e_myLocHasBeenSet (m_elec m') = e_myLocHasBeenSet (m_elec m)" using assms(7) a by (simp_all add: record_win_def)
  have g: "term_gap m' = term_gap m" using assms(6) by (simp add: term_gap_def fun_eq_iff)
  have ok: "rb_ok (e_history (m_elec m))" "sorted_wrt (term_gap m) (terms m)"
    "\<forall>x \<in> set (terms m). a_LeaseExpires x \<le> a_LeaseExpires (e_sloc (m_elec m))"
    using assms(2) by (simp_all add: hist_ok_def)
  have s: "0 \<le> MaxClockSkew (m_Cfg m)" "0 < LeaseTime (m_Cfg m)" using assms(3) by (simp_all add: agent_ok_def)
  have c: "\<forall>x \<in> set (terms m). term_gap m x c \<and> a_LeaseExpires x \<le> a_LeaseExpires c"
    using ok(3) assms(5,8) s by (fastforce simp: term_gap_def)
  have "rb_ok h \<and> (terms m' = terms m \<or> terms m' = terms m @ [c])"
  proof (cases "rb_Readable (e_history (m_elec m)) < rb_N (e_history (m_elec m))")
    case True
    then show ?thesis using rb_Append_room [OF ok(1) True a] by (simp add: terms_def e)
  next
    case False
    then show ?thesis using rb_Append_full [of "e_history (m_elec m)" c] a ok(1) by (simp add: terms_def e)
  qed
  then have "hist_ok m'" using ok(2) c by (auto simp: hist_ok_def e g sorted_wrt_append)
  moreover have "lead_ok m'" using assms(1,4,8) s by (simp add: lead_ok_def e in_range_def Let_def)
  ultimately show ?thesis by blast
qed

lemma heartbeat_leader:
  assumes "agent_inv m" "in_range now m"
  shows "lead_ok (snd (heartbeat now m)) \<and> hist_ok (snd (heartbeat now m))"
proof -
  let ?m = "snd (heartbeat now m)"
  have i: "lead_ok m" "hist_ok m" "agent_ok m" using assms(1) by (simp_all add: agent_inv_def)
  have same: "lead_ok ?m \<and> hist_ok ?m" if "m_elec ?m = m_elec m"
    using i that by (simp add: lead_ok_def hist_ok_def terms_def term_gap_def [abs_def] heartbeat_fields)
  show ?thesis
  proof (cases "elects now m")
    case None
    then show ?thesis by (intro same) (simp add: heartbeat_elec)
  next
    case (Some c')
    then obtain c where c: "c' = c\<lparr>a_LeaseExpires := now + LeaseTime (m_Cfg m)\<rparr>"
      and x: "a_LeaseExpires (e_sloc (m_elec m)) + MaxClockSkew (m_Cfg m) \<le> now"
      by (auto simp: elects_def split: if_splits option.splits)
    show ?thesis
    proof (cases "a_ID c = []")
      case True
      then show ?thesis by (intro same) (simp add: heartbeat_elec Some c setLeader_def)
    next
      case False
      then have "m_elec ?m = snd (snd (record_win c' (m_elec m)))"
        using setLeader_expired [OF i(1) assms(2) i(3) False x] by (simp add: heartbeat_elec Some c)
      then show ?thesis using i assms(2) x by (intro record_win_inv [of m now ?m c']) (simp_all add: heartbeat_fields c)
    qed
  qed
qed

lemma heartbeat_inv:
  assumes "agent_inv m" "in_range now m"
  shows "agent_inv (snd (heartbeat now m))"
proof -
  let ?l = "(getMyLocWithZeroLease m)\<lparr>a_LeaseExpires := zero_time\<rparr>"
  have "agent_ok (snd (heartbeat now m))"
    using assms(1) rt.ins_ordered [OF rt.ordered_nil, of ?l]
    by (simp add: agent_inv_def agent_ok_def heartbeat_fields pc_insert_def pc_clear_def mem_insert_def mem_clear_def getMyLocWithZeroLease_def)
  then show ?thesis using heartbeat_leader [OF assms] by (simp add: agent_inv_def)
qed

lemma agent_init_inv:
  assumes "agent_init m"
  shows "agent_inv m"
proof -
  obtain cfg pid loc where s: "setupNatsClient (Some loc) (NewMembership (SetDefaults cfg) pid) = Some (Inr m)"
    and c: "s_ID loc \<noteq> []" "0 \<le> MaxClockSkew cfg" "MaxClockSkew cfg < 2 ^ 63" "0 \<le> LeaseTime cfg"
    using assms by (auto simp: agent_init_def)
  have d: "MaxClockSkew (SetDefaults cfg) = (if MaxClockSkew cfg = 0 then 1000000000 else MaxClockSkew cfg)"
    "LeaseTime (SetDefaults cfg) = (if LeaseTime cfg = 0 then 12000000000 else LeaseTime cfg)"
    by (simp_all add: SetDefaults_def Let_def)
  show ?thesis
    using s c
    by (auto simp: newRingBuf_items setupNatsClient_def getNatsServerLocation_def setLoc_def setMyLoc_def NewMembership_def newLeadHolder_def newPongCollector_def
        newMembers_def agent_inv_def agent_ok_def lead_ok_def hist_ok_def terms_def d rt.ordered_nil Let_def no_AgentLoc_def)
qed

lemma Stop_fields:
  "Stop m = Some m' \<Longrightarrow> m_Cfg m' = m_Cfg m \<and> m_myLoc m' = m_myLoc m \<and> m_elec m' = m_elec m \<and> m_k m' = m_k m \<and> m_pc m' = m_pc m"
  by (auto simp: Stop_def split: if_splits)

interpretation agent: inductive_invariant agent_init agent_step agent_inv
proof
  show "agent_init m \<Longrightarrow> agent_inv m" for m by (rule agent_init_inv)
  show "agent_inv m'" if "agent_inv m" "agent_step m e m'" for m e m'
    using that(2,1)
  proof cases
    case (Beat_step now)
    then show ?thesis using heartbeat_inv that(1) by simp
  next
    case (Pong_step loc)
    then show ?thesis using receivePong_inv that(1) by simp
  next
    case Halt_step
    then show ?thesis using Stop_fields that(1) by (intro agent_inv_cong [OF that(1)]) (auto simp: agent_inv_def agent_ok_def)
  qed (auto simp: setDeaf_def unDeaf_def intro!: agent_inv_cong [OF that(1)], auto simp: agent_inv_def agent_ok_def)
qed

section \<open>Terms, elections and agreement\<close>

text \<open>
  (C6) The terms that one agent accepts do not overlap. In every reachable state of an agent the
  leaders in its history are in the order of their leases, and each lease ends at least the lease
  time and the tolerated clock skew after the one before it.
\<close>
theorem terms_do_not_overlap:
  "reachable agent_init agent_step m \<Longrightarrow>
   sorted_wrt (\<lambda>x y. a_LeaseExpires x + MaxClockSkew (m_Cfg m) + LeaseTime (m_Cfg m) \<le> a_LeaseExpires y) (terms m)"
  using agent.reachable_inv by (fastforce simp: agent_inv_def hist_ok_def term_gap_def [abs_def])

lemma leader_changes:
  assumes "agent_inv m" "agent_step m e m'" "getLeader (m_elec m') \<noteq> getLeader (m_elec m)"
  shows "\<exists>now. e = Beat now \<and> a_LeaseExpires (getLeader (m_elec m)) + MaxClockSkew (m_Cfg m) \<le> now \<and>
    a_LeaseExpires (getLeader (m_elec m')) = now + LeaseTime (m_Cfg m)"
  using assms(2,3)
proof cases
  case (Beat_step now)
  have i: "lead_ok m" "agent_ok m" using assms(1) by (simp_all add: agent_inv_def)
  obtain c' where el: "elects now m = Some c'"
    using assms(3) Beat_step by (cases "elects now m") (simp_all add: heartbeat_elec getLeader_def)
  then obtain c where c: "c' = c\<lparr>a_LeaseExpires := now + LeaseTime (m_Cfg m)\<rparr>"
    and x: "a_LeaseExpires (e_sloc (m_elec m)) + MaxClockSkew (m_Cfg m) \<le> now"
    by (auto simp: elects_def split: if_splits option.splits)
  have "a_ID c \<noteq> []"
    using assms(3) Beat_step el c by (auto simp: heartbeat_elec getLeader_def setLeader_def)
  then have "m_elec m' = snd (snd (record_win c' (m_elec m)))"
    using setLeader_expired [OF i(1) Beat_step(3) i(2) _ x] Beat_step el c by (simp add: heartbeat_elec)
  then show ?thesis using Beat_step x c by (simp add: record_win_def getLeader_def)
qed (simp_all add: receivePong_def setDeaf_def unDeaf_def Stop_fields split: if_splits)

text \<open>
  (C20) A lease is honoured. The leader an agent holds changes in no other way than at a heartbeat
  whose clock is past the end of the old lease by the tolerated skew, and the new lease starts at
  that heartbeat.
\<close>
theorem lease_honoured:
  assumes "reachable agent_init agent_step m" "agent_step m e m'" "getLeader (m_elec m') \<noteq> getLeader (m_elec m)"
  shows "\<exists>now. e = Beat now \<and> a_LeaseExpires (getLeader (m_elec m)) + MaxClockSkew (m_Cfg m) \<le> now \<and>
    a_LeaseExpires (getLeader (m_elec m')) = now + LeaseTime (m_Cfg m)"
  using leader_changes [OF agent.reachable_inv [OF assms(1)] assms(2,3)] .

lemma elects_candidate:
  assumes "agent_inv m" "in_range now m" "x \<in> set (DedupTree (fromNoTime (m_pc m)))" "has_id x"
    and "a_LeaseExpires (getLeader (m_elec m)) + MaxClockSkew (m_Cfg m) \<le> now"
  shows "getLeader (m_elec (snd (heartbeat now m))) =
    (hd (DedupTree (fromNoTime (m_pc m))))\<lparr>a_LeaseExpires := now + LeaseTime (m_Cfg m)\<rparr>"
proof -
  let ?t = "DedupTree (fromNoTime (m_pc m))"
  have i: "lead_ok m" "agent_ok m" "rt.ordered ?t" using assms(1) by (simp_all add: agent_inv_def agent_ok_def)
  note c = minrank_clone [OF i(3) assms(3,4)]
  have x: "a_LeaseExpires (e_sloc (m_elec m)) + MaxClockSkew (m_Cfg m) \<le> now" using assms(5) by (simp add: getLeader_def)
  have "elects now m = Some ((hd ?t)\<lparr>a_LeaseExpires := now + LeaseTime (m_Cfg m)\<rparr>)"
    using c(1) x by (simp add: elects_def)
  then show ?thesis
    using setLeader_expired [OF i(1) assms(2) i(2) _ x] c(2) by (simp add: heartbeat_elec has_id_def record_win_def getLeader_def)
qed

lemma lease_after_beat:
  assumes "agent_inv m" "0 \<le> m_k m" "in_range now m"
  shows "now < a_LeaseExpires (getLeader (m_elec (snd (heartbeat now m)))) + MaxClockSkew (m_Cfg m)"
proof (cases "a_LeaseExpires (getLeader (m_elec m)) + MaxClockSkew (m_Cfg m) \<le> now")
  case True
  have a: "agent_ok m" using assms(1) by (simp add: agent_inv_def)
  then obtain x where x: "x \<in> set (DedupTree (fromNoTime (m_pc m)))" "rank_key x = rank_key (getMyLocWithZeroLease m)"
    using assms(2) by (auto simp: agent_ok_def)
  have "has_id (getMyLocWithZeroLease m)" using a by (simp add: has_id_def getMyLocWithZeroLease_def agent_ok_def)
  then have "has_id x" using x(2) by (metis less_empty less_key)
  from elects_candidate [OF assms(1,3) x(1) this True] show ?thesis using a by (simp add: agent_ok_def)
next
  case False
  then have "elects now m = None" by (simp add: elects_def getLeader_def)
  then show ?thesis using False by (simp add: heartbeat_elec)
qed


section \<open>Two agents\<close>

definition zeroed :: "AgentLoc \<Rightarrow> AgentLoc" where
  "zeroed l = l\<lparr>a_LeaseExpires := zero_time\<rparr>"

lemma receive_all_fields:
  assumes "\<not> deaf m"
  shows "DedupTree (fromNoTime (m_pc (fold receivePong js m))) = fold rt_insert (map zeroed js) (DedupTree (fromNoTime (m_pc m)))"
    "m_elec (fold receivePong js m) = m_elec m" "m_Cfg (fold receivePong js m) = m_Cfg m"
  using assms
  by (induction js arbitrary: m) (simp_all add: receivePong_def deaf_def pc_insert_def mem_insert_def zeroed_def)

lemma receive_all_inv: "agent_inv m \<Longrightarrow> agent_inv (fold receivePong js m)"
  by (induction js arbitrary: m) (simp_all add: receivePong_inv)

lemma receive_all_set:
  assumes "agent_inv m" "\<not> deaf m" "inj_on rank_key (zeroed ` set js \<union> set (DedupTree (fromNoTime (m_pc m))))"
  shows "set (DedupTree (fromNoTime (m_pc (fold receivePong js m)))) = zeroed ` set js \<union> set (DedupTree (fromNoTime (m_pc m)))"
  using assms rt.fold_ins_set [of "DedupTree (fromNoTime (m_pc m))" "map zeroed js"]
  by (simp add: receive_all_fields agent_inv_def agent_ok_def inj_on_def)

definition peers_seen :: "AgentLoc list \<Rightarrow> Membership \<Rightarrow> AgentLoc set" where
  "peers_seen js m = zeroed ` set js \<union> set (DedupTree (fromNoTime (m_pc m)))"

lemma same_view_same_leader:
  assumes "agent_inv m" "agent_inv m'" "\<not> deaf m" "\<not> deaf m'"
    and "peers_seen js m = peers_seen js' m'" "inj_on rank_key (peers_seen js m)" "x \<in> peers_seen js m" "has_id x"
    and "in_range now m" "LeaseTime (m_Cfg m') = LeaseTime (m_Cfg m)"
    and "a_LeaseExpires (getLeader (m_elec m)) + MaxClockSkew (m_Cfg m) \<le> now"
    and "a_LeaseExpires (getLeader (m_elec m')) + MaxClockSkew (m_Cfg m') \<le> now"
  shows "getLeader (m_elec (snd (heartbeat now (fold receivePong js m)))) = getLeader (m_elec (snd (heartbeat now (fold receivePong js' m'))))"
proof -
  let ?m = "fold receivePong js m" and ?m' = "fold receivePong js' m'"
  let ?t = "DedupTree (fromNoTime (m_pc ?m))" and ?t' = "DedupTree (fromNoTime (m_pc ?m'))"
  have i: "agent_inv ?m" "agent_inv ?m'" using assms(1,2) receive_all_inv by blast+
  have s: "set ?t = peers_seen js m" "set ?t' = peers_seen js m"
    using receive_all_set [OF assms(1,3), of js] receive_all_set [OF assms(2,4), of js'] assms(5,6) by (simp_all add: peers_seen_def)
  have "?t = ?t'" using i s by (intro rt.ordered_unique) (simp_all add: agent_inv_def agent_ok_def)
  moreover have "getLeader (m_elec (snd (heartbeat now ?m))) = (hd ?t)\<lparr>a_LeaseExpires := now + LeaseTime (m_Cfg ?m)\<rparr>"
    using i(1) assms(3,7-9,11) s by (intro elects_candidate [of _ _ x]) (simp_all add: receive_all_fields in_range_def)
  moreover have "getLeader (m_elec (snd (heartbeat now ?m'))) = (hd ?t')\<lparr>a_LeaseExpires := now + LeaseTime (m_Cfg ?m')\<rparr>"
    using i(2) assms(4,7-10,12) s by (intro elects_candidate [of _ _ x]) (simp_all add: receive_all_fields in_range_def)
  ultimately show ?thesis using assms(3,4,10) by (simp add: receive_all_fields)
qed


text \<open>
  A reconnect crashes the agent: when the connection to the server is lost the loop sets the
  client up again, which sets the agent's own location a second time, and that panics.
\<close>
theorem reconnect_panics:
  "reachable agent_init agent_step m \<Longrightarrow> setupNatsClient (Some loc) m = None"
  using agent.reachable_inv [of m]
  by (simp add: setupNatsClient_def getNatsServerLocation_def setLoc_def setMyLoc_def agent_inv_def lead_ok_def Let_def)

text \<open>
  The difference of two membership sets is exact: it holds the agents of the first set that
  no agent of the second equals in the order, once each.
\<close>
theorem setDiff_exact:
  assumes "rt.ordered (DedupTree a)" "rt.ordered (DedupTree b)" "list_all has_id (DedupTree a)" "list_all has_id (DedupTree b)"
  shows "set (DedupTree (setDiff a b)) = {x \<in> set (DedupTree a). \<not> list_ex (alocEqual x) (DedupTree b)} \<and>
    distinct (DedupTree (setDiff a b))"
proof -
  have d: "DedupTree (setDiff a b) = fold deleteSloc (DedupTree b) (DedupTree a)"
    using assms by (simp add: setDiff_def Ascend_all rt_clone_id)
  have "distinct (map rank_key (fold deleteSloc (DedupTree b) (DedupTree a)))"
    using rt.fold_del_ordered [OF assms(1)] by (simp add: rt.ordered_def strict_sorted_iff)
  then show ?thesis
    using rt.fold_del_set [OF assms(1), of "DedupTree b"] by (auto simp: d list_ex_iff alocEqual_key distinct_map)
qed

section \<open>Concrete agents\<close>

definition demo_cfg :: MembershipCfg where
  "demo_cfg = \<lparr>MaxClockSkew = 0, BeatDur = 0, NatsURL = [], SysMemberPrefix = [], LeaseTime = 0, MyRank = 3, deaf_flag = 0, historyCount = 2\<rparr>"

definition demo_server :: "bytes \<Rightarrow> ServerLoc" where
  "demo_server i = \<lparr>s_ID = i, s_Host = ''h'', s_NatsPort = 4222, s_Rank = 0\<rparr>"

definition demo_loc :: "bytes \<Rightarrow> AgentLoc" where
  "demo_loc i = no_AgentLoc\<lparr>a_ID := i, a_NatsHost := ''h'', a_NatsClientPort := 4222, a_Rank := 3, a_Pid := 7\<rparr>"

definition demo_agent :: "bytes \<Rightarrow> Membership" where
  "demo_agent i =
     (let m = NewMembership (SetDefaults demo_cfg) 7
      in m\<lparr>m_myLoc := demo_loc i, m_elec := (m_elec m)\<lparr>e_myLocHasBeenSet := True, e_myID := i, e_myRank := 3\<rparr>\<rparr>)"

definition beaten :: "bytes \<Rightarrow> Membership" where
  "beaten i = snd (heartbeat 5 (demo_agent i))"

lemma demo_cfg_times: "LeaseTime (m_Cfg (demo_agent i)) = 12000000000" "MaxClockSkew (m_Cfg (demo_agent i)) = 1000000000"
  by (simp_all add: demo_agent_def NewMembership_def SetDefaults_def demo_cfg_def Let_def)

lemma demo_init:
  assumes "i \<noteq> []"
  shows "agent_init (demo_agent i)"
proof -
  have "setupNatsClient (Some (demo_server i)) (NewMembership (SetDefaults demo_cfg) 7) = Some (Inr (demo_agent i))"
    by (simp add: setupNatsClient_def getNatsServerLocation_def setLoc_def setMyLoc_def demo_server_def demo_agent_def demo_loc_def
        NewMembership_def newLeadHolder_def demo_cfg_def SetDefaults_def Let_def no_AgentLoc_def)
  then show ?thesis unfolding agent_init_def
    by (intro exI [of _ demo_cfg] exI [of _ 7] exI [of _ "demo_server i"]) (simp add: assms demo_cfg_def demo_server_def)
qed

lemma demo_reachable: "i \<noteq> [] \<Longrightarrow> reachable agent_init agent_step (demo_agent i)"
  by (rule reach_init) (rule demo_init)

lemma beaten_step: "agent_step (demo_agent i) (Beat 5) (beaten i)"
  unfolding beaten_def by (rule Beat_step) (simp_all add: in_range_def demo_cfg_times,
    simp add: demo_agent_def NewMembership_def newHalter_def newIdemCloseChan_def IsStopRequested_def idem_IsClosed_def Let_def)

lemma beaten_reachable: "i \<noteq> [] \<Longrightarrow> reachable agent_init agent_step (beaten i)"
  using reach_step [OF demo_reachable beaten_step] .

lemma beaten_fields:
  "LeaseTime (m_Cfg (beaten i)) = 12000000000" "MaxClockSkew (m_Cfg (beaten i)) = 1000000000" "m_k (beaten i) = 0"
  "m_elec (beaten i) = m_elec (demo_agent i)" "\<not> deaf (beaten i)" "\<not> IsStopRequested (m_halt (beaten i))"
  "DedupTree (fromNoTime (m_pc (beaten i))) = [demo_loc i]"
proof -
  show "LeaseTime (m_Cfg (beaten i)) = 12000000000" "MaxClockSkew (m_Cfg (beaten i)) = 1000000000"
    by (simp_all add: beaten_def heartbeat_fields demo_cfg_times)
  show "m_k (beaten i) = 0" by (simp add: beaten_def heartbeat_fields demo_agent_def NewMembership_def Let_def)
  have "elects 5 (demo_agent i) = None"
    by (simp add: elects_def demo_agent_def NewMembership_def newPongCollector_def newMembers_def rt_clone_def AscendLessThan_def minrank_def Let_def)
  then show "m_elec (beaten i) = m_elec (demo_agent i)" by (simp add: beaten_def heartbeat_elec)
  show "\<not> deaf (beaten i)" by (simp add: deaf_def beaten_def heartbeat_fields demo_agent_def NewMembership_def SetDefaults_def demo_cfg_def deafTrue_def Let_def)
  show "\<not> IsStopRequested (m_halt (beaten i))"
    by (simp add: beaten_def heartbeat_def getSetAndClear_def demo_agent_def NewMembership_def newHalter_def newIdemCloseChan_def IsStopRequested_def idem_IsClosed_def Let_def split_beta)
  show "DedupTree (fromNoTime (m_pc (beaten i))) = [demo_loc i]"
    by (simp add: beaten_def heartbeat_fields pc_insert_def pc_clear_def mem_insert_def mem_clear_def getMyLocWithZeroLease_def demo_agent_def
        demo_loc_def no_AgentLoc_def Let_def)
qed

lemma demo_no_leader: "a_LeaseExpires (getLeader (m_elec (demo_agent i))) = zero_time"
  by (simp add: demo_agent_def NewMembership_def newLeadHolder_def getLeader_def no_AgentLoc_def Let_def)

theorem terms_do_not_overlap_witness:
  "reachable agent_init agent_step (beaten ''A'') \<and>
   sorted_wrt (\<lambda>x y. a_LeaseExpires x + MaxClockSkew (m_Cfg (beaten ''A'')) + LeaseTime (m_Cfg (beaten ''A'')) \<le> a_LeaseExpires y) (terms (beaten ''A''))"
  using beaten_reachable [of "''A''"] terms_do_not_overlap by simp


theorem lease_honoured_witness:
  "a_LeaseExpires (getLeader (m_elec (beaten ''A''))) + MaxClockSkew (m_Cfg (beaten ''A'')) \<le> 7 \<and>
   a_LeaseExpires (getLeader (m_elec (snd (heartbeat 7 (beaten ''A''))))) = 7 + LeaseTime (m_Cfg (beaten ''A''))"
proof -
  have s: "agent_step (beaten ''A'') (Beat 7) (snd (heartbeat 7 (beaten ''A'')))"
    by (rule Beat_step) (simp_all add: in_range_def beaten_fields)
  have "7 < a_LeaseExpires (getLeader (m_elec (snd (heartbeat 7 (beaten ''A''))))) + MaxClockSkew (m_Cfg (beaten ''A''))"
    by (rule lease_after_beat [OF agent.reachable_inv [OF beaten_reachable]]) (simp_all add: beaten_fields in_range_def)
  then have "getLeader (m_elec (snd (heartbeat 7 (beaten ''A'')))) \<noteq> getLeader (m_elec (beaten ''A''))"
    using demo_no_leader [of "''A''"] by (auto simp: beaten_fields zero_time_def)
  from lease_honoured [OF beaten_reachable s this] show ?thesis by auto
qed


theorem reconnect_panics_witness: "setupNatsClient (Some (demo_server ''A'')) (demo_agent ''A'') = None"
  by (rule reconnect_panics [OF demo_reachable]) simp

theorem setDiff_exact_witness:
  "set (DedupTree (setDiff \<lparr>DedupTree = [demo_loc ''A'', demo_loc ''B''], LeadID = []\<rparr> \<lparr>DedupTree = [demo_loc ''B''], LeadID = []\<rparr>)) = {demo_loc ''A''}"
proof -
  have k: "rank_key (demo_loc ''A'') < rank_key (demo_loc ''B'')" by (simp add: rank_key_def demo_loc_def)
  have e: "alocEqual (demo_loc ''A'') (demo_loc ''B'') = False" "alocEqual (demo_loc ''B'') (demo_loc ''B'')"
    using k by (simp_all add: alocEqual_key)
  have "set (DedupTree (setDiff \<lparr>DedupTree = [demo_loc ''A'', demo_loc ''B''], LeadID = []\<rparr> \<lparr>DedupTree = [demo_loc ''B''], LeadID = []\<rparr>)) =
    {x \<in> {demo_loc ''A'', demo_loc ''B''}. \<not> alocEqual x (demo_loc ''B'')}"
    using k setDiff_exact [of "\<lparr>DedupTree = [demo_loc ''A'', demo_loc ''B''], LeadID = []\<rparr>" "\<lparr>DedupTree = [demo_loc ''B''], LeadID = []\<rparr>"]
    by (simp add: rt.ordered_def has_id_def) (simp add: demo_loc_def)
  then show ?thesis using e by auto
qed

end
