(* ===== verification/Swp_Tcp.thy ===== *)
theory Swp_Tcp
  imports Prelude
begin

text \<open>
  The connection states of the sliding window protocol (src/swp/tcp.go), the packets the two
  ends exchange (swp.go) and the shared flow-control record (flow.go). Times and durations are
  nanoseconds. A packet's channel and byte account, which never leave the sending process, are
  not part of the record.
\<close>

section \<open>States, events and actions\<close>

datatype (plugins only: code) TcpState = Fresh | Closed | Listen | SynReceived | SynSent | Established
  | CloseInitiatorHasSentFin | CloseResponderGotFin

datatype (plugins only: code) TcpEvent = EventNil | EventStartListen | EventStartConnect | EventSyn | EventSynAck | EventEstabAck
  | EventStartClose | EventApplicationClosed | EventFin | EventFinAck | EventDataAck | EventData | EventKeepAlive

datatype (plugins only: code) TcpAction = NoAction | SendSyn | SendSynAck | SendEstabAck | SendFin | SendFinAck | DoAppClose | SendDataAck

definition UpdateTcp :: "TcpState \<Rightarrow> TcpEvent \<Rightarrow> TcpState \<Rightarrow> TcpState \<times> TcpAction" where
  "UpdateTcp s e fromState =
     (case s of
        Closed \<Rightarrow> (s, SendFinAck)
      | Fresh \<Rightarrow>
          (case e of EventStartListen \<Rightarrow> (Listen, NoAction) | EventStartConnect \<Rightarrow> (SynSent, SendSyn) | _ \<Rightarrow> (s, NoAction))
      | Listen \<Rightarrow>
          (case e of EventSyn \<Rightarrow> (SynReceived, SendSynAck) | EventFin \<Rightarrow> (CloseResponderGotFin, DoAppClose) | _ \<Rightarrow> (s, NoAction))
      | SynReceived \<Rightarrow>
          (case e of EventEstabAck \<Rightarrow> (Established, NoAction)
           | EventKeepAlive \<Rightarrow> (if fromState = Established then Established else s, NoAction)
           | EventFin \<Rightarrow> (CloseResponderGotFin, DoAppClose)
           | _ \<Rightarrow> (s, NoAction))
      | SynSent \<Rightarrow>
          (case e of EventSynAck \<Rightarrow> (Established, SendEstabAck)
           | EventSyn \<Rightarrow> (SynReceived, SendEstabAck)
           | EventFin \<Rightarrow> (CloseResponderGotFin, DoAppClose)
           | _ \<Rightarrow> (s, NoAction))
      | Established \<Rightarrow>
          (case e of EventKeepAlive \<Rightarrow> (s, SendDataAck)
           | EventStartClose \<Rightarrow> (CloseInitiatorHasSentFin, SendFin)
           | EventFin \<Rightarrow> (CloseResponderGotFin, DoAppClose)
           | _ \<Rightarrow> (s, NoAction))
      | CloseInitiatorHasSentFin \<Rightarrow>
          (case e of EventFinAck \<Rightarrow> (Closed, NoAction) | EventFin \<Rightarrow> (Closed, NoAction) | _ \<Rightarrow> (s, NoAction))
      | CloseResponderGotFin \<Rightarrow>
          (case e of EventApplicationClosed \<Rightarrow> (Closed, NoAction) | _ \<Rightarrow> (s, NoAction)))"

text \<open>The numbering that the receiver compares with: at least \<open>Established\<close>.\<close>

definition at_least_Established :: "TcpState \<Rightarrow> bool" where
  "at_least_Established s \<longleftrightarrow> s \<in> {Established, CloseInitiatorHasSentFin, CloseResponderGotFin}"

definition isRetryState :: "TcpState \<Rightarrow> bool" where
  "isRetryState s \<longleftrightarrow> s \<in> {SynSent, SynReceived, CloseInitiatorHasSentFin}"

section \<open>Packets\<close>

record Packet =
  pk_From :: bytes
  pk_Dest :: bytes
  pk_FromSessNonce :: bytes
  pk_DestSessNonce :: bytes
  pk_ArrivedAtDestTm :: int
  pk_DataSendTm :: int
  pk_SeqNum :: int
  pk_SeqRetry :: int
  pk_AckNum :: int
  pk_AckRetry :: int
  pk_AckReplyTm :: int
  pk_TcpEvent :: TcpEvent
  pk_FromTcpState :: TcpState
  pk_AvailReaderBytesCap :: int
  pk_AvailReaderMsgCap :: int
  pk_FromRttEstNsec :: int
  pk_FromRttSdNsec :: int
  pk_FromRttN :: int
  pk_CumulBytesTransmitted :: int
  pk_Data :: bytes
  pk_DataOffset :: nat
  pk_Blake2bChecksum :: bytes

definition no_Packet :: Packet where
  "no_Packet = \<lparr>pk_From = [], pk_Dest = [], pk_FromSessNonce = [], pk_DestSessNonce = [], pk_ArrivedAtDestTm = 0, pk_DataSendTm = 0,
     pk_SeqNum = 0, pk_SeqRetry = 0, pk_AckNum = 0, pk_AckRetry = 0, pk_AckReplyTm = 0, pk_TcpEvent = EventNil, pk_FromTcpState = Fresh,
     pk_AvailReaderBytesCap = 0, pk_AvailReaderMsgCap = 0, pk_FromRttEstNsec = 0, pk_FromRttSdNsec = 0, pk_FromRttN = 0,
     pk_CumulBytesTransmitted = 0, pk_Data = [], pk_DataOffset = 0, pk_Blake2bChecksum = []\<rparr>"

definition CopyPacketSansData :: "Packet \<Rightarrow> Packet" where
  "CopyPacketSansData p = p\<lparr>pk_Data := []\<rparr>"

definition InWindow :: "int \<Rightarrow> int \<Rightarrow> int \<Rightarrow> bool" where
  "InWindow seqno lo hi = (if seqno < lo then False else if seqno > hi then False else True)"

section \<open>Flow control\<close>

record Flow =
  ReservedByteCap :: int
  ReservedMsgCap :: int
  AvailReaderBytesCap :: int
  AvailReaderMsgCap :: int
  RemoteRttEstNsec :: int
  RemoteRttSdNsec :: int
  RemoteRttN :: int

definition UpdateFlow :: "int \<Rightarrow> int \<Rightarrow> Packet option \<Rightarrow> Flow \<Rightarrow> Flow" where
  "UpdateFlow availReaderMsgCap availReaderBytesCap pack f =
     (let f1 = (if availReaderMsgCap \<ge> 0 then f\<lparr>AvailReaderMsgCap := availReaderMsgCap\<rparr> else f);
          f2 = (if availReaderBytesCap \<ge> 0 then f1\<lparr>AvailReaderBytesCap := availReaderBytesCap\<rparr> else f1)
      in case pack of
           None \<Rightarrow> f2
         | Some p \<Rightarrow>
             if pk_FromRttN p > RemoteRttN f2
             then f2\<lparr>RemoteRttEstNsec := pk_FromRttEstNsec p, RemoteRttSdNsec := pk_FromRttSdNsec p, RemoteRttN := pk_FromRttN p\<rparr>
             else f2)"

end
