(* ===== verification/Swp_Window.thy ===== *)
theory Swp_Window
  imports Swp_Tcp
begin

text \<open>
  The sender (src/swp/sender.go), with its retry trees (retree.go), and the receiver
  (src/swp/recv.go, retry.go) of one end of a session. Every case of the two select loops is an
  operation on the pair; the packets an operation hands to the network are part of its result,
  and \<open>None\<close> is a panic. The receiver hands a received packet to the sender over an unbuffered
  channel; the two halves of that exchange happen as one step here.

  A packet that is retried is stamped anew; the entry of \<open>s_SendHistory\<close>, which no operation
  reads, keeps the packet as it was sent first. A time that was never set is 0.

  The round-trip estimator works with floating-point numbers and the checksum is a vendored
  package: the record \<open>swp_env\<close> has them as functions.
\<close>

record rtt =
  rtt_N :: int
  rtt_Est :: int
  rtt_Sd :: int

record swp_env =
  se_Blake2b :: "bytes \<Rightarrow> bytes"
  se_AddSample :: "int \<Rightarrow> rtt \<Rightarrow> rtt"
  se_DeadlineDur :: "rtt \<Rightarrow> Flow \<Rightarrow> int"

record TxqSlot =
  tx_OrigSendTime :: int
  tx_RetryDeadline :: int
  tx_RetryDur :: int
  tx_Pack :: Packet

record SenderState =
  s_Inbox :: bytes
  s_Dest :: bytes
  s_LastAckRec :: int
  s_LastFrameSent :: int
  s_Txq :: "TxqSlot list"
  s_SenderWindowSize :: int
  s_SendHistory :: "Packet list"
  s_SendAck :: "Packet list"
  s_DiscardCount :: int
  s_LastSendTime :: int
  s_LastHeardFromDownstream :: int
  s_KeepAliveInterval :: int
  s_NumFailedKeepAlivesBeforeClosing :: int
  s_ByDeadline :: "nat list"
  s_BySeqNum :: "nat list"
  s_LastSeenAvailReaderBytesCap :: int
  s_LastSeenAvailReaderMsgCap :: int
  s_Flow :: Flow
  s_TotalBytesSent :: int
  s_rtt :: rtt
  s_recvLastFrameClientConsumed :: int
  s_LocalSessNonce :: bytes
  s_RemoteSessNonce :: bytes
  s_stopped :: bool

section \<open>Retry trees\<close>

text \<open>
  A tree holds pointers to slots of the transmit queue, here the positions of the slots, in the
  order of the keys the slots had when they were inserted. An item equal to one of the tree is
  not inserted. The vendored red-black tree searches by comparing; the sequence gives the same
  answers as long as no slot is rewritten while a tree holds it.
\<close>

definition slot_at :: "SenderState \<Rightarrow> nat \<Rightarrow> TxqSlot" where
  "slot_at s i = s_Txq s ! i"

definition compareSeqNum :: "TxqSlot \<Rightarrow> TxqSlot \<Rightarrow> int" where
  "compareSeqNum a b = pk_SeqNum (tx_Pack a) - pk_SeqNum (tx_Pack b)"

definition compareRetryDeadline :: "TxqSlot \<Rightarrow> TxqSlot \<Rightarrow> int" where
  "compareRetryDeadline a b =
     (let at = wrap64 (tx_RetryDeadline a); bt = wrap64 (tx_RetryDeadline b)
      in if at \<noteq> bt then wrap64 (at - bt) else pk_SeqNum (tx_Pack a) - pk_SeqNum (tx_Pack b))"

fun tree_insert :: "(nat \<Rightarrow> nat \<Rightarrow> int) \<Rightarrow> nat \<Rightarrow> nat list \<Rightarrow> nat list" where
  "tree_insert cmp i [] = [i]"
| "tree_insert cmp i (j # js) =
     (if cmp i j < 0 then i # j # js else if cmp i j = 0 then j # js else j # tree_insert cmp i js)"

fun tree_delete :: "(nat \<Rightarrow> nat \<Rightarrow> int) \<Rightarrow> nat \<Rightarrow> nat list \<Rightarrow> nat list" where
  "tree_delete cmp i [] = []"
| "tree_delete cmp i (j # js) =
     (if cmp i j < 0 then j # js else if cmp i j = 0 then js else j # tree_delete cmp i js)"

definition by_seq :: "SenderState \<Rightarrow> nat \<Rightarrow> nat \<Rightarrow> int" where
  "by_seq s i j = compareSeqNum (slot_at s i) (slot_at s j)"

definition by_deadline :: "SenderState \<Rightarrow> nat \<Rightarrow> nat \<Rightarrow> int" where
  "by_deadline s i j = compareRetryDeadline (slot_at s i) (slot_at s j)"

definition insert_slot :: "nat \<Rightarrow> SenderState \<Rightarrow> SenderState" where
  "insert_slot i s =
     s\<lparr>s_ByDeadline := tree_insert (by_deadline s) i (s_ByDeadline s),
       s_BySeqNum := tree_insert (by_seq s) i (s_BySeqNum s)\<rparr>"

text \<open>The slots at the front whose deadline has passed leave both trees; they are returned in order.\<close>

fun expired_slots :: "SenderState \<Rightarrow> int \<Rightarrow> nat list \<Rightarrow> nat list" where
  "expired_slots s x [] = []"
| "expired_slots s x (i # is) = (if tx_RetryDeadline (slot_at s i) \<le> x then i # expired_slots s x is else [])"

definition deleteThroughDeadline :: "int \<Rightarrow> SenderState \<Rightarrow> nat list \<times> SenderState" where
  "deleteThroughDeadline x s =
     (let gone = expired_slots s x (s_ByDeadline s)
      in (gone, s\<lparr>s_ByDeadline := drop (length gone) (s_ByDeadline s),
                  s_BySeqNum := fold (tree_delete (by_seq s)) gone (s_BySeqNum s)\<rparr>))"

fun acked_slots :: "SenderState \<Rightarrow> int \<Rightarrow> nat list \<Rightarrow> nat list" where
  "acked_slots s n [] = []"
| "acked_slots s n (i # is) = (if pk_SeqNum (tx_Pack (slot_at s i)) \<le> n then i # acked_slots s n is else [])"

definition deleteThroughSeqNum :: "int \<Rightarrow> SenderState \<Rightarrow> SenderState" where
  "deleteThroughSeqNum n s =
     (let gone = acked_slots s n (s_BySeqNum s)
      in s\<lparr>s_BySeqNum := drop (length gone) (s_BySeqNum s),
           s_ByDeadline := fold (tree_delete (by_deadline s)) gone (s_ByDeadline s)\<rparr>)"

section \<open>The sender\<close>

definition ComputeInflight :: "SenderState \<Rightarrow> int \<times> int" where
  "ComputeInflight s =
     (sum_list (map (\<lambda>i. int (length (pk_Data (tx_Pack (slot_at s i))))) (s_ByDeadline s)), int (length (s_ByDeadline s)))"

definition acceptSend :: "SenderState \<Rightarrow> bool" where
  "acceptSend s =
     (let (bytesInflight, msgInflight) = ComputeInflight s
      in s_LastSeenAvailReaderMsgCap s - msgInflight > 0 \<and> s_LastSeenAvailReaderBytesCap s - bytesInflight > 0)"

definition stamp :: "int \<Rightarrow> SenderState \<Rightarrow> Packet \<Rightarrow> Packet" where
  "stamp now s p =
     p\<lparr>pk_AvailReaderBytesCap := AvailReaderBytesCap (s_Flow s), pk_AvailReaderMsgCap := AvailReaderMsgCap (s_Flow s), pk_DataSendTm := now,
       pk_FromRttEstNsec := rtt_Est (s_rtt s), pk_FromRttSdNsec := rtt_Sd (s_rtt s), pk_FromRttN := rtt_N (s_rtt s),
       pk_FromSessNonce := s_LocalSessNonce s, pk_DestSessNonce := s_RemoteSessNonce s\<rparr>"

definition doOrigDataSend :: "swp_env \<Rightarrow> int \<Rightarrow> Packet \<Rightarrow> SenderState \<Rightarrow> Packet list \<times> SenderState" where
  "doOrigDataSend E now pack s =
     (let lfs = s_LastFrameSent s + 1;
          total = s_TotalBytesSent s + int (length (pk_Data pack));
          pos = nat (lfs mod s_SenderWindowSize s);
          p1 = pack\<lparr>pk_CumulBytesTransmitted := total,
                    pk_Blake2bChecksum := (if length (pk_Data pack) > 0 then se_Blake2b E (pk_Data pack) else pk_Blake2bChecksum pack),
                    pk_SeqNum := lfs, pk_From := s_Inbox s\<rparr>;
          dur = se_DeadlineDur E (s_rtt s) (s_Flow s);
          p2 = stamp now s p1;
          slot = \<lparr>tx_OrigSendTime = now, tx_RetryDeadline = now + dur, tx_RetryDur = dur, tx_Pack = p2\<rparr>;
          s1 = s\<lparr>s_LastFrameSent := lfs, s_TotalBytesSent := total, s_Txq := (s_Txq s)[pos := slot],
                 s_SendHistory := s_SendHistory s @ [p2], s_LastSendTime := now\<rparr>
      in ([p2], insert_slot pos s1))"

definition retry_slot :: "swp_env \<Rightarrow> int \<Rightarrow> nat \<Rightarrow> Packet list \<times> SenderState \<Rightarrow> Packet list \<times> SenderState" where
  "retry_slot E now i os =
     (let (out, s) = os;
          slot = slot_at s i;
          dur = se_DeadlineDur E (s_rtt s) (s_Flow s);
          p = stamp now s ((tx_Pack slot)\<lparr>pk_SeqRetry := pk_SeqRetry (tx_Pack slot) + 1\<rparr>);
          s1 = s\<lparr>s_Txq := (s_Txq s)[i := slot\<lparr>tx_RetryDur := dur, tx_RetryDeadline := now + dur, tx_Pack := p\<rparr>]\<rparr>
      in (out @ [p], insert_slot i s1))"

text \<open>The regular wake-up: give the session up, or send again what is overdue.\<close>

definition regularIntervalWakeup :: "swp_env \<Rightarrow> int \<Rightarrow> SenderState \<Rightarrow> Packet list \<times> SenderState" where
  "regularIntervalWakeup E now s =
     (if s_NumFailedKeepAlivesBeforeClosing s > 0 \<and>
         now - s_LastHeardFromDownstream s > s_KeepAliveInterval s * s_NumFailedKeepAlivesBeforeClosing s
      then ([], s\<lparr>s_stopped := True\<rparr>)
      else
        let (retry, s1) = deleteThroughDeadline now s
        in fold (retry_slot E now) retry ([], s1))"

definition UpdateRTT :: "swp_env \<Rightarrow> int \<Rightarrow> Packet \<Rightarrow> SenderState \<Rightarrow> SenderState" where
  "UpdateRTT E now pack s =
     (if pk_TcpEvent pack = EventKeepAlive then s
      else if pk_TcpEvent pack \<noteq> EventDataAck then s
      else
        let obs = now - pk_DataSendTm pack
        in if obs > 60000000000 then s else s\<lparr>s_rtt := se_AddSample E obs (s_rtt s)\<rparr>)"

definition gotPack :: "swp_env \<Rightarrow> int \<Rightarrow> Packet \<Rightarrow> SenderState \<Rightarrow> SenderState option" where
  "gotPack E now a s =
     (let s1 = s\<lparr>s_LastHeardFromDownstream := pk_ArrivedAtDestTm a,
                 s_LastSeenAvailReaderBytesCap := pk_AvailReaderBytesCap a,
                 s_LastSeenAvailReaderMsgCap := pk_AvailReaderMsgCap a\<rparr>;
          s2 = deleteThroughSeqNum (pk_AckNum a) (UpdateRTT E now a s1)
      in if length (s_BySeqNum s2) \<noteq> length (s_ByDeadline s2) then None
         else if pk_TcpEvent a \<noteq> EventDataAck \<or> pk_AckNum a < 0 then Some s2
         else if \<not> InWindow (pk_AckNum a) (s_LastAckRec s2 + 1) (s_LastFrameSent s2) then Some (s2\<lparr>s_DiscardCount := s_DiscardCount s2 + 1\<rparr>)
         else Some s2)"

text \<open>The oldest queued acknowledgement is sent.\<close>

definition send_queued_ack :: "SenderState \<Rightarrow> Packet list \<times> SenderState" where
  "send_queued_ack s =
     (case s_SendAck s of
        [] \<Rightarrow> ([], s)
      | a # as \<Rightarrow>
          let a1 = a\<lparr>pk_FromRttEstNsec := rtt_Est (s_rtt s), pk_FromRttSdNsec := rtt_Sd (s_rtt s), pk_FromRttN := rtt_N (s_rtt s)\<rparr>;
              n = (if s_RemoteSessNonce s = [] \<and> pk_DestSessNonce a \<noteq> [] then pk_DestSessNonce a else s_RemoteSessNonce s)
          in ([a1], s\<lparr>s_SendAck := as, s_RemoteSessNonce := n\<rparr>))"

definition doKeepAlive :: "int \<Rightarrow> TcpState \<Rightarrow> SenderState \<Rightarrow> Packet list \<times> SenderState" where
  "doKeepAlive now state s =
     (if s_Dest s = [] \<or> s_RemoteSessNonce s = [] then ([], s)
      else if now - s_LastSendTime s < s_KeepAliveInterval s then ([], s)
      else ([stamp now s (no_Packet\<lparr>pk_From := s_Inbox s, pk_Dest := s_Dest s, pk_SeqNum := - 777, pk_SeqRetry := - 777,
               pk_AckNum := s_recvLastFrameClientConsumed s, pk_AckRetry := - 777, pk_TcpEvent := EventKeepAlive, pk_FromTcpState := state\<rparr>)],
            s\<lparr>s_LastSendTime := now\<rparr>))"

definition doSendClosing :: "int \<Rightarrow> SenderState \<Rightarrow> Packet list \<times> SenderState" where
  "doSendClosing now s =
     ([stamp now s (no_Packet\<lparr>pk_From := s_Inbox s, pk_Dest := s_Dest s, pk_SeqNum := - 888, pk_SeqRetry := - 888, pk_AckRetry := - 888,
         pk_TcpEvent := EventFin\<rparr>)],
      s\<lparr>s_LastSendTime := now\<rparr>)"

end
