(* ===== verification/Swp_Recv.thy ===== *)
theory Swp_Recv
  imports Swp_Window
begin

text \<open>
  The receiver of one end of a session (src/swp/recv.go, retry.go). An end is the pair of its
  sender and its receiver. The as-soon-as-possible helper, the test hooks and the log lines are
  not modelled.
\<close>

record RxqSlot =
  rx_Received :: bool
  rx_Pack :: Packet

record tcpRetryLogic =
  re_curState :: TcpState
  re_inUse :: bool
  re_enteredCurTcpStateAt :: int
  re_lastAttemptAt :: int
  re_firstStateAction :: TcpAction
  re_attemptCount :: nat
  re_causalPacket :: "Packet option"
  re_timeout :: int

record RecvState =
  r_Inbox :: bytes
  r_RemoteInbox :: bytes
  r_NextFrameExpected :: int
  r_LastFrameClientConsumed :: int
  r_Rxq :: "RxqSlot list"
  r_RecvWindowSize :: int
  r_RecvWindowSizeBytes :: int
  r_RecvHistory :: "Packet list"
  r_DiscardCount :: int
  r_LastMsgConsumed :: int
  r_LargestSeqnoRcvd :: int
  r_MaxCumulBytesTrans :: int
  r_LastByteConsumed :: int
  r_LastAvailReaderBytesCap :: int
  r_LastAvailReaderMsgCap :: int
  r_RcvdButNotConsumed :: "(int \<times> Packet) list"
  r_ReadyForDelivery :: "Packet list"
  r_TcpState :: TcpState
  r_retry :: tcpRetryLogic
  r_retryTimer :: bool
  r_AppCloseCallback :: bool
  r_LocalSessNonce :: bytes
  r_RemoteSessNonce :: bytes
  r_connReqPending :: "bytes option"
  r_stopped :: bool

record Endpoint =
  ep_snd :: SenderState
  ep_rcv :: RecvState

abbreviation upd_snd :: "(SenderState \<Rightarrow> SenderState) \<Rightarrow> Endpoint \<Rightarrow> Endpoint" where
  "upd_snd f e \<equiv> e\<lparr>ep_snd := f (ep_snd e)\<rparr>"

abbreviation upd_rcv :: "(RecvState \<Rightarrow> RecvState) \<Rightarrow> Endpoint \<Rightarrow> Endpoint" where
  "upd_rcv f e \<equiv> e\<lparr>ep_rcv := f (ep_rcv e)\<rparr>"

section \<open>Acknowledgements\<close>

definition UpdateControl :: "Packet \<Rightarrow> Endpoint \<Rightarrow> Endpoint" where
  "UpdateControl pack e =
     (let r = ep_rcv e;
          msg = r_RecvWindowSize r - (r_LargestSeqnoRcvd r - r_LastMsgConsumed r);
          byt = r_RecvWindowSizeBytes r - (r_MaxCumulBytesTrans r - (r_LastByteConsumed r + 1))
      in e\<lparr>ep_rcv := r\<lparr>r_LastAvailReaderMsgCap := msg, r_LastAvailReaderBytesCap := byt\<rparr>,
           ep_snd := (ep_snd e)\<lparr>s_Flow := UpdateFlow msg byt (Some pack) (s_Flow (ep_snd e))\<rparr>\<rparr>)"

text \<open>The queue of acknowledgements has five places; the oldest is dropped for a new one.\<close>

definition queue_ack :: "Packet \<Rightarrow> SenderState \<Rightarrow> SenderState" where
  "queue_ack a s = s\<lparr>s_SendAck := (if length (s_SendAck s) = 5 then tl (s_SendAck s) else s_SendAck s) @ [a]\<rparr>"

definition ack :: "int \<Rightarrow> int \<Rightarrow> Packet option \<Rightarrow> TcpEvent \<Rightarrow> Endpoint \<Rightarrow> Endpoint" where
  "ack now seqno pack event e =
     (let e1 = (case pack of None \<Rightarrow> e | Some p \<Rightarrow> UpdateControl p e);
          r = ep_rcv e1;
          a = no_Packet\<lparr>pk_From := r_Inbox r, pk_FromSessNonce := r_LocalSessNonce r, pk_Dest := r_RemoteInbox r,
                pk_DestSessNonce := r_RemoteSessNonce r, pk_SeqNum := - 99, pk_SeqRetry := - 99, pk_AckNum := seqno, pk_TcpEvent := event,
                pk_AvailReaderBytesCap := r_LastAvailReaderBytesCap r, pk_AvailReaderMsgCap := r_LastAvailReaderMsgCap r,
                pk_AckRetry := (case pack of None \<Rightarrow> - 1 | Some p \<Rightarrow> pk_SeqRetry p), pk_AckReplyTm := now,
                pk_DataSendTm := (case pack of None \<Rightarrow> now | Some p \<Rightarrow> pk_DataSendTm p)\<rparr>
      in upd_snd (queue_ack a) e1)"

definition ack_consumed :: "int \<Rightarrow> Packet option \<Rightarrow> TcpEvent \<Rightarrow> Endpoint \<Rightarrow> Endpoint" where
  "ack_consumed now pack event e = ack now (r_LastFrameClientConsumed (ep_rcv e)) pack event e"

section \<open>Connection events\<close>

definition doTcpAction :: "int \<Rightarrow> TcpAction \<Rightarrow> Packet \<Rightarrow> Endpoint \<Rightarrow> (TcpEvent \<times> Endpoint) option" where
  "doTcpAction now act pack e =
     (let r = ep_rcv e; nonce = pk_FromSessNonce pack in
      case act of
        NoAction \<Rightarrow> Some (EventNil, e)
      | SendDataAck \<Rightarrow> Some (EventNil, ack_consumed now (Some pack) EventDataAck e)
      | SendSyn \<Rightarrow> Some (EventNil, ack_consumed now (Some pack) EventSyn e)
      | SendSynAck \<Rightarrow>
          if r_RemoteSessNonce r \<noteq> [] \<and> r_RemoteSessNonce r \<noteq> nonce then None
          else Some (EventNil, ack_consumed now (Some pack) EventSynAck (upd_rcv (\<lambda>r. r\<lparr>r_RemoteSessNonce := nonce\<rparr>) e))
      | SendEstabAck \<Rightarrow>
          if r_RemoteSessNonce r \<noteq> [] then None
          else if r_connReqPending r = None then None
          else Some (EventNil, ack_consumed now (Some pack) EventEstabAck
                 (upd_rcv (\<lambda>r. r\<lparr>r_RemoteSessNonce := nonce, r_connReqPending := None\<rparr>) e))
      | SendFin \<Rightarrow> Some (EventNil, ack_consumed now (Some pack) EventFin e)
      | SendFinAck \<Rightarrow> Some (EventNil, ack_consumed now (Some pack) EventFinAck e)
      | DoAppClose \<Rightarrow>
          Some (EventApplicationClosed, ack_consumed now (Some pack) EventFinAck (upd_rcv (\<lambda>r. r\<lparr>r_AppCloseCallback := False\<rparr>) e)))"

definition setupRetry :: "int \<Rightarrow> TcpState \<Rightarrow> TcpState \<Rightarrow> Packet \<Rightarrow> TcpAction \<Rightarrow> RecvState \<Rightarrow> RecvState" where
  "setupRetry now pre post pack act r =
     (if post = pre then r
      else if isRetryState (r_TcpState r) then
        r\<lparr>r_retry := (r_retry r)\<lparr>re_inUse := True, re_curState := post, re_enteredCurTcpStateAt := now, re_lastAttemptAt := now,
             re_firstStateAction := act, re_causalPacket := Some pack, re_timeout := 1000000000\<rparr>, r_retryTimer := True\<rparr>
      else r\<lparr>r_retry := (r_retry r)\<lparr>re_inUse := False, re_causalPacket := None\<rparr>, r_retryTimer := False\<rparr>)"

definition tcp_event :: "int \<Rightarrow> TcpEvent \<Rightarrow> Packet \<Rightarrow> Endpoint \<Rightarrow> (TcpEvent \<times> Endpoint) option" where
  "tcp_event now event pack e =
     (let pre = r_TcpState (ep_rcv e);
          (post, act) = UpdateTcp pre event (pk_FromTcpState pack);
          e1 = upd_rcv (\<lambda>r. r\<lparr>r_TcpState := post\<rparr>) e;
          e2 = (if pre \<noteq> post then upd_rcv (setupRetry now pre post pack act) e1 else e1)
      in doTcpAction now act pack e2)"

text \<open>
  The loop over follow-up events. Only the close of the application follows up, and nothing
  follows that, so two rounds are all there are.
\<close>

definition tcp_events :: "int \<Rightarrow> Packet \<Rightarrow> Endpoint \<Rightarrow> Endpoint option" where
  "tcp_events now pack e =
     (case tcp_event now (pk_TcpEvent pack) pack e of
        None \<Rightarrow> None
      | Some (next1, e1) \<Rightarrow>
          if next1 = EventNil then Some e1
          else map_option snd (tcp_event now next1 pack e1))"

definition stop_if_closed :: "Endpoint \<Rightarrow> Endpoint" where
  "stop_if_closed e = (if r_TcpState (ep_rcv e) = Closed then upd_rcv (\<lambda>r. r\<lparr>r_stopped := True\<rparr>) e else e)"

definition retryCheck :: "int \<Rightarrow> Endpoint \<Rightarrow> Endpoint option" where
  "retryCheck now e =
     (let r = ep_rcv e; q = r_retry r in
      if \<not> re_inUse q then Some (upd_rcv (\<lambda>r. r\<lparr>r_retryTimer := False\<rparr>) e)
      else if re_curState q \<noteq> r_TcpState r then
        Some (upd_rcv (\<lambda>r. r\<lparr>r_retryTimer := False, r_retry := q\<lparr>re_inUse := False, re_causalPacket := None\<rparr>\<rparr>) e)
      else if now - re_lastAttemptAt q > 1000000000 then
        let q1 = q\<lparr>re_attemptCount := re_attemptCount q + 1\<rparr> in
        if re_attemptCount q1 > 10 then
          Some (upd_rcv (\<lambda>r. r\<lparr>r_retryTimer := False, r_retry := q1\<lparr>re_inUse := False\<rparr>, r_stopped := True\<rparr>) e)
        else
          (case re_causalPacket q of
             None \<Rightarrow> None
           | Some p \<Rightarrow>
               map_option (\<lambda>(_, e1). upd_rcv (\<lambda>r. r\<lparr>r_retry := (r_retry r)\<lparr>re_lastAttemptAt := now\<rparr>, r_retryTimer := True\<rparr>) e1)
                 (doTcpAction now (re_firstStateAction q) p (upd_rcv (\<lambda>r. r\<lparr>r_retry := q1\<rparr>) e)))
      else Some e)"

text \<open>A connect request: the SYN to send, if any.\<close>

definition connect_request :: "bytes \<Rightarrow> Endpoint \<Rightarrow> Packet list \<times> Endpoint" where
  "connect_request dest e =
     (let r = ep_rcv e in
      if r_RemoteInbox r \<noteq> [] \<and> r_RemoteInbox r \<noteq> dest then ([], e)
      else
        let r1 = (if r_RemoteInbox r = [] then r\<lparr>r_RemoteInbox := dest\<rparr> else r) in
        if r_TcpState r1 \<noteq> Listen \<and> r_TcpState r1 \<noteq> SynSent then ([], e\<lparr>ep_rcv := r1\<rparr>)
        else
          ([no_Packet\<lparr>pk_From := r_Inbox r1, pk_FromSessNonce := r_LocalSessNonce r1, pk_Dest := dest, pk_SeqNum := - 98, pk_SeqRetry := - 98,
              pk_TcpEvent := EventSyn\<rparr>],
           e\<lparr>ep_rcv := r1\<lparr>r_connReqPending := Some dest, r_TcpState := SynSent\<rparr>\<rparr>))"

section \<open>Data\<close>

definition rx_index :: "RecvState \<Rightarrow> int \<Rightarrow> nat" where
  "rx_index r n = nat (n mod r_RecvWindowSize r)"

lemma filter_update_less:
  "i < length xs \<Longrightarrow> P (xs ! i) \<Longrightarrow> \<not> P y \<Longrightarrow> length (filter P (xs[i := y])) < length (filter P xs)"
proof (induction xs arbitrary: i)
  case (Cons x xs)
  then show ?case by (cases i) auto
qed simp

text \<open>The loop that moves frames from the window to the queue of frames that are ready.\<close>

function deliver_loop :: "RecvState \<Rightarrow> RecvState" where
  "deliver_loop r =
     (let i = rx_index r (r_NextFrameExpected r) in
      if i < length (r_Rxq r) \<and> rx_Received (r_Rxq r ! i) then
        let p = rx_Pack (r_Rxq r ! i)
        in deliver_loop (r\<lparr>r_ReadyForDelivery := r_ReadyForDelivery r @ [p],
                           r_RecvHistory := r_RecvHistory r @ [p],
                           r_Rxq := (r_Rxq r)[i := \<lparr>rx_Received = False, rx_Pack = no_Packet\<rparr>],
                           r_NextFrameExpected := r_NextFrameExpected r + 1\<rparr>)
      else r)"
  by pat_completeness auto
termination
  by (relation "measure (\<lambda>r. length (filter rx_Received (r_Rxq r)))") (auto intro: filter_update_less)

declare deliver_loop.simps [simp del]

definition recv_data :: "int \<Rightarrow> Packet \<Rightarrow> Endpoint \<Rightarrow> Endpoint option" where
  "recv_data now pack e =
     (let r = ep_rcv e; n = pk_SeqNum pack;
          r1 = (if n \<ge> r_NextFrameExpected r then r\<lparr>r_RcvdButNotConsumed := AList.update n pack (r_RcvdButNotConsumed r)\<rparr> else r)
      in if n < 0 \<and> n mod r_RecvWindowSize r \<noteq> 0 \<or> r_RecvWindowSize r \<le> 0 then None
         else if \<not> InWindow n (r_NextFrameExpected r1) (r_NextFrameExpected r1 + r_RecvWindowSize r1 - 1) then
           Some (ack_consumed now (Some pack) EventDataAck (e\<lparr>ep_rcv := r1\<lparr>r_DiscardCount := r_DiscardCount r1 + 1\<rparr>\<rparr>))
         else
           let r2 = r1\<lparr>r_Rxq := (r_Rxq r1)[rx_index r1 n := \<lparr>rx_Received = True, rx_Pack = pack\<rparr>]\<rparr>
           in if n = r_NextFrameExpected r2 then
                (let r3 = deliver_loop r2
                 in Some (e\<lparr>ep_rcv := r3, ep_snd := (ep_snd e)\<lparr>s_recvLastFrameClientConsumed := r_LastFrameClientConsumed r3\<rparr>\<rparr>))
              else Some (e\<lparr>ep_rcv := r2\<rparr>))"

text \<open>Whether a packet is for this session, and the receiver once it has locked on to a remote.\<close>

definition lock_on :: "Packet \<Rightarrow> RecvState \<Rightarrow> RecvState" where
  "lock_on pack r =
     (if pk_TcpEvent pack = EventSyn \<and> (r_TcpState r = Fresh \<or> r_TcpState r = Listen) \<and> r_RemoteInbox r = [] \<and> pk_From pack \<noteq> []
      then r\<lparr>r_RemoteInbox := pk_From pack, r_RemoteSessNonce := pk_FromSessNonce pack\<rparr> else r)"

definition for_session :: "swp_env \<Rightarrow> Packet \<Rightarrow> RecvState \<Rightarrow> bool" where
  "for_session E pack r \<longleftrightarrow>
     \<not> (r_RemoteInbox r \<noteq> [] \<and> pk_From pack \<noteq> r_RemoteInbox r) \<and>
     \<not> ((pk_DestSessNonce pack \<noteq> [] \<or> at_least_Established (r_TcpState r)) \<and> pk_DestSessNonce pack \<noteq> r_LocalSessNonce r) \<and>
     \<not> (r_RemoteSessNonce r \<noteq> [] \<and> pk_FromSessNonce pack \<noteq> r_RemoteSessNonce r) \<and>
     \<not> (length (pk_Data pack) > 0 \<and> pk_Blake2bChecksum pack \<noteq> se_Blake2b E (pk_Data pack))"

text \<open>The two assertions on the running byte count are panics.\<close>

definition note_largest :: "Packet \<Rightarrow> RecvState \<Rightarrow> RecvState option" where
  "note_largest pack r =
     (if pk_SeqNum pack > r_LargestSeqnoRcvd r then
        (if pk_CumulBytesTransmitted pack < r_MaxCumulBytesTrans r then None
         else Some (r\<lparr>r_LargestSeqnoRcvd := pk_SeqNum pack, r_MaxCumulBytesTrans := pk_CumulBytesTransmitted pack\<rparr>))
      else if pk_CumulBytesTransmitted pack > r_MaxCumulBytesTrans r then None
      else Some r)"

definition recv_packet :: "swp_env \<Rightarrow> int \<Rightarrow> Packet \<Rightarrow> Endpoint \<Rightarrow> Endpoint option" where
  "recv_packet E now pack0 e =
     (let r = lock_on pack0 (ep_rcv e); e1 = e\<lparr>ep_rcv := r\<rparr> in
      if \<not> for_session E pack0 r then Some e1
      else
        let pack = pack0\<lparr>pk_ArrivedAtDestTm := now\<rparr> in
        case note_largest pack r of
          None \<Rightarrow> None
        | Some r1 \<Rightarrow>
            let e2 = UpdateControl pack (e1\<lparr>ep_rcv := r1\<rparr>) in
            case gotPack E now (CopyPacketSansData pack) (ep_snd e2) of
              None \<Rightarrow> None
            | Some s \<Rightarrow>
                let e3 = e2\<lparr>ep_snd := s\<rparr> in
                if pk_TcpEvent pack \<noteq> EventData then map_option stop_if_closed (tcp_events now pack e3)
                else recv_data now pack e3)"

section \<open>Consuming\<close>

text \<open>A delivery of all that is ready to the consumer of messages.\<close>

definition deliver :: "int \<Rightarrow> Endpoint \<Rightarrow> Packet list \<times> Endpoint" where
  "deliver now e =
     (let r = ep_rcv e; ready = r_ReadyForDelivery r in
      if ready = [] then ([], e)
      else
        let lastPack = last ready;
            r1 = r\<lparr>r_RcvdButNotConsumed := fold (\<lambda>p m. AList.delete (pk_SeqNum p) m) ready (r_RcvdButNotConsumed r),
                   r_LastMsgConsumed := pk_SeqNum lastPack,
                   r_LastByteConsumed := pk_CumulBytesTransmitted lastPack,
                   r_ReadyForDelivery := [],
                   r_LastFrameClientConsumed := pk_SeqNum lastPack\<rparr>
        in (ready, ack_consumed now (Some lastPack) EventDataAck (e\<lparr>ep_rcv := r1\<rparr>)))"

text \<open>
  One read of at most \<open>n\<close> bytes: the bytes copied, the packet consumed last, and the receiver.
  The head of the queue is the packet the loop is at.
\<close>

function fill_loop :: "nat \<Rightarrow> RecvState \<Rightarrow> bytes \<times> Packet option \<times> RecvState" where
  "fill_loop n r =
     (case r_ReadyForDelivery r of
        [] \<Rightarrow> ([], None, r)
      | pk # pks \<Rightarrow>
          let rest = drop (pk_DataOffset pk) (pk_Data pk);
              m = min n (length rest);
              got = take m rest;
              pk1 = pk\<lparr>pk_DataOffset := pk_DataOffset pk + m\<rparr>
          in if m = length rest then
               let r1 = r\<lparr>r_ReadyForDelivery := pks, r_RcvdButNotConsumed := AList.delete (pk_SeqNum pk) (r_RcvdButNotConsumed r),
                          r_LastMsgConsumed := pk_SeqNum pk, r_LastFrameClientConsumed := pk_SeqNum pk,
                          r_LastByteConsumed := pk_CumulBytesTransmitted pk\<rparr>
               in if n - m = 0 then (got, Some pk1, r1)
                  else
                    let (more, lp, r2) = fill_loop (n - m) r1
                    in (got @ more, (case lp of None \<Rightarrow> Some pk1 | Some q \<Rightarrow> Some q), r2)
             else (got, None, r\<lparr>r_ReadyForDelivery := pk1 # pks,
                    r_LastByteConsumed := pk_CumulBytesTransmitted pk - int (length rest) + int m\<rparr>))"
  by pat_completeness auto
termination by (relation "measure (\<lambda>(n, r). length (r_ReadyForDelivery r))") auto

declare fill_loop.simps [simp del]

definition fillAsMuchAsPossible :: "int \<Rightarrow> nat \<Rightarrow> Endpoint \<Rightarrow> bytes \<times> Endpoint" where
  "fillAsMuchAsPossible now n e =
     (if n = 0 then ([], e)
      else
        let (got, lastPack, r) = fill_loop n (ep_rcv e);
            e1 = e\<lparr>ep_rcv := r\<rparr>
        in (got, case lastPack of None \<Rightarrow> e1 | Some p \<Rightarrow> ack_consumed now (Some p) EventDataAck e1))"

end
