(* ===== verification/Swp_Session.thy ===== *)
theory Swp_Session
  imports Swp_Recv
begin

text \<open>
  Sessions of the sliding window protocol (src/swp/swp.go): their construction, the cutting of a
  write into packets, and two ends joined by a network that may lose, duplicate, delay and
  reorder packets but not forge them.
\<close>

section \<open>Construction\<close>

record SessionConfig =
  c_LocalInbox :: bytes
  c_DestInbox :: bytes
  c_WindowMsgCount :: int
  c_WindowByteSz :: int
  c_KeepAliveInterval :: int
  c_NumFailedKeepAlivesBeforeClosing :: int

definition NewSenderState :: "int \<Rightarrow> bytes \<Rightarrow> bytes \<Rightarrow> int \<Rightarrow> int \<Rightarrow> bytes \<Rightarrow> SenderState" where
  "NewSenderState sendSz inbox destInbox now keepAliveInterval nonce =
     \<lparr>s_Inbox = inbox, s_Dest = destInbox, s_LastAckRec = - 1, s_LastFrameSent = - 1,
      s_Txq = replicate (nat sendSz) \<lparr>tx_OrigSendTime = 0, tx_RetryDeadline = 0, tx_RetryDur = 0, tx_Pack = no_Packet\<rparr>,
      s_SenderWindowSize = sendSz, s_SendHistory = [], s_SendAck = [], s_DiscardCount = 0, s_LastSendTime = 0,
      s_LastHeardFromDownstream = now, s_KeepAliveInterval = keepAliveInterval, s_NumFailedKeepAlivesBeforeClosing = 0,
      s_ByDeadline = [], s_BySeqNum = [], s_LastSeenAvailReaderBytesCap = 1024 * 1024, s_LastSeenAvailReaderMsgCap = sendSz,
      s_Flow = \<lparr>ReservedByteCap = 64 * 1024, ReservedMsgCap = 32, AvailReaderBytesCap = 0, AvailReaderMsgCap = 0,
                 RemoteRttEstNsec = 0, RemoteRttSdNsec = 0, RemoteRttN = 0\<rparr>,
      s_TotalBytesSent = 0, s_rtt = \<lparr>rtt_N = 0, rtt_Est = 0, rtt_Sd = 10000000\<rparr>, s_recvLastFrameClientConsumed = 0,
      s_LocalSessNonce = nonce, s_RemoteSessNonce = [], s_stopped = False\<rparr>"

definition NewRecvState :: "int \<Rightarrow> int \<Rightarrow> bytes \<Rightarrow> bytes \<Rightarrow> bytes \<Rightarrow> RecvState" where
  "NewRecvState recvSz recvSzBytes inbox nonce destInbox =
     \<lparr>r_Inbox = inbox, r_RemoteInbox = destInbox, r_NextFrameExpected = 0, r_LastFrameClientConsumed = 0,
      r_Rxq = replicate (nat recvSz) \<lparr>rx_Received = False, rx_Pack = no_Packet\<rparr>, r_RecvWindowSize = recvSz,
      r_RecvWindowSizeBytes = recvSzBytes, r_RecvHistory = [], r_DiscardCount = 0, r_LastMsgConsumed = - 1, r_LargestSeqnoRcvd = - 1,
      r_MaxCumulBytesTrans = 0, r_LastByteConsumed = - 1, r_LastAvailReaderBytesCap = 0, r_LastAvailReaderMsgCap = 0,
      r_RcvdButNotConsumed = [], r_ReadyForDelivery = [], r_TcpState = Listen,
      r_retry = \<lparr>re_curState = Fresh, re_inUse = False, re_enteredCurTcpStateAt = 0, re_lastAttemptAt = 0, re_firstStateAction = NoAction,
                  re_attemptCount = 0, re_causalPacket = None, re_timeout = 0\<rparr>,
      r_retryTimer = False, r_AppCloseCallback = False, r_LocalSessNonce = nonce, r_RemoteSessNonce = [], r_connReqPending = None,
      r_stopped = False\<rparr>"

definition session_defaults :: "SessionConfig \<Rightarrow> SessionConfig" where
  "session_defaults cfg =
     (let c1 = (if c_WindowByteSz cfg < c_WindowMsgCount cfg then cfg\<lparr>c_WindowByteSz := c_WindowMsgCount cfg * 10 * 1024\<rparr> else cfg);
          c2 = (if c_NumFailedKeepAlivesBeforeClosing c1 = 0 then c1\<lparr>c_NumFailedKeepAlivesBeforeClosing := 50\<rparr> else c1)
      in if c_KeepAliveInterval c2 = 0 then c2\<lparr>c_KeepAliveInterval := 500000000\<rparr> else c2)"

definition NewSession :: "SessionConfig \<Rightarrow> int \<Rightarrow> bytes \<Rightarrow> bytes + Endpoint" where
  "NewSession cfg0 now nonce =
     (if c_WindowMsgCount cfg0 < 1 then Inl ''windowMsgSz must be 1 or more''
      else
        let cfg = session_defaults cfg0;
            snd1 = NewSenderState (c_WindowMsgCount cfg) (c_LocalInbox cfg) (c_DestInbox cfg) now (c_KeepAliveInterval cfg) nonce
        in Inr \<lparr>ep_snd = snd1\<lparr>s_NumFailedKeepAlivesBeforeClosing := c_NumFailedKeepAlivesBeforeClosing cfg\<rparr>,
                ep_rcv = NewRecvState (c_WindowMsgCount cfg) (c_WindowByteSz cfg) (c_LocalInbox cfg) nonce (c_DestInbox cfg)\<rparr>)"

section \<open>Writing\<close>

definition int64Min :: "int \<Rightarrow> int \<Rightarrow> int" where
  "int64Min a b = (if a < b then a else b)"

definition packet_size :: "SessionConfig \<Rightarrow> int" where
  "packet_size cfg =
     (let maxSz = 2 ^ 19; sz = int64Min (c_WindowByteSz cfg) maxSz in if sz < 0 then maxSz else sz)"

definition packet_count :: "int \<Rightarrow> int \<Rightarrow> int" where
  "packet_count lenp sz = (let npack = lenp div sz in if lenp - npack * sz > 0 then npack + 1 else npack)"

text \<open>The payloads of the packets that one \<open>Write\<close> pushes, in order.\<close>

definition write_chunks :: "SessionConfig \<Rightarrow> bytes \<Rightarrow> bytes list" where
  "write_chunks cfg payload =
     (let lenp = int (length payload); sz = packet_size cfg
      in if lenp = 0 then []
         else map (\<lambda>i. take (nat (int64Min ((int i + 1) * sz) lenp - int i * sz)) (drop (nat (int i * sz)) payload))
                [0..<nat (packet_count lenp sz)])"

section \<open>One end\<close>

datatype ep_event = EvSend bytes | EvWake | EvRecv Packet | EvDeliver | EvRead nat | EvSendAck | EvKeepAlive | EvClose
  | EvRetryCheck | EvConnect bytes

text \<open>
  A step of one end at a clock reading: the packets it sends, the bytes its application reads,
  and the end after it. A packet is accepted for sending only when flow control allows it.
\<close>

definition new_data :: "bytes \<Rightarrow> SenderState \<Rightarrow> Packet" where
  "new_data d s = no_Packet\<lparr>pk_From := s_Inbox s, pk_Dest := s_Dest s, pk_Data := d, pk_TcpEvent := EventData\<rparr>"

definition unread :: "Packet \<Rightarrow> bytes" where
  "unread p = drop (pk_DataOffset p) (pk_Data p)"

definition with_snd :: "Endpoint \<Rightarrow> Packet list \<times> SenderState \<Rightarrow> (Packet list \<times> bytes \<times> Endpoint) option" where
  "with_snd e os = Some (fst os, [], e\<lparr>ep_snd := snd os\<rparr>)"

definition quiet :: "Endpoint option \<Rightarrow> (Packet list \<times> bytes \<times> Endpoint) option" where
  "quiet r = map_option (\<lambda>e. ([], [], e)) r"

definition ep_step :: "swp_env \<Rightarrow> int \<Rightarrow> ep_event \<Rightarrow> Endpoint \<Rightarrow> (Packet list \<times> bytes \<times> Endpoint) option" where
  "ep_step E now ev e =
     (case ev of
        EvSend d \<Rightarrow>
          if acceptSend (ep_snd e) then with_snd e (doOrigDataSend E now (new_data d (ep_snd e)) (ep_snd e)) else quiet (Some e)
      | EvWake \<Rightarrow> with_snd e (regularIntervalWakeup E now (ep_snd e))
      | EvRecv p \<Rightarrow> quiet (recv_packet E now p e)
      | EvDeliver \<Rightarrow> (case deliver now e of (ps, e1) \<Rightarrow> Some ([], concat (map unread ps), e1))
      | EvRead n \<Rightarrow> (case fillAsMuchAsPossible now n e of (got, e1) \<Rightarrow> Some ([], got, e1))
      | EvSendAck \<Rightarrow> with_snd e (send_queued_ack (ep_snd e))
      | EvKeepAlive \<Rightarrow> with_snd e (doKeepAlive now (r_TcpState (ep_rcv e)) (ep_snd e))
      | EvClose \<Rightarrow> with_snd e (doSendClosing now (ep_snd e))
      | EvRetryCheck \<Rightarrow> quiet (retryCheck now e)
      | EvConnect dest \<Rightarrow> (case connect_request dest e of (out, e1) \<Rightarrow> Some (out, [], e1)))"

section \<open>Two ends and a network\<close>

text \<open>
  The network remembers every packet that was ever sent in a direction; receiving any of them at
  any time, any number of times, is loss, delay, duplication and reordering at once.
\<close>

record sys =
  sy_A :: Endpoint
  sy_B :: Endpoint
  sy_AB :: "Packet list"
  sy_BA :: "Packet list"
  sy_readA :: bytes
  sy_readB :: bytes

definition from_net :: "ep_event \<Rightarrow> Packet list \<Rightarrow> bool" where
  "from_net ev net = (case ev of EvRecv p \<Rightarrow> p \<in> set net | _ \<Rightarrow> True)"

inductive sys_step :: "swp_env \<Rightarrow> sys \<Rightarrow> int \<times> bool \<times> ep_event \<Rightarrow> sys \<Rightarrow> bool" for E where
  A_step: "ep_step E now ev (sy_A y) = Some (out, got, a) \<Longrightarrow> from_net ev (sy_BA y) \<Longrightarrow>
    sys_step E y (now, True, ev) (y\<lparr>sy_A := a, sy_AB := sy_AB y @ out, sy_readA := sy_readA y @ got\<rparr>)"
| B_step: "ep_step E now ev (sy_B y) = Some (out, got, b) \<Longrightarrow> from_net ev (sy_AB y) \<Longrightarrow>
    sys_step E y (now, False, ev) (y\<lparr>sy_B := b, sy_BA := sy_BA y @ out, sy_readB := sy_readB y @ got\<rparr>)"

definition sys_init :: "sys \<Rightarrow> bool" where
  "sys_init y \<longleftrightarrow>
     (\<exists>c now nonce. NewSession c now nonce = Inr (sy_A y)) \<and> (\<exists>c now nonce. NewSession c now nonce = Inr (sy_B y)) \<and>
     sy_AB y = [] \<and> sy_BA y = [] \<and> sy_readA y = [] \<and> sy_readB y = []"

definition written :: "Endpoint \<Rightarrow> bytes" where
  "written e = concat (map pk_Data (s_SendHistory (ep_snd e)))"

section \<open>Scripts\<close>

text \<open>A run that a script describes: an end, and what it does or which packet of the network it receives.\<close>

definition play_one :: "swp_env \<Rightarrow> int \<times> bool \<times> (ep_event + nat) \<Rightarrow> sys \<Rightarrow> sys option" where
  "play_one E act y =
     (let (now, atA, what) = act;
          net = (if atA then sy_BA y else sy_AB y);
          ev = (case what of Inl ev \<Rightarrow> ev | Inr k \<Rightarrow> EvRecv (net ! k))
      in if \<not> (case what of Inl (EvRecv _) \<Rightarrow> False | Inl _ \<Rightarrow> True | Inr k \<Rightarrow> k < length net) then None
         else
           (case ep_step E now ev (if atA then sy_A y else sy_B y) of
              None \<Rightarrow> None
            | Some (out, got, e) \<Rightarrow>
                Some (if atA then y\<lparr>sy_A := e, sy_AB := sy_AB y @ out, sy_readA := sy_readA y @ got\<rparr>
                      else y\<lparr>sy_B := e, sy_BA := sy_BA y @ out, sy_readB := sy_readB y @ got\<rparr>)))"

fun play :: "swp_env \<Rightarrow> (int \<times> bool \<times> (ep_event + nat)) list \<Rightarrow> sys \<Rightarrow> sys option" where
  "play E [] y = Some y"
| "play E (a # as) y = (case play_one E a y of None \<Rightarrow> None | Some y1 \<Rightarrow> play E as y1)"

lemma play_one_step: "play_one E a y = Some y' \<Longrightarrow> \<exists>e. sys_step E y e y'"
proof -
  assume p: "play_one E a y = Some y'"
  obtain now atA what where a: "a = (now, atA, what)" by (metis prod_cases3)
  define net where "net = (if atA then sy_BA y else sy_AB y)"
  define ev where "ev = (case what of Inl ev \<Rightarrow> ev | Inr k \<Rightarrow> EvRecv (net ! k))"
  obtain out got e where
    s: "ep_step E now ev (if atA then sy_A y else sy_B y) = Some (out, got, e)" and
    y': "y' = (if atA then y\<lparr>sy_A := e, sy_AB := sy_AB y @ out, sy_readA := sy_readA y @ got\<rparr>
               else y\<lparr>sy_B := e, sy_BA := sy_BA y @ out, sy_readB := sy_readB y @ got\<rparr>)" and
    w: "case what of Inl (EvRecv _) \<Rightarrow> False | Inl _ \<Rightarrow> True | Inr k \<Rightarrow> k < length net"
    using p unfolding play_one_def a Let_def prod.case net_def [symmetric] ev_def [symmetric]
    by (auto split: if_splits option.splits)
  have "from_net ev net"
    using w by (auto simp: from_net_def ev_def split: sum.splits ep_event.splits)
  then show ?thesis
    using s sys_step.intros [of E now ev y out got e] by (cases atA) (auto simp: y' net_def)
qed

lemma play_reachable:
  "play E as y = Some y' \<Longrightarrow> reachable sys_init (sys_step E) y \<Longrightarrow> reachable sys_init (sys_step E) y'"
proof (induction "as" arbitrary: y)
  case (Cons a "as")
  then obtain y1 where y1: "play_one E a y = Some y1" "play E as y1 = Some y'"
    by (auto split: option.splits)
  then have "reachable sys_init (sys_step E) y1"
    using play_one_step Cons.prems(2) reach_step by metis
  then show ?case using Cons.IH y1(2) by blast
qed simp

end
