(* ===== verification/Swp_Send_Inv.thy ===== *)
theory Swp_Send_Inv
  imports Swp_Session
begin

text \<open>
  The invariant of the sending side of a session: every data packet it holds carries the frame
  of the history that its sequence number names. Most operations leave the history and the
  transmit queue alone; \<open>snd_frame\<close> says so.
\<close>

section \<open>Data packets\<close>

definition sent :: "SenderState \<Rightarrow> bytes list" where
  "sent s = map pk_Data (s_SendHistory s)"

definition data_ok :: "bytes list \<Rightarrow> Packet \<Rightarrow> bool" where
  "data_ok h p \<longleftrightarrow>
     (pk_TcpEvent p = EventData \<longrightarrow>
        0 \<le> pk_SeqNum p \<and> pk_SeqNum p < int (length h) \<and> pk_Data p = h ! nat (pk_SeqNum p) \<and> pk_DataOffset p = 0)"

lemma data_ok_append: "data_ok h p \<Longrightarrow> data_ok (h @ k) p"
  by (auto simp: data_ok_def nth_append)

lemma data_ok_other: "pk_TcpEvent p \<noteq> EventData \<Longrightarrow> data_ok h p"
  by (simp add: data_ok_def)

lemma data_ok_fields:
  "data_ok h p \<Longrightarrow> pk_TcpEvent q = pk_TcpEvent p \<Longrightarrow> pk_SeqNum q = pk_SeqNum p \<Longrightarrow> pk_Data q = pk_Data p \<Longrightarrow>
   pk_DataOffset q = pk_DataOffset p \<Longrightarrow> data_ok h q"
  by (simp add: data_ok_def)

section \<open>The sender\<close>

definition snd_ok :: "SenderState \<Rightarrow> bool" where
  "snd_ok s \<longleftrightarrow>
     0 < s_SenderWindowSize s \<and> s_SenderWindowSize s = int (length (s_Txq s)) \<and>
     s_LastFrameSent s = int (length (s_SendHistory s)) - 1 \<and>
     (\<forall>t \<in> set (s_Txq s). data_ok (sent s) (tx_Pack t)) \<and>
     (\<forall>a \<in> set (s_SendAck s). pk_TcpEvent a \<noteq> EventData) \<and>
     (\<forall>i \<in> set (s_ByDeadline s). i < length (s_Txq s))"

definition snd_frame :: "SenderState \<Rightarrow> SenderState \<Rightarrow> bool" where
  "snd_frame s s' \<longleftrightarrow>
     s_SenderWindowSize s' = s_SenderWindowSize s \<and> s_Txq s' = s_Txq s \<and> s_LastFrameSent s' = s_LastFrameSent s \<and>
     s_SendHistory s' = s_SendHistory s \<and> set (s_ByDeadline s') \<subseteq> set (s_ByDeadline s) \<and>
     (\<forall>a \<in> set (s_SendAck s'). a \<in> set (s_SendAck s) \<or> pk_TcpEvent a \<noteq> EventData)"

lemma snd_frame_refl [simp]: "snd_frame s s"
  by (simp add: snd_frame_def)

lemma snd_frame_trans: "snd_frame s s' \<Longrightarrow> snd_frame s' s'' \<Longrightarrow> snd_frame s s''"
  unfolding snd_frame_def by (metis subset_trans)

lemma snd_frame_ok: "snd_frame s s' \<Longrightarrow> snd_ok s \<Longrightarrow> snd_ok s' \<and> sent s' = sent s"
  unfolding snd_frame_def snd_ok_def sent_def by (metis subset_iff)

lemma tree_insert_set: "set (tree_insert cmp i xs) \<subseteq> insert i (set xs)"
  by (induction xs) auto

lemma tree_delete_set: "set (tree_delete cmp i xs) \<subseteq> set xs"
  by (induction xs) auto

lemma tree_deletes_set: "set (fold (tree_delete cmp) is xs) \<subseteq> set xs"
proof (induction "is" arbitrary: xs)
  case (Cons i "is")
  then show ?case using tree_delete_set [of cmp i xs] by (simp) (meson subset_trans)
qed simp

lemma expired_slots_set: "set (expired_slots s x is) \<subseteq> set is"
  by (induction "is") auto

lemma deleteThroughDeadline_frame:
  "deleteThroughDeadline x s = (gone, s') \<Longrightarrow> snd_frame s s' \<and> set gone \<subseteq> set (s_ByDeadline s)"
  using expired_slots_set [of s x "s_ByDeadline s"]
  by (auto simp: deleteThroughDeadline_def snd_frame_def Let_def dest: in_set_dropD)

lemma deleteThroughSeqNum_frame: "snd_frame s (deleteThroughSeqNum n s)"
  using tree_deletes_set by (auto simp: deleteThroughSeqNum_def snd_frame_def Let_def)

lemma UpdateRTT_frame: "snd_frame s (UpdateRTT E now p s)"
  by (simp add: UpdateRTT_def snd_frame_def Let_def)

lemma gotPack_frame: "gotPack E now a s = Some s' \<Longrightarrow> snd_frame s s'"
proof -
  assume g: "gotPack E now a s = Some s'"
  define s1 where "s1 = s\<lparr>s_LastHeardFromDownstream := pk_ArrivedAtDestTm a,
    s_LastSeenAvailReaderBytesCap := pk_AvailReaderBytesCap a, s_LastSeenAvailReaderMsgCap := pk_AvailReaderMsgCap a\<rparr>"
  define s2 where "s2 = deleteThroughSeqNum (pk_AckNum a) (UpdateRTT E now a s1)"
  have "snd_frame s s1" by (simp add: s1_def snd_frame_def)
  then have "snd_frame s s2"
    unfolding s2_def using UpdateRTT_frame deleteThroughSeqNum_frame snd_frame_trans by meson
  moreover have "s' = s2 \<or> s' = s2\<lparr>s_DiscardCount := s_DiscardCount s2 + 1\<rparr>"
    using g by (auto simp: gotPack_def Let_def s1_def [symmetric] s2_def [symmetric] split: if_splits)
  ultimately show ?thesis by (auto simp: snd_frame_def)
qed

lemma send_queued_ack_frame:
  "snd_frame s (snd (send_queued_ack s)) \<and> (snd_ok s \<longrightarrow> (\<forall>p \<in> set (fst (send_queued_ack s)). pk_TcpEvent p \<noteq> EventData))"
  by (auto simp: send_queued_ack_def snd_frame_def snd_ok_def Let_def split: list.splits)

lemma stamp_fields [simp]:
  "pk_TcpEvent (stamp now s p) = pk_TcpEvent p" "pk_SeqNum (stamp now s p) = pk_SeqNum p"
  "pk_Data (stamp now s p) = pk_Data p" "pk_DataOffset (stamp now s p) = pk_DataOffset p"
  "pk_Blake2bChecksum (stamp now s p) = pk_Blake2bChecksum p"
  by (simp_all add: stamp_def)

lemma doKeepAlive_frame:
  "snd_frame s (snd (doKeepAlive now st s)) \<and> (\<forall>p \<in> set (fst (doKeepAlive now st s)). pk_TcpEvent p \<noteq> EventData)"
  by (simp add: doKeepAlive_def snd_frame_def)

lemma doSendClosing_frame:
  "snd_frame s (snd (doSendClosing now s)) \<and> (\<forall>p \<in> set (fst (doSendClosing now s)). pk_TcpEvent p \<noteq> EventData)"
  by (simp add: doSendClosing_def snd_frame_def)

lemma queue_ack_frame: "pk_TcpEvent a \<noteq> EventData \<Longrightarrow> snd_frame s (queue_ack a s)"
  by (cases "s_SendAck s") (auto simp: queue_ack_def snd_frame_def)

text \<open>An operation that sends data: the history grows, and what it sends agrees with the new one.\<close>

definition sends_ok :: "SenderState \<Rightarrow> Packet list \<times> SenderState \<Rightarrow> bool" where
  "sends_ok s os \<longleftrightarrow>
     snd_ok (snd os) \<and> (\<exists>k. sent (snd os) = sent s @ k) \<and> (\<forall>p \<in> set (fst os). data_ok (sent (snd os)) p)"

lemma sends_ok_frame:
  "snd_frame s s' \<Longrightarrow> snd_ok s \<Longrightarrow> \<forall>p \<in> set out. pk_TcpEvent p \<noteq> EventData \<Longrightarrow> sends_ok s (out, s')"
  by (auto simp: sends_ok_def data_ok_other dest: snd_frame_ok)

lemma insert_slot_fields:
  "sent (insert_slot i s) = sent s" "s_Txq (insert_slot i s) = s_Txq s"
  "i < length (s_Txq s) \<Longrightarrow> snd_ok s \<Longrightarrow> snd_ok (insert_slot i s)"
  using tree_insert_set [of "by_deadline s" i "s_ByDeadline s"]
  by (auto simp: insert_slot_def sent_def snd_ok_def)

lemma doOrigDataSend_ok:
  assumes ok: "snd_ok s" and off: "pk_DataOffset p = 0"
  shows "sends_ok s (doOrigDataSend E now p s) \<and> sent (snd (doOrigDataSend E now p s)) = sent s @ [pk_Data p]"
proof -
  define pos where "pos = nat ((s_LastFrameSent s + 1) mod s_SenderWindowSize s)"
  obtain p2 slot lfs s1 where
    d: "doOrigDataSend E now p s = ([p2], insert_slot pos s1)"
      and f: "pk_SeqNum p2 = s_LastFrameSent s + 1" "pk_Data p2 = pk_Data p" "pk_DataOffset p2 = 0"
      and s1: "s_Txq s1 = (s_Txq s)[pos := slot]" "tx_Pack slot = p2" "s_SendHistory s1 = s_SendHistory s @ [p2]"
        "s_LastFrameSent s1 = s_LastFrameSent s + 1" "s_SenderWindowSize s1 = s_SenderWindowSize s"
        "s_SendAck s1 = s_SendAck s" "s_ByDeadline s1 = s_ByDeadline s"
    unfolding doOrigDataSend_def Let_def pos_def [symmetric] by (simp add: off)
  have pos: "pos < length (s_Txq s)"
    using ok by (auto simp: snd_ok_def pos_def nat_less_iff)
  have h: "sent s1 = sent s @ [pk_Data p]"
    by (simp add: sent_def s1 f)
  have p2: "data_ok (sent s1) p2"
    using ok f by (simp add: data_ok_def h snd_ok_def) (simp add: sent_def nth_append)
  have "data_ok (sent s1) (tx_Pack t)" if "t \<in> set (s_Txq s1)" for t
  proof (cases "t = slot")
    case False
    then have "t \<in> set (s_Txq s)"
      using that set_update_subset_insert [of "s_Txq s" pos slot] by (auto simp: s1)
    then show ?thesis using ok data_ok_append by (simp add: snd_ok_def h)
  qed (simp add: s1 p2)
  then have "snd_ok s1"
    using ok by (auto simp: snd_ok_def s1)
  then show ?thesis
    using pos p2 h by (simp add: d sends_ok_def insert_slot_fields s1)
qed

lemma retry_slot_ok:
  assumes ok: "snd_ok s" and i: "i < length (s_Txq s)" and out: "\<forall>p \<in> set out. data_ok (sent s) p"
  shows "case retry_slot E now i (out, s) of (out', s') \<Rightarrow>
    snd_ok s' \<and> sent s' = sent s \<and> length (s_Txq s') = length (s_Txq s) \<and> (\<forall>p \<in> set out'. data_ok (sent s) p)"
proof -
  obtain p slot s1 where
    d: "retry_slot E now i (out, s) = (out @ [p], insert_slot i s1)"
      and p: "pk_SeqNum p = pk_SeqNum (tx_Pack (slot_at s i))" "pk_TcpEvent p = pk_TcpEvent (tx_Pack (slot_at s i))"
        "pk_Data p = pk_Data (tx_Pack (slot_at s i))" "pk_DataOffset p = pk_DataOffset (tx_Pack (slot_at s i))"
      and s1: "s1 = s\<lparr>s_Txq := (s_Txq s)[i := slot]\<rparr>" "tx_Pack slot = p"
    unfolding retry_slot_def Let_def by simp
  have "data_ok (sent s) (tx_Pack (slot_at s i))"
    using ok i by (simp add: snd_ok_def slot_at_def)
  then have dp: "data_ok (sent s) p"
    using p by (auto intro: data_ok_fields)
  have h: "sent s1 = sent s" by (simp add: s1 sent_def)
  have "\<forall>t \<in> set (s_Txq s1). data_ok (sent s1) (tx_Pack t)"
    using ok dp set_update_subset_insert [of "s_Txq s" i slot] h by (auto simp: s1(1) s1(2) snd_ok_def)
  then have "snd_ok s1"
    using ok by (auto simp: snd_ok_def s1)
  then show ?thesis
    using dp out i h by (simp add: d insert_slot_fields s1)
qed

lemma retry_slots_ok:
  assumes "snd_ok s" "\<forall>i \<in> set is. i < length (s_Txq s)" "\<forall>p \<in> set out. data_ok (sent s) p"
  shows "case fold (retry_slot E now) is (out, s) of (out', s') \<Rightarrow>
    snd_ok s' \<and> sent s' = sent s \<and> (\<forall>p \<in> set out'. data_ok (sent s) p)"
  using assms
proof (induction "is" arbitrary: out s)
  case (Cons i "is")
  obtain out1 s1 where r: "retry_slot E now i (out, s) = (out1, s1)" by fastforce
  then have s1: "snd_ok s1" "sent s1 = sent s" "length (s_Txq s1) = length (s_Txq s)" "\<forall>p \<in> set out1. data_ok (sent s) p"
    using retry_slot_ok [of s i out E now] Cons.prems by auto
  show ?case
    using Cons.IH [of s1 out1] Cons.prems s1 by (simp add: r)
qed simp

lemma regularIntervalWakeup_ok:
  assumes ok: "snd_ok s"
  shows "sends_ok s (regularIntervalWakeup E now s)"
proof (cases "s_NumFailedKeepAlivesBeforeClosing s > 0 \<and>
    now - s_LastHeardFromDownstream s > s_KeepAliveInterval s * s_NumFailedKeepAlivesBeforeClosing s")
  case True
  have "snd_frame s (s\<lparr>s_stopped := True\<rparr>)" by (simp add: snd_frame_def)
  then show ?thesis
    using ok True by (simp add: regularIntervalWakeup_def sends_ok_frame)
next
  case False
  obtain gone s1 where d: "deleteThroughDeadline now s = (gone, s1)" by fastforce
  then have f: "snd_frame s s1" "set gone \<subseteq> set (s_ByDeadline s)"
    using deleteThroughDeadline_frame by blast+
  have s1: "snd_ok s1" "sent s1 = sent s"
    using snd_frame_ok [OF f(1) ok] by simp_all
  have "length (s_Txq s1) = length (s_Txq s)" using f(1) by (simp add: snd_frame_def)
  then have g: "\<forall>i \<in> set gone. i < length (s_Txq s1)"
    using f(2) ok by (simp add: snd_ok_def subset_iff)
  obtain out s2 where r: "fold (retry_slot E now) gone ([], s1) = (out, s2)" by fastforce
  then have "snd_ok s2" "sent s2 = sent s" "\<forall>p \<in> set out. data_ok (sent s) p"
    using retry_slots_ok [OF s1(1) g, of "[]" E now] s1(2) by simp_all
  then show ?thesis
    unfolding regularIntervalWakeup_def by (simp only: False if_False d Let_def prod.case r) (simp add: sends_ok_def)
qed

end
