(* ===== verification/Swp_Inv.thy ===== *)
theory Swp_Inv
  imports Swp_Send_Inv
begin

text \<open>
  The invariant of the receiving side of a session: what it has accepted in order is a prefix of
  the other end's history, and its window holds later frames. Most operations touch neither;
  \<open>rcv_frame\<close> says so.
\<close>

section \<open>The receiver\<close>

definition rcv_frame :: "RecvState \<Rightarrow> RecvState \<Rightarrow> bool" where
  "rcv_frame r r' \<longleftrightarrow>
     r_RecvWindowSize r' = r_RecvWindowSize r \<and> r_Rxq r' = r_Rxq r \<and> r_NextFrameExpected r' = r_NextFrameExpected r \<and>
     r_RecvHistory r' = r_RecvHistory r \<and> r_ReadyForDelivery r' = r_ReadyForDelivery r"

definition ep_frame :: "Endpoint \<Rightarrow> Endpoint \<Rightarrow> bool" where
  "ep_frame e e' \<longleftrightarrow> snd_frame (ep_snd e) (ep_snd e') \<and> rcv_frame (ep_rcv e) (ep_rcv e')"

lemma rcv_frame_trans: "rcv_frame r r' \<Longrightarrow> rcv_frame r' r'' \<Longrightarrow> rcv_frame r r''"
  by (simp add: rcv_frame_def)

lemma ep_frame_trans: "ep_frame e e' \<Longrightarrow> ep_frame e' e'' \<Longrightarrow> ep_frame e e''"
  unfolding ep_frame_def using snd_frame_trans rcv_frame_trans by blast

lemma ep_frame_refl [simp]: "ep_frame e e"
  by (simp add: ep_frame_def rcv_frame_def)

lemma ep_frame_rcv: "rcv_frame (ep_rcv e) r \<Longrightarrow> ep_frame e (e\<lparr>ep_rcv := r\<rparr>)"
  by (simp add: ep_frame_def)

lemma ep_frame_snd: "snd_frame (ep_snd e) s \<Longrightarrow> ep_frame e (e\<lparr>ep_snd := s\<rparr>)"
  by (simp add: ep_frame_def rcv_frame_def)

lemma UpdateControl_frame: "ep_frame e (UpdateControl p e)"
  by (simp add: UpdateControl_def ep_frame_def rcv_frame_def snd_frame_def Let_def)

lemma ack_frame:
  assumes "event \<noteq> EventData"
  shows "ep_frame e (ack now seqno pack event e)"
proof -
  define e1 where "e1 = (case pack of None \<Rightarrow> e | Some p \<Rightarrow> UpdateControl p e)"
  have 1: "ep_frame e e1"
    by (simp add: e1_def UpdateControl_frame split: option.split)
  have 2: "ep_frame e1 (ack now seqno pack event e)"
    unfolding ack_def Let_def e1_def [symmetric] using assms by (intro ep_frame_snd queue_ack_frame) simp
  show ?thesis using 1 2 by (rule ep_frame_trans)
qed

lemma ack_after:
  "event \<noteq> EventData \<Longrightarrow> ep_frame e e1 \<Longrightarrow> ep_frame e (ack_consumed now pack event e1)"
  unfolding ack_consumed_def using ack_frame ep_frame_trans by blast

lemma doTcpAction_frame: "doTcpAction now act p e = Some (ev, e') \<Longrightarrow> ep_frame e e'"
  by (auto simp: doTcpAction_def Let_def rcv_frame_def split: TcpAction.splits if_splits intro!: ack_after ep_frame_rcv)

lemma setupRetry_frame: "rcv_frame r (setupRetry now pre post p act r)"
  by (simp add: setupRetry_def rcv_frame_def)

lemma tcp_event_frame: "tcp_event now ev p e = Some (n, e') \<Longrightarrow> ep_frame e e'"
proof -
  assume t: "tcp_event now ev p e = Some (n, e')"
  obtain post act where u: "UpdateTcp (r_TcpState (ep_rcv e)) ev (pk_FromTcpState p) = (post, act)" by fastforce
  define e1 where "e1 = upd_rcv (\<lambda>r. r\<lparr>r_TcpState := post\<rparr>) e"
  define e2 where "e2 = (if r_TcpState (ep_rcv e) \<noteq> post then upd_rcv (setupRetry now (r_TcpState (ep_rcv e)) post p act) e1 else e1)"
  have "ep_frame e e1"
    unfolding e1_def by (rule ep_frame_rcv) (simp add: rcv_frame_def)
  moreover have "ep_frame e1 e2"
    unfolding e2_def by (auto intro: ep_frame_rcv setupRetry_frame)
  moreover have "doTcpAction now act p e2 = Some (n, e')"
    using t unfolding tcp_event_def Let_def u e2_def e1_def by (simp split: if_splits)
  ultimately show ?thesis
    using doTcpAction_frame ep_frame_trans by blast
qed

lemma tcp_events_frame: "tcp_events now p e = Some e' \<Longrightarrow> ep_frame e e'"
  by (auto simp: tcp_events_def split: option.splits if_splits prod.splits dest: tcp_event_frame intro: ep_frame_trans)

lemma stop_if_closed_frame: "ep_frame e (stop_if_closed e)"
  by (auto simp: stop_if_closed_def rcv_frame_def intro!: ep_frame_rcv)

lemma retryCheck_frame: "retryCheck now e = Some e' \<Longrightarrow> ep_frame e e'"
proof -
  assume t: "retryCheck now e = Some e'"
  have *: "ep_frame e (upd_rcv f e2)"
    if "doTcpAction now act p (e\<lparr>ep_rcv := r\<rparr>) = Some (n, e2)" "rcv_frame (ep_rcv e) r" "\<And>r. rcv_frame r (f r)" for act p r n e2 f
    using doTcpAction_frame [OF that(1)] ep_frame_rcv [OF that(2)] ep_frame_rcv [OF that(3)] ep_frame_trans by blast
  show ?thesis
    using t unfolding retryCheck_def Let_def
    by (auto simp: rcv_frame_def split: if_splits option.splits intro!: ep_frame_rcv *)
qed

lemma connect_request_frame:
  "connect_request dest e = (out, e') \<Longrightarrow> ep_frame e e' \<and> (\<forall>p \<in> set out. pk_TcpEvent p \<noteq> EventData)"
  by (auto simp: connect_request_def Let_def rcv_frame_def split: if_splits intro!: ep_frame_rcv)

lemma lock_on_frame: "rcv_frame r (lock_on p r)"
  by (simp add: lock_on_def rcv_frame_def)

lemma note_largest_frame: "note_largest p r = Some r' \<Longrightarrow> rcv_frame r r'"
  by (auto simp: note_largest_def rcv_frame_def split: if_splits)

text \<open>The receiving of a packet: bookkeeping that touches nothing of the window, then the data.\<close>

lemma recv_packet_frame:
  assumes "recv_packet E now p e = Some e'"
  shows "ep_frame e e' \<or>
    pk_TcpEvent p = EventData \<and> (\<exists>e1. ep_frame e e1 \<and> recv_data now (p\<lparr>pk_ArrivedAtDestTm := now\<rparr>) e1 = Some e')"
proof -
  define r where "r = lock_on p (ep_rcv e)"
  define q where "q = p\<lparr>pk_ArrivedAtDestTm := now\<rparr>"
  have r: "rcv_frame (ep_rcv e) r" by (simp add: r_def lock_on_frame)
  have ev: "pk_TcpEvent q = pk_TcpEvent p" by (simp add: q_def)
  show ?thesis
  proof (cases "for_session E p r")
    case False
    then show ?thesis
      using assms ep_frame_rcv [OF r] by (simp add: recv_packet_def r_def [symmetric])
  next
    case True
    then obtain r1 s where
      n: "note_largest q r = Some r1" and
      g: "gotPack E now (CopyPacketSansData q) (ep_snd (UpdateControl q (e\<lparr>ep_rcv := r1\<rparr>))) = Some s"
      using assms by (auto simp: recv_packet_def Let_def r_def [symmetric] q_def [symmetric] split: option.splits)
    define e2 where "e2 = UpdateControl q (e\<lparr>ep_rcv := r1\<rparr>)"
    have "ep_frame e (e\<lparr>ep_rcv := r1\<rparr>)"
      using r note_largest_frame [OF n] rcv_frame_trans ep_frame_rcv by blast
    then have "ep_frame e e2"
      unfolding e2_def using UpdateControl_frame ep_frame_trans by blast
    then have f: "ep_frame e (e2\<lparr>ep_snd := s\<rparr>)"
      using gotPack_frame [OF g] ep_frame_snd ep_frame_trans unfolding e2_def by blast
    have "(if pk_TcpEvent p \<noteq> EventData then map_option stop_if_closed (tcp_events now q (e2\<lparr>ep_snd := s\<rparr>))
           else recv_data now q (e2\<lparr>ep_snd := s\<rparr>)) = Some e'"
      using assms True n g by (simp add: recv_packet_def Let_def r_def [symmetric] q_def [symmetric] e2_def ev split: if_splits)
    then show ?thesis
      using f tcp_events_frame stop_if_closed_frame ep_frame_trans unfolding q_def [symmetric]
      by (cases "pk_TcpEvent p = EventData") (simp_all, blast+)
  qed
qed

section \<open>In-order delivery\<close>

definition rx_ok :: "bytes list \<Rightarrow> RecvState \<Rightarrow> nat \<Rightarrow> bool" where
  "rx_ok h r i \<longleftrightarrow>
     (rx_Received (r_Rxq r ! i) \<longrightarrow>
        pk_TcpEvent (rx_Pack (r_Rxq r ! i)) = EventData \<and> data_ok h (rx_Pack (r_Rxq r ! i)) \<and>
        r_NextFrameExpected r \<le> pk_SeqNum (rx_Pack (r_Rxq r ! i)) \<and>
        pk_SeqNum (rx_Pack (r_Rxq r ! i)) < r_NextFrameExpected r + r_RecvWindowSize r \<and>
        i = rx_index r (pk_SeqNum (rx_Pack (r_Rxq r ! i))))"

definition rcv_ok :: "bytes list \<Rightarrow> bytes \<Rightarrow> RecvState \<Rightarrow> bool" where
  "rcv_ok h got r \<longleftrightarrow>
     0 < r_RecvWindowSize r \<and> r_RecvWindowSize r = int (length (r_Rxq r)) \<and>
     r_NextFrameExpected r = int (length (r_RecvHistory r)) \<and> length (r_RecvHistory r) \<le> length h \<and>
     (\<forall>i < length (r_Rxq r). rx_ok h r i) \<and>
     concat (take (length (r_RecvHistory r)) h) = got @ concat (map unread (r_ReadyForDelivery r))"

lemma rcv_frame_ok: "rcv_frame r r' \<Longrightarrow> rcv_ok h got r \<Longrightarrow> rcv_ok h got r'"
proof -
  assume f: "rcv_frame r r'" and ok: "rcv_ok h got r"
  have "rx_ok h r' = rx_ok h r"
    using f by (simp add: fun_eq_iff rcv_frame_def rx_ok_def rx_index_def)
  then show ?thesis
    using f ok unfolding rcv_frame_def rcv_ok_def by metis
qed

lemma rcv_okD:
  assumes "rcv_ok h got r"
  shows "0 < r_RecvWindowSize r" "r_RecvWindowSize r = int (length (r_Rxq r))"
    "r_NextFrameExpected r = int (length (r_RecvHistory r))" "length (r_RecvHistory r) \<le> length h"
    "i < length (r_Rxq r) \<Longrightarrow> rx_ok h r i"
    "concat (take (length (r_RecvHistory r)) h) = got @ concat (map unread (r_ReadyForDelivery r))"
  using assms unfolding rcv_ok_def by blast+

lemma rcv_ok_append: "rcv_ok h got r \<Longrightarrow> rcv_ok (h @ k) got r"
  by (auto simp: rcv_ok_def rx_ok_def data_ok_append)

lemma window_unique:
  fixes a b n w :: int
  assumes "n \<le> a" "a < n + w" "n \<le> b" "b < n + w" "a mod w = b mod w"
  shows "a = b"
proof -
  have "w dvd a - b" using assms(5) by (simp add: mod_eq_dvd_iff)
  moreover have "\<bar>a - b\<bar> < w" using assms(1-4) by linarith
  ultimately show ?thesis using dvd_imp_le_int [of "a - b" w] by (cases "a = b") simp_all
qed

lemma rx_index_inj:
  assumes "0 < r_RecvWindowSize r" "n \<le> a" "a < n + r_RecvWindowSize r" "n \<le> b" "b < n + r_RecvWindowSize r"
    "rx_index r a = rx_index r b"
  shows "a = b"
  using assms window_unique [of n a "r_RecvWindowSize r" b]
  by (simp add: rx_index_def nat_eq_iff2)

lemma rx_index_less: "rcv_ok h got r \<Longrightarrow> rx_index r n < length (r_Rxq r)"
  by (auto simp: rcv_ok_def rx_index_def nat_less_iff)

definition deliver_one :: "RecvState \<Rightarrow> RecvState" where
  "deliver_one r =
     (let i = rx_index r (r_NextFrameExpected r); p = rx_Pack (r_Rxq r ! i)
      in r\<lparr>r_ReadyForDelivery := r_ReadyForDelivery r @ [p], r_RecvHistory := r_RecvHistory r @ [p],
           r_Rxq := (r_Rxq r)[i := \<lparr>rx_Received = False, rx_Pack = no_Packet\<rparr>],
           r_NextFrameExpected := r_NextFrameExpected r + 1\<rparr>)"

lemma deliver_one_ok:
  assumes ok: "rcv_ok h got r" and rx: "rx_Received (r_Rxq r ! rx_index r (r_NextFrameExpected r))"
  shows "rcv_ok h got (deliver_one r)"
proof -
  define n where "n = r_NextFrameExpected r"
  define i where "i = rx_index r n"
  define p where "p = rx_Pack (r_Rxq r ! i)"
  define k where "k = length (r_RecvHistory r)"
  have w: "0 < r_RecvWindowSize r" and nk: "n = int k"
    using rcv_okD [OF ok] by (simp_all add: n_def k_def)
  have il: "i < length (r_Rxq r)" unfolding i_def using ok by (rule rx_index_less)
  then have "rx_ok h r i" by (rule rcv_okD(5) [OF ok])
  then have p: "pk_TcpEvent p = EventData" "data_ok h p" "n \<le> pk_SeqNum p" "pk_SeqNum p < n + r_RecvWindowSize r"
      "i = rx_index r (pk_SeqNum p)"
    using rx by (simp_all add: rx_ok_def p_def i_def n_def)
  have "rx_index r (pk_SeqNum p) = rx_index r n"
    by (rule trans [OF p(5) [symmetric] i_def])
  then have seq: "pk_SeqNum p = n"
    using w by (intro rx_index_inj [OF w p(3,4)]) simp_all
  then have d: "k < length h" "pk_Data p = h ! k" "unread p = pk_Data p"
    using p(1,2) nk by (simp_all add: data_ok_def unread_def)
  have one: "r_Rxq (deliver_one r) = (r_Rxq r)[i := \<lparr>rx_Received = False, rx_Pack = no_Packet\<rparr>]"
      "r_NextFrameExpected (deliver_one r) = n + 1" "r_RecvWindowSize (deliver_one r) = r_RecvWindowSize r"
      "r_RecvHistory (deliver_one r) = r_RecvHistory r @ [p]" "r_ReadyForDelivery (deliver_one r) = r_ReadyForDelivery r @ [p]"
    by (simp_all add: deliver_one_def Let_def p_def i_def n_def)
  have index: "rx_index (deliver_one r) m = rx_index r m" for m
    by (simp add: rx_index_def one)
  have other: "rx_ok h (deliver_one r) j" if "j < length (r_Rxq r)" for j
  proof (cases "j = i")
    case True
    then show ?thesis
      using il by (simp add: rx_ok_def one)
  next
    case False
    then have same: "r_Rxq (deliver_one r) ! j = r_Rxq r ! j" by (simp add: one)
    have ok_j: "rx_ok h r j" using that by (rule rcv_okD(5) [OF ok])
    then have "pk_SeqNum (rx_Pack (r_Rxq r ! j)) \<noteq> n" if "rx_Received (r_Rxq r ! j)"
      using that False unfolding rx_ok_def i_def by metis
    then show ?thesis
      using ok_j unfolding rx_ok_def same index one(2,3) n_def [symmetric] by auto
  qed
  show ?thesis
    using rcv_okD(1,2,6) [OF ok] other d nk unfolding rcv_ok_def one
    by (simp add: k_def [symmetric] take_Suc_conv_app_nth)
qed

lemma deliver_loop_ok: "rcv_ok h got r \<Longrightarrow> rcv_ok h got (deliver_loop r)"
proof (induction r rule: deliver_loop.induct)
  case (1 r)
  show ?case
  proof (cases "rx_index r (r_NextFrameExpected r) < length (r_Rxq r) \<and> rx_Received (r_Rxq r ! rx_index r (r_NextFrameExpected r))")
    case True
    then have "rcv_ok h got (deliver_one r)" using deliver_one_ok 1(2) by blast
    then have "rcv_ok h got (deliver_loop (deliver_one r))"
      using 1(1) [OF refl True refl] by (simp add: deliver_one_def Let_def)
    then show ?thesis
      using True by (subst deliver_loop.simps) (simp add: deliver_one_def Let_def)
  next
    case False
    then show ?thesis using 1(2) by (subst deliver_loop.simps) (auto simp: Let_def)
  qed
qed

lemma store_ok:
  assumes ok: "rcv_ok h got r" and p: "pk_TcpEvent p = EventData" "data_ok h p"
    and win: "r_NextFrameExpected r \<le> pk_SeqNum p" "pk_SeqNum p < r_NextFrameExpected r + r_RecvWindowSize r"
  shows "rcv_ok h got (r\<lparr>r_Rxq := (r_Rxq r)[rx_index r (pk_SeqNum p) := \<lparr>rx_Received = True, rx_Pack = p\<rparr>]\<rparr>)" (is "rcv_ok _ _ ?r")
proof -
  have "rx_ok h ?r j" if "j < length (r_Rxq r)" for j
  proof (cases "j = rx_index r (pk_SeqNum p)")
    case True
    then show ?thesis using p win that by (simp add: rx_ok_def) (simp add: rx_index_def)
  next
    case False
    moreover have "rx_ok h r j" using that by (rule rcv_okD(5) [OF ok])
    ultimately show ?thesis by (simp add: rx_ok_def rx_index_def)
  qed
  then show ?thesis
    using rcv_okD(1-4,6) [OF ok] unfolding rcv_ok_def by simp
qed

lemma recv_data_ok:
  assumes r: "recv_data now p e = Some e'" and ok: "rcv_ok h got (ep_rcv e)" and p: "pk_TcpEvent p = EventData" "data_ok h p"
  shows "snd_frame (ep_snd e) (ep_snd e') \<and> rcv_ok h got (ep_rcv e')"
proof -
  define r1 where "r1 = (if pk_SeqNum p \<ge> r_NextFrameExpected (ep_rcv e)
    then (ep_rcv e)\<lparr>r_RcvdButNotConsumed := AList.update (pk_SeqNum p) p (r_RcvdButNotConsumed (ep_rcv e))\<rparr> else ep_rcv e)"
  define r2 where "r2 = r1\<lparr>r_Rxq := (r_Rxq r1)[rx_index r1 (pk_SeqNum p) := \<lparr>rx_Received = True, rx_Pack = p\<rparr>]\<rparr>"
  have f1: "rcv_frame (ep_rcv e) r1" by (simp add: r1_def rcv_frame_def)
  then have ok1: "rcv_ok h got r1" using ok by (rule rcv_frame_ok)
  show ?thesis
  proof (cases "InWindow (pk_SeqNum p) (r_NextFrameExpected r1) (r_NextFrameExpected r1 + r_RecvWindowSize r1 - 1)")
    case False
    then have e': "e' = ack_consumed now (Some p) EventDataAck (e\<lparr>ep_rcv := r1\<lparr>r_DiscardCount := r_DiscardCount r1 + 1\<rparr>\<rparr>)"
      using r by (simp add: recv_data_def Let_def r1_def [symmetric] split: if_splits)
    have "rcv_frame (ep_rcv e) (r1\<lparr>r_DiscardCount := r_DiscardCount r1 + 1\<rparr>)"
      using f1 by (simp add: rcv_frame_def)
    then have "ep_frame e e'"
      unfolding e' by (intro ack_after ep_frame_rcv) simp_all
    then show ?thesis
      using rcv_frame_ok [OF _ ok] by (simp add: ep_frame_def)
  next
    case True
    then have ok2: "rcv_ok h got r2"
      unfolding r2_def by (intro store_ok ok1 p) (auto simp: InWindow_def split: if_splits)
    have "e' = e\<lparr>ep_rcv := r2\<rparr> \<or>
      e' = e\<lparr>ep_rcv := deliver_loop r2, ep_snd := (ep_snd e)\<lparr>s_recvLastFrameClientConsumed := r_LastFrameClientConsumed (deliver_loop r2)\<rparr>\<rparr>"
      using r True by (auto simp: recv_data_def Let_def r1_def [symmetric] r2_def [symmetric] split: if_splits)
    then show ?thesis
      using ok2 deliver_loop_ok [OF ok2] by (auto simp: snd_frame_def)
  qed
qed

text \<open>Consuming moves bytes from the queue of ready frames to the application.\<close>

definition consumes :: "RecvState \<Rightarrow> bytes \<Rightarrow> RecvState \<Rightarrow> bool" where
  "consumes r got r' \<longleftrightarrow>
     r_RecvWindowSize r' = r_RecvWindowSize r \<and> r_Rxq r' = r_Rxq r \<and> r_NextFrameExpected r' = r_NextFrameExpected r \<and>
     r_RecvHistory r' = r_RecvHistory r \<and>
     concat (map unread (r_ReadyForDelivery r)) = got @ concat (map unread (r_ReadyForDelivery r'))"

lemma consumes_ok: "consumes r got r' \<Longrightarrow> rcv_ok h g r \<Longrightarrow> rcv_ok h (g @ got) r'"
proof -
  assume f: "consumes r got r'" and ok: "rcv_ok h g r"
  have "rx_ok h r' = rx_ok h r"
    using f by (simp add: fun_eq_iff consumes_def rx_ok_def rx_index_def)
  then show ?thesis
    using f ok unfolding consumes_def rcv_ok_def by (metis append.assoc)
qed

lemma consumes_frame: "consumes r got r1 \<Longrightarrow> rcv_frame r1 r2 \<Longrightarrow> consumes r got r2"
  by (simp add: consumes_def rcv_frame_def)

lemma deliver_consumes:
  assumes "deliver now e = (ps, e')"
  shows "snd_frame (ep_snd e) (ep_snd e') \<and> consumes (ep_rcv e) (concat (map unread ps)) (ep_rcv e')"
proof (cases "r_ReadyForDelivery (ep_rcv e) = []")
  case True
  then show ?thesis using assms by (auto simp: deliver_def consumes_def)
next
  case False
  define ready where "ready = r_ReadyForDelivery (ep_rcv e)"
  define r1 where "r1 = (ep_rcv e)\<lparr>
    r_RcvdButNotConsumed := fold (\<lambda>p m. AList.delete (pk_SeqNum p) m) ready (r_RcvdButNotConsumed (ep_rcv e)),
    r_LastMsgConsumed := pk_SeqNum (last ready), r_LastByteConsumed := pk_CumulBytesTransmitted (last ready),
    r_ReadyForDelivery := [], r_LastFrameClientConsumed := pk_SeqNum (last ready)\<rparr>"
  have d: "ps = ready" "e' = ack_consumed now (Some (last ready)) EventDataAck (e\<lparr>ep_rcv := r1\<rparr>)"
    using assms False by (auto simp: deliver_def Let_def ready_def [symmetric] r1_def [symmetric])
  have "ep_frame (e\<lparr>ep_rcv := r1\<rparr>) e'"
    unfolding d(2) by (rule ack_after) simp_all
  moreover have "consumes (ep_rcv e) (concat (map unread ps)) r1"
    by (simp add: consumes_def r1_def d(1) ready_def)
  ultimately show ?thesis
    using consumes_frame by (simp add: ep_frame_def)
qed

lemma fill_loop_consumes: "fill_loop n r = (got, lp, r') \<Longrightarrow> consumes r got r'"
proof (induction n r arbitrary: got lp r' rule: fill_loop.induct)
  case (1 n r)
  show ?case
  proof (cases "r_ReadyForDelivery r")
    case Nil
    then show ?thesis using 1(2) by (subst (asm) fill_loop.simps) (simp add: consumes_def)
  next
    case (Cons pk pks)
    define rest where "rest = drop (pk_DataOffset pk) (pk_Data pk)"
    define r1 where "r1 = r\<lparr>r_ReadyForDelivery := pks, r_RcvdButNotConsumed := AList.delete (pk_SeqNum pk) (r_RcvdButNotConsumed r),
      r_LastMsgConsumed := pk_SeqNum pk, r_LastFrameClientConsumed := pk_SeqNum pk, r_LastByteConsumed := pk_CumulBytesTransmitted pk\<rparr>"
    show ?thesis
    proof (cases "length rest \<le> n")
      case True
      have c: "consumes r rest r1" by (simp add: consumes_def r1_def Cons unread_def rest_def)
      show ?thesis
      proof (cases "n - length rest = 0")
        case z: True
        then show ?thesis
          using 1(2) c True by (subst (asm) fill_loop.simps) (simp add: Cons Let_def rest_def [symmetric] r1_def [symmetric])
      next
        case nz: False
        obtain more q r2 where m: "fill_loop (n - length rest) r1 = (more, q, r2)" by (metis prod_cases3)
        have "consumes r1 more r2"
          using 1(1) [OF Cons rest_def refl refl refl _ r1_def] m True nz by simp
        moreover have "got = rest @ more" "r' = r2"
          using 1(2) m True nz by (subst (asm) fill_loop.simps; simp add: Cons Let_def rest_def [symmetric] r1_def [symmetric])+
        ultimately show ?thesis using c by (simp add: consumes_def)
      qed
    next
      case False
      have "got = take n rest" "r_ReadyForDelivery r' = pk\<lparr>pk_DataOffset := pk_DataOffset pk + n\<rparr> # pks"
        "consumes (r\<lparr>r_ReadyForDelivery := []\<rparr>) [] (r'\<lparr>r_ReadyForDelivery := []\<rparr>)"
        using 1(2) False by (subst (asm) fill_loop.simps; simp add: Cons Let_def rest_def [symmetric] min_def consumes_def; fastforce)+
      then show ?thesis
        by (simp add: consumes_def Cons unread_def rest_def add.commute) (metis append.assoc append_take_drop_id drop_drop)
    qed
  qed
qed

lemma fillAsMuch_consumes:
  assumes "fillAsMuchAsPossible now n e = (got, e')"
  shows "snd_frame (ep_snd e) (ep_snd e') \<and> consumes (ep_rcv e) got (ep_rcv e')"
proof (cases "n = 0")
  case True
  then show ?thesis using assms by (auto simp: fillAsMuchAsPossible_def consumes_def)
next
  case False
  obtain lp r where f: "fill_loop n (ep_rcv e) = (got, lp, r)"
    and e': "e' = (case lp of None \<Rightarrow> e\<lparr>ep_rcv := r\<rparr> | Some p \<Rightarrow> ack_consumed now (Some p) EventDataAck (e\<lparr>ep_rcv := r\<rparr>))"
    using assms False by (auto simp: fillAsMuchAsPossible_def Let_def split: prod.splits)
  have "ep_frame (e\<lparr>ep_rcv := r\<rparr>) e'"
    unfolding e' by (cases lp) (auto intro: ack_after)
  then show ?thesis
    using fill_loop_consumes [OF f] consumes_frame by (simp add: ep_frame_def)
qed

end
