(* ===== verification/Swp_Props.thy ===== *)
theory Swp_Props
  imports Swp_Inv "HOL-Library.Sublist"
begin

text \<open>
  The properties of the sliding window protocol: what an application reads is a prefix of what
  the other one wrote, whatever the network does; a write is cut into packets without loss; and
  two behaviours of the code that its comments do not describe.
\<close>

section \<open>The invariant of a session\<close>

definition ep_ok :: "bytes list \<Rightarrow> bytes \<Rightarrow> Endpoint \<Rightarrow> bool" where
  "ep_ok h g e \<longleftrightarrow> snd_ok (ep_snd e) \<and> rcv_ok h g (ep_rcv e)"

definition good_step :: "bytes list \<Rightarrow> bytes \<Rightarrow> Endpoint \<Rightarrow> Packet list \<times> bytes \<times> Endpoint \<Rightarrow> bool" where
  "good_step h g e = (\<lambda>(out, got, e'). sends_ok (ep_snd e) (out, ep_snd e') \<and> rcv_ok h (g @ got) (ep_rcv e'))"

lemma good_frame:
  "ep_ok h g e \<Longrightarrow> ep_frame e e' \<Longrightarrow> \<forall>p \<in> set out. pk_TcpEvent p \<noteq> EventData \<Longrightarrow> good_step h g e (out, [], e')"
  unfolding good_step_def ep_ok_def ep_frame_def using sends_ok_frame rcv_frame_ok by auto

lemma good_quiet:
  "ep_ok h g e \<Longrightarrow> quiet x = Some r \<Longrightarrow> (\<And>e'. x = Some e' \<Longrightarrow> ep_frame e e') \<Longrightarrow> good_step h g e r"
  by (auto simp: quiet_def good_frame)

lemma good_sends: "ep_ok h g e \<Longrightarrow> with_snd e os = Some r \<Longrightarrow> sends_ok (ep_snd e) os \<Longrightarrow> good_step h g e r"
  by (auto simp: with_snd_def good_step_def ep_ok_def)

lemma good_control:
  "ep_ok h g e \<Longrightarrow> with_snd e os = Some r \<Longrightarrow>
   snd_frame (ep_snd e) (snd os) \<and> (\<forall>p \<in> set (fst os). pk_TcpEvent p \<noteq> EventData) \<Longrightarrow> good_step h g e r"
  by (rule good_sends) (auto simp: ep_ok_def sends_ok_frame [of _ "snd os" "fst os", simplified])

lemma good_consumes:
  "ep_ok h g e \<Longrightarrow> snd_frame (ep_snd e) (ep_snd e') \<and> consumes (ep_rcv e) got (ep_rcv e') \<Longrightarrow> good_step h g e ([], got, e')"
  unfolding good_step_def ep_ok_def using sends_ok_frame consumes_ok by auto

lemma good_recv:
  assumes ok: "ep_ok h g e" and net: "data_ok h p" and r: "recv_packet E now p e = Some e'"
  shows "good_step h g e ([], [], e')"
  using recv_packet_frame [OF r]
proof (elim disjE conjE exE)
  assume "ep_frame e e'"
  then show ?thesis using ok by (intro good_frame) simp_all
next
  fix e1 assume e1: "pk_TcpEvent p = EventData" "ep_frame e e1" "recv_data now (p\<lparr>pk_ArrivedAtDestTm := now\<rparr>) e1 = Some e'"
  have dp: "data_ok h (p\<lparr>pk_ArrivedAtDestTm := now\<rparr>)"
    using net by (auto intro: data_ok_fields)
  have f1: "snd_frame (ep_snd e) (ep_snd e1)" "rcv_ok h g (ep_rcv e1)"
    using e1(2) ok rcv_frame_ok by (auto simp: ep_frame_def ep_ok_def)
  have f2: "snd_frame (ep_snd e1) (ep_snd e') \<and> rcv_ok h g (ep_rcv e')"
    using e1(1) by (intro recv_data_ok [OF e1(3) f1(2) _ dp]) simp
  then have "snd_frame (ep_snd e) (ep_snd e')"
    using f1(1) snd_frame_trans by blast
  then show ?thesis
    using f2 ok sends_ok_frame by (simp add: good_step_def ep_ok_def)
qed

lemma good_send:
  assumes ok: "ep_ok h g e" and r: "ep_step E now (EvSend d) e = Some r"
  shows "good_step h g e r"
proof (cases "acceptSend (ep_snd e)")
  case True
  have "sends_ok (ep_snd e) (doOrigDataSend E now (new_data d (ep_snd e)) (ep_snd e))"
    using ok doOrigDataSend_ok [of "ep_snd e" "new_data d (ep_snd e)"] by (simp add: ep_ok_def new_data_def no_Packet_def)
  then show ?thesis
    using r True good_sends [OF ok] by (simp add: ep_step_def)
next
  case False
  then show ?thesis using r by (intro good_quiet [OF ok, of "Some e"]) (simp_all add: ep_step_def)
qed

lemma ep_step_ok:
  assumes step: "ep_step E now ev e = Some r" and ok: "ep_ok h g e" and net: "\<And>p. ev = EvRecv p \<Longrightarrow> data_ok h p"
  shows "good_step h g e r"
proof (cases ev)
  case (EvSend d)
  then show ?thesis using good_send ok step by blast
next
  case EvWake
  then show ?thesis using step ok good_sends [OF ok] regularIntervalWakeup_ok by (simp add: ep_step_def ep_ok_def)
next
  case (EvRecv p)
  then show ?thesis using step good_recv [OF ok net] by (auto simp: ep_step_def quiet_def)
next
  case EvDeliver
  then show ?thesis
    using step good_consumes [OF ok] deliver_consumes by (auto simp: ep_step_def split: prod.splits)
next
  case (EvRead n)
  then show ?thesis
    using step good_consumes [OF ok] fillAsMuch_consumes
    by (cases "fillAsMuchAsPossible now n e") (auto simp: ep_step_def)
next
  case EvSendAck
  then show ?thesis
    using step ok send_queued_ack_frame [of "ep_snd e"] by (intro good_control [OF ok, of "send_queued_ack (ep_snd e)"]) (simp_all add: ep_step_def ep_ok_def)
next
  case EvKeepAlive
  then show ?thesis
    using step doKeepAlive_frame by (intro good_control [OF ok, of "doKeepAlive now (r_TcpState (ep_rcv e)) (ep_snd e)"]) (simp_all add: ep_step_def)
next
  case EvClose
  then show ?thesis
    using step doSendClosing_frame by (intro good_control [OF ok, of "doSendClosing now (ep_snd e)"]) (simp_all add: ep_step_def)
next
  case EvRetryCheck
  then show ?thesis
    using step retryCheck_frame by (intro good_quiet [OF ok, of "retryCheck now e"]) (simp_all add: ep_step_def)
next
  case (EvConnect d)
  then show ?thesis
    using step good_frame [OF ok] connect_request_frame by (auto simp: ep_step_def split: prod.splits)
qed

text \<open>One direction of a session, and both.\<close>

definition link_ok :: "Endpoint \<Rightarrow> Packet list \<Rightarrow> Endpoint \<Rightarrow> bytes \<Rightarrow> bool" where
  "link_ok a net b got \<longleftrightarrow>
     snd_ok (ep_snd a) \<and> (\<forall>p \<in> set net. data_ok (sent (ep_snd a)) p) \<and> rcv_ok (sent (ep_snd a)) got (ep_rcv b)"

definition sys_ok :: "sys \<Rightarrow> bool" where
  "sys_ok y \<longleftrightarrow> link_ok (sy_A y) (sy_AB y) (sy_B y) (sy_readB y) \<and> link_ok (sy_B y) (sy_BA y) (sy_A y) (sy_readA y)"

lemma link_step:
  assumes ab: "link_ok a ab b gb" and ba: "link_ok b ba a ga"
    and step: "ep_step E now ev a = Some (out, got, a')" and net: "from_net ev ba"
  shows "link_ok a' (ab @ out) b gb \<and> link_ok b ba a' (ga @ got)"
proof -
  have "ep_ok (sent (ep_snd b)) ga a"
    using ab ba by (simp add: link_ok_def ep_ok_def)
  moreover have "data_ok (sent (ep_snd b)) p" if "ev = EvRecv p" for p
    using that net ba by (simp add: from_net_def link_ok_def)
  ultimately have g: "sends_ok (ep_snd a) (out, ep_snd a')" "rcv_ok (sent (ep_snd b)) (ga @ got) (ep_rcv a')"
    using ep_step_ok [OF step] by (auto simp: good_step_def)
  obtain k where "snd_ok (ep_snd a')" "sent (ep_snd a') = sent (ep_snd a) @ k" "\<forall>p \<in> set out. data_ok (sent (ep_snd a')) p"
    using g(1) by (auto simp: sends_ok_def)
  then show ?thesis
    using ab ba g(2) by (auto simp: link_ok_def data_ok_append rcv_ok_append)
qed

lemma NewSession_ok:
  assumes "NewSession c now nonce = Inr e"
  shows "snd_ok (ep_snd e)" "sent (ep_snd e) = []" "rcv_ok [] [] (ep_rcv e)"
proof -
  have "c_WindowMsgCount (session_defaults c) = c_WindowMsgCount c" "0 < c_WindowMsgCount c"
    using assms by (auto simp: NewSession_def session_defaults_def Let_def split: if_splits)
  then show "snd_ok (ep_snd e)" "sent (ep_snd e) = []" "rcv_ok [] [] (ep_rcv e)"
    using assms
    by (auto simp: NewSession_def Let_def NewSenderState_def NewRecvState_def snd_ok_def sent_def rcv_ok_def rx_ok_def data_ok_def
        no_Packet_def split: if_splits)
qed

interpretation session: inductive_invariant sys_init "sys_step E" sys_ok for E
proof
  show "sys_init y \<Longrightarrow> sys_ok y" for y
    by (auto simp: sys_init_def sys_ok_def link_ok_def NewSession_ok)
  show "sys_ok y'" if "sys_ok y" "sys_step E y ev y'" for y ev y'
    using that(2,1) by cases (auto simp: sys_ok_def dest: link_step)
qed

section \<open>In-order delivery\<close>

lemma link_prefix: "link_ok a net b got \<Longrightarrow> prefix got (written a)"
proof -
  assume l: "link_ok a net b got"
  define n where "n = length (r_RecvHistory (ep_rcv b))"
  have "concat (take n (sent (ep_snd a))) = got @ concat (map unread (r_ReadyForDelivery (ep_rcv b)))"
    using l unfolding link_ok_def n_def by (meson rcv_okD(6))
  moreover have "written a = concat (take n (sent (ep_snd a))) @ concat (drop n (sent (ep_snd a)))"
    by (simp add: written_def sent_def flip: concat_append map_append take_map drop_map)
  ultimately show ?thesis by simp
qed

text \<open>
  (C3) Whatever the network loses, delays, duplicates or reorders, and however the two ends
  interleave sends, retries, acknowledgements, reads, deliveries, connects and closes, the bytes
  an application has read are a prefix of the bytes the application at the other end has written.
\<close>

theorem stream_in_order:
  assumes "reachable sys_init (sys_step E) y"
  shows "prefix (sy_readB y) (written (sy_A y)) \<and> prefix (sy_readA y) (written (sy_B y))"
  using session.reachable_inv [OF assms] link_prefix by (auto simp: sys_ok_def)

text \<open>A small session: two ends with windows of two messages, and the opening of a connection.\<close>

definition pair_env :: swp_env where
  "pair_env = \<lparr>se_Blake2b = (\<lambda>d. d), se_AddSample = (\<lambda>_ r. r), se_DeadlineDur = (\<lambda>_ _. 500000000)\<rparr>"

definition demo_config :: "bytes \<Rightarrow> bytes \<Rightarrow> SessionConfig" where
  "demo_config me other = \<lparr>c_LocalInbox = me, c_DestInbox = other, c_WindowMsgCount = 2, c_WindowByteSz = - 1,
     c_KeepAliveInterval = 0, c_NumFailedKeepAlivesBeforeClosing = - 1\<rparr>"

definition demo_end :: "bytes \<Rightarrow> bytes \<Rightarrow> Endpoint" where
  "demo_end me other = (case NewSession (demo_config me other) 0 me of Inr e \<Rightarrow> e)"

definition pair_start :: sys where
  "pair_start = \<lparr>sy_A = demo_end ''a'' ''b'', sy_B = demo_end ''b'' ''a'', sy_AB = [], sy_BA = [], sy_readA = [], sy_readB = []\<rparr>"

definition demo_hello :: "(int \<times> bool \<times> (ep_event + nat)) list" where
  "demo_hello =
     [(0, True, Inl (EvConnect ''b'')), (0, False, Inr 0), (0, False, Inl EvSendAck), (0, True, Inr 0),
      (0, True, Inl EvSendAck), (0, False, Inr 1), (0, True, Inl (EvSend ''hi''))]"

lemma pair_start_init: "sys_init pair_start"
proof -
  have "NewSession (demo_config me other) 0 me = Inr (demo_end me other)" for me other
    by (simp add: NewSession_def demo_end_def demo_config_def Let_def)
  then show ?thesis unfolding sys_init_def pair_start_def sys.simps by blast
qed

lemma pair_reachable:
  "play pair_env script pair_start = Some y \<Longrightarrow> reachable sys_init (sys_step pair_env) y"
  by (erule play_reachable) (rule reachable.reach_init, rule pair_start_init)

lemma pair_outcome:
  "map_option f (play pair_env script pair_start) = Some v \<Longrightarrow> \<exists>y. reachable sys_init (sys_step pair_env) y \<and> f y = v"
  using pair_reachable by (cases "play pair_env script pair_start") auto

definition demo_read :: sys where
  "demo_read = the (play pair_env (demo_hello @ [(0, False, Inr 2), (0, False, Inl (EvRead 10))]) pair_start)"

lemma demo_read_facts:
  "play pair_env (demo_hello @ [(0, False, Inr 2), (0, False, Inl (EvRead 10))]) pair_start = Some demo_read"
  "sy_readB demo_read = ''hi''"
proof -
  have "map_option sy_readB (play pair_env (demo_hello @ [(0, False, Inr 2), (0, False, Inl (EvRead 10))]) pair_start) = Some ''hi''"
    by code_simp
  then show "play pair_env (demo_hello @ [(0, False, Inr 2), (0, False, Inl (EvRead 10))]) pair_start = Some demo_read"
    "sy_readB demo_read = ''hi''"
    unfolding demo_read_def by auto
qed

lemma stream_in_order_witness:
  "sy_readB demo_read = ''hi'' \<and> prefix (sy_readB demo_read) (written (sy_A demo_read)) \<and> prefix (sy_readA demo_read) (written (sy_B demo_read))"
  using stream_in_order [OF pair_reachable [OF demo_read_facts(1)]] demo_read_facts(2) by simp

section \<open>Retransmission\<close>

definition same_frame :: "Packet \<Rightarrow> Packet \<Rightarrow> bool" where
  "same_frame p q \<longleftrightarrow> pk_SeqNum q = pk_SeqNum p \<and> pk_Data q = pk_Data p \<and> pk_TcpEvent q = pk_TcpEvent p"

lemma retry_slot_same:
  assumes "retry_slot E now i (out, s) = (out', s')"
  shows "same_frame (tx_Pack (slot_at s j)) (tx_Pack (slot_at s' j))"
    "\<exists>p. out' = out @ [p] \<and> same_frame (tx_Pack (slot_at s i)) p"
proof -
  define p where "p = stamp now s ((tx_Pack (slot_at s i))\<lparr>pk_SeqRetry := pk_SeqRetry (tx_Pack (slot_at s i)) + 1\<rparr>)"
  obtain slot where s': "s_Txq s' = (s_Txq s)[i := slot]" "tx_Pack slot = p" and out: "out' = out @ [p]"
    using assms by (auto simp: retry_slot_def Let_def insert_slot_def p_def)
  have p: "same_frame (tx_Pack (slot_at s i)) p" by (simp add: same_frame_def p_def)
  then show "\<exists>p. out' = out @ [p] \<and> same_frame (tx_Pack (slot_at s i)) p" using out by blast
  show "same_frame (tx_Pack (slot_at s j)) (tx_Pack (slot_at s' j))"
    using p s' by (cases "j = i \<and> i < length (s_Txq s)") (auto simp: slot_at_def same_frame_def nth_list_update list_update_beyond)
qed

lemma retry_slots_send:
  assumes "fold (retry_slot E now) is (out, s) = (out', s')"
  shows "set out \<subseteq> set out' \<and> (\<forall>i \<in> set is. \<exists>p \<in> set out'. same_frame (tx_Pack (slot_at s i)) p)"
  using assms
proof (induction "is" arbitrary: out s)
  case (Cons i "is")
  obtain out1 s1 where r: "retry_slot E now i (out, s) = (out1, s1)" by fastforce
  then have "set out1 \<subseteq> set out'" "\<forall>j \<in> set is. \<exists>p \<in> set out'. same_frame (tx_Pack (slot_at s1 j)) p"
    using Cons.IH [of out1 s1] Cons.prems by auto
  moreover obtain p where "out1 = out @ [p]" "same_frame (tx_Pack (slot_at s i)) p"
    using retry_slot_same(2) [OF r] by blast
  moreover have "same_frame (tx_Pack (slot_at s j)) (tx_Pack (slot_at s1 j))" for j
    using retry_slot_same(1) [OF r] .
  ultimately show ?case
    by (fastforce simp: same_frame_def)
qed simp


definition demo_sent :: SenderState where
  "demo_sent = snd (doOrigDataSend pair_env 0 (new_data ''hi'' (ep_snd (demo_end ''a'' ''b''))) (ep_snd (demo_end ''a'' ''b'')))"


text \<open>
  (C35) The first frame can be given up for acknowledged although it never arrived. A receiver that
  has consumed nothing reports frame 0 as the last one consumed, and its first keep-alive makes
  the sender forget frame 0: there is a run after which the sender has written, the receiver
  still expects frame 0, and no wake-up at any time sends it again.
\<close>

theorem first_frame_forgotten:
  "\<exists>E y. reachable sys_init (sys_step E) y \<and> written (sy_A y) = ''hi'' \<and> r_NextFrameExpected (ep_rcv (sy_B y)) = 0 \<and>
     r_TcpState (ep_rcv (sy_A y)) = Established \<and> r_TcpState (ep_rcv (sy_B y)) = Established \<and>
     (\<forall>now. fst (regularIntervalWakeup E now (ep_snd (sy_A y))) = [])"
proof -
  have "map_option (\<lambda>y. (written (sy_A y), r_NextFrameExpected (ep_rcv (sy_B y)), r_TcpState (ep_rcv (sy_A y)), r_TcpState (ep_rcv (sy_B y)),
          s_ByDeadline (ep_snd (sy_A y))))
        (play pair_env (demo_hello @ [(1000000000, False, Inl EvKeepAlive), (1000000000, True, Inr 1)]) pair_start) =
      Some (''hi'', 0, Established, Established, [])"
    by code_simp
  from pair_outcome [OF this] obtain y where "reachable sys_init (sys_step pair_env) y"
    and y: "written (sy_A y) = ''hi''" "r_NextFrameExpected (ep_rcv (sy_B y)) = 0" "r_TcpState (ep_rcv (sy_A y)) = Established"
      "r_TcpState (ep_rcv (sy_B y)) = Established" "s_ByDeadline (ep_snd (sy_A y)) = []"
    by auto
  moreover have "fst (regularIntervalWakeup pair_env now (ep_snd (sy_A y))) = []" for now
    using y(5) by (simp add: regularIntervalWakeup_def deleteThroughDeadline_def Let_def)
  ultimately show ?thesis by blast
qed

section \<open>Connecting\<close>

text \<open>
  When both ends connect at the same time and the acknowledgement that should follow is
  lost, the retry of the end that waits panics: it repeats an action that insists that the
  other end's session nonce is not yet known.
\<close>

theorem simultaneous_open_panics:
  "\<exists>E y now. reachable sys_init (sys_step E) y \<and> r_TcpState (ep_rcv (sy_A y)) = SynReceived \<and> r_retryTimer (ep_rcv (sy_A y)) \<and>
     ep_step E now EvRetryCheck (sy_A y) = None"
proof -
  have "map_option (\<lambda>y. (r_TcpState (ep_rcv (sy_A y)), r_retryTimer (ep_rcv (sy_A y)), ep_step pair_env 2000000000 EvRetryCheck (sy_A y) = None))
        (play pair_env [(0, True, Inl (EvConnect ''b'')), (0, False, Inl (EvConnect ''a'')), (0, True, Inr 0)] pair_start) =
      Some (SynReceived, True, True)"
    by code_simp
  from pair_outcome [OF this] show ?thesis by auto
qed

section \<open>Writing\<close>

lemma concat_chunks: "concat (map (\<lambda>i. take k (drop (i * k) xs)) [0..<n]) = take (n * k) xs"
  by (induction n) (simp_all, metis add.commute take_add)

lemma chunk_is_take:
  assumes "0 < sz" "int i * sz \<le> int (length xs)"
  shows "take (nat (int64Min ((int i + 1) * sz) (int (length xs)) - int i * sz)) (drop (nat (int i * sz)) xs) =
    take (nat sz) (drop (i * nat sz) xs)"
proof -
  have n: "nat (int i * sz) = i * nat sz" using assms(1) by (simp add: nat_mult_distrib)
  have "length (drop (i * nat sz) xs) \<le> nat sz" if "int (length xs) \<le> (int i + 1) * sz"
    using that assms(1) n by (simp add: distrib_right)
  then show ?thesis
    using n assms by (cases "(int i + 1) * sz < int (length xs)")
      (simp add: int64Min_def distrib_right, simp add: int64Min_def nat_diff_distrib)
qed

lemma packet_size_bounds:
  assumes "1 \<le> c_WindowMsgCount cfg"
  shows "0 < packet_size (session_defaults cfg)" "packet_size (session_defaults cfg) \<le> 2 ^ 19"
  using assms by (auto simp: packet_size_def int64Min_def session_defaults_def Let_def)

lemma packet_count_bounds:
  assumes "0 < sz"
  shows "int i < packet_count (int n) sz \<Longrightarrow> int i * sz < int n" "int n \<le> packet_count (int n) sz * sz"
proof -
  define q where "q = int n div sz"
  have q: "q * sz \<le> int n" "int n < q * sz + sz"
    using pos_mod_bound [OF assms, of "int n"] pos_mod_sign [OF assms, of "int n"] div_mult_mod_eq [of "int n" sz]
    unfolding q_def by linarith+
  have c: "packet_count (int n) sz = (if int n - q * sz > 0 then q + 1 else q)"
    by (simp add: packet_count_def q_def Let_def)
  show "int n \<le> packet_count (int n) sz * sz" using q by (auto simp: c distrib_right)
  show "int i * sz < int n" if "int i < packet_count (int n) sz"
  proof (cases "int i < q")
    case True
    then have "(int i + 1) * sz \<le> q * sz" using assms by (intro mult_right_mono) simp_all
    then show ?thesis using q assms by (simp add: distrib_right)
  next
    case False
    then show ?thesis using that by (auto simp: c split: if_splits)
  qed
qed

text \<open>
  (C31) A write is cut into packets without loss: the payloads of the packets, in the order they
  are pushed, are the bytes written; none is empty and none is longer than 512 kilobytes.
\<close>

theorem write_roundtrip:
  assumes "1 \<le> c_WindowMsgCount cfg"
  shows "concat (write_chunks (session_defaults cfg) payload) = payload \<and>
    list_all (\<lambda>c. 0 < length c \<and> length c \<le> 2 ^ 19) (write_chunks (session_defaults cfg) payload)"
proof (cases "payload = []")
  case True
  then show ?thesis by (simp add: write_chunks_def)
next
  case False
  define sz where "sz = packet_size (session_defaults cfg)"
  define n where "n = nat (packet_count (int (length payload)) sz)"
  have sz: "0 < sz" "sz \<le> 2 ^ 19" using packet_size_bounds [OF assms] by (simp_all add: sz_def)
  have below: "int i * sz < int (length payload)" if "i < n" for i
    using that packet_count_bounds(1) [OF sz(1)] by (simp add: n_def)
  have "write_chunks (session_defaults cfg) payload = map (\<lambda>i. take (nat sz) (drop (i * nat sz) payload)) [0..<n]"
    using False chunk_is_take [OF sz(1) less_imp_le [OF below]]
    by (simp add: write_chunks_def Let_def sz_def [symmetric] n_def [symmetric])
  moreover have "packet_count (int (length payload)) sz * sz \<le> int n * sz"
    using sz(1) by (intro mult_right_mono) (simp_all add: n_def)
  then have "int (length payload) \<le> int n * sz"
    using packet_count_bounds(2) [OF sz(1), of "length payload"] by linarith
  then have "int (length payload) \<le> int (n * nat sz)" using sz(1) by simp
  then have "length payload \<le> n * nat sz" by (simp only: of_nat_le_iff)
  moreover have "i * nat sz < length payload" if "i < n" for i
    using below [OF that] sz(1) by (simp flip: of_nat_less_iff [where 'a = int])
  ultimately show ?thesis
    using sz by (auto simp: concat_chunks list_all_iff not_le [symmetric])
qed

definition demo_small :: SessionConfig where
  "demo_small = (demo_config ''a'' ''b'')\<lparr>c_WindowByteSz := 2\<rparr>"

lemma write_roundtrip_witness:
  "write_chunks (session_defaults demo_small) ''hello'' = [''he'', ''ll'', ''o''] \<and>
   concat (write_chunks (session_defaults demo_small) ''hello'') = ''hello''"
proof
  show "write_chunks (session_defaults demo_small) ''hello'' = [''he'', ''ll'', ''o'']" by code_simp
  show "concat (write_chunks (session_defaults demo_small) ''hello'') = ''hello''"
    using write_roundtrip [of demo_small "''hello''"] by (simp add: demo_small_def demo_config_def)
qed

section \<open>Flow control\<close>

text \<open>
  When the consumer has taken all that was received, the receiver advertises room for one
  byte more than its window holds: the count of consumed bytes is used as the position of the
  last one.
\<close>

theorem advertises_one_byte_too_many:
  assumes "deliver now e = (ps, e')" "ps \<noteq> []" "pk_CumulBytesTransmitted (last ps) = r_MaxCumulBytesTrans (ep_rcv e)"
  shows "r_LastAvailReaderBytesCap (ep_rcv e') = r_RecvWindowSizeBytes (ep_rcv e') + 1"
  using assms by (auto simp: deliver_def Let_def ack_consumed_def ack_def UpdateControl_def split: if_splits)

definition demo_ready :: Endpoint where
  "demo_ready = sy_B (the (play pair_env (demo_hello @ [(0, False, Inr 2)]) pair_start))"

lemma advertises_one_byte_too_many_witness:
  "r_LastAvailReaderBytesCap (ep_rcv (snd (deliver 0 demo_ready))) = r_RecvWindowSizeBytes (ep_rcv (snd (deliver 0 demo_ready))) + 1 \<and>
   r_RecvWindowSizeBytes (ep_rcv demo_ready) = 20480"
proof -
  have "fst (deliver 0 demo_ready) \<noteq> []" by code_simp
  moreover have "pk_CumulBytesTransmitted (last (fst (deliver 0 demo_ready))) = r_MaxCumulBytesTrans (ep_rcv demo_ready)" by code_simp
  moreover have "r_RecvWindowSizeBytes (ep_rcv demo_ready) = 20480" by code_simp
  ultimately show ?thesis
    using advertises_one_byte_too_many [of 0 demo_ready "fst (deliver 0 demo_ready)" "snd (deliver 0 demo_ready)"] by simp
qed

end
