(* ===== verification/Peer_Store.thy ===== *)
theory Peer_Store
  imports Prelude "HOL-Library.Char_ord" "HOL-Library.List_Lexorder" "HOL-Library.Product_Lexorder"
begin

text \<open>
  The checkpoints of a peer: the records of src/peer/api/api.go, the sorted inventory of inv.go,
  and the saver of boltsaver.go and compact.go.

  The database package is not part of the program. A database is an argument: a value of any type
  with the writing operations the saver calls, and the listing of its content that \<^verbatim>\<open>ForEach\<close>
  enumerates, which \<^verbatim>\<open>Bucket\<close> and \<^verbatim>\<open>Get\<close> look into. \<open>bolt_ok\<close> states what the package documents of
  them. The serialisation of records, generated by msgp, is an argument too.
\<close>

section \<open>Records\<close>

record KeyInv =
  ki_Key :: bytes
  ki_Who :: bytes
  ki_When :: int
  ki_Size :: int
  ki_Blake2b :: bytes
  ki_Val :: bytes

record BcastGetRequest =
  bg_FromID :: bytes
  bg_Key :: bytes
  bg_Who :: bytes
  bg_IncludeValue :: bool

record BcastGetReply =
  br_FromID :: bytes
  br_Ki :: "KeyInv option"
  br_Err :: bytes

record BcastSetRequest =
  bs_FromID :: bytes
  bs_Ki :: "KeyInv option"

section \<open>The inventory\<close>

definition bytes_Compare :: "bytes \<Rightarrow> bytes \<Rightarrow> int" where
  "bytes_Compare a b = (if a = b then 0 else if a < b then - 1 else 1)"

definition compare_ki :: "KeyInv \<Rightarrow> KeyInv \<Rightarrow> int" where
  "compare_ki a b =
     (let cmp = bytes_Compare (ki_Key a) (ki_Key b) in
      if cmp \<noteq> 0 then cmp
      else if ki_When a \<noteq> ki_When b then (if ki_When a < ki_When b then - 1 else 1)
      else if ki_Who a = ki_Who b then 0
      else if ki_Who a < ki_Who b then - 1 else 1)"

text \<open>The tree as the sequence of its items; an item that is there already is not replaced.\<close>

fun Upsert :: "KeyInv \<Rightarrow> KeyInv list \<Rightarrow> KeyInv list" where
  "Upsert j [] = [j]"
| "Upsert j (x # xs) =
     (if compare_ki j x < 0 then j # x # xs else if compare_ki j x = 0 then x # xs else x # Upsert j xs)"

fun deleteKi :: "KeyInv \<Rightarrow> KeyInv list \<Rightarrow> KeyInv list" where
  "deleteKi j [] = []"
| "deleteKi j (x # xs) =
     (if compare_ki j x < 0 then x # xs else if compare_ki j x = 0 then xs else x # deleteKi j xs)"

section \<open>The content of a database\<close>

datatype bolt_item = BVal bytes | BBucket nat "(bytes \<times> bolt_item) list"

fun put_sorted :: "bytes \<Rightarrow> 'v \<Rightarrow> (bytes \<times> 'v) list \<Rightarrow> (bytes \<times> 'v) list" where
  "put_sorted k v [] = [(k, v)]"
| "put_sorted k v ((k', v') # es) =
     (if k < k' then (k, v) # (k', v') # es else if k = k' then (k, v) # es else (k', v') # put_sorted k v es)"

text \<open>The entries of a bucket come in the order of their keys.\<close>

fun sorted_item :: "bolt_item \<Rightarrow> bool" where
  "sorted_item (BVal v) \<longleftrightarrow> True"
| "sorted_item (BBucket n es) \<longleftrightarrow> sorted_wrt (<) (map fst es) \<and> (\<forall>e \<in> set es. sorted_item (snd e))"

text \<open>The change \<open>f\<close> of the entries of the bucket at a path; \<open>None\<close> when there is no bucket.\<close>

fun at_path ::
  "(nat \<Rightarrow> (bytes \<times> bolt_item) list \<Rightarrow> (nat \<times> (bytes \<times> bolt_item) list) option) \<Rightarrow>
    bytes list \<Rightarrow> nat \<Rightarrow> (bytes \<times> bolt_item) list \<Rightarrow> (nat \<times> (bytes \<times> bolt_item) list) option" where
  "at_path f [] s es = f s es"
| "at_path f (p # ps) s es =
     (case map_of es p of
        Some (BBucket s' es') \<Rightarrow>
          (case at_path f ps s' es' of
             None \<Rightarrow> None
           | Some (s'', es'') \<Rightarrow> Some (s, put_sorted p (BBucket s'' es'') es))
      | _ \<Rightarrow> None)"

definition MaxKeySize :: int where "MaxKeySize = 32768"
definition MaxValueSize :: int where "MaxValueSize = 2147483646"

definition put_entry :: "bytes \<Rightarrow> bytes \<Rightarrow> nat \<Rightarrow> (bytes \<times> bolt_item) list \<Rightarrow> (nat \<times> (bytes \<times> bolt_item) list) option" where
  "put_entry k v s es =
     (if k = [] \<or> int (length k) > MaxKeySize \<or> int (length v) > MaxValueSize then None
      else case map_of es k of Some (BBucket _ _) \<Rightarrow> None | _ \<Rightarrow> Some (s, put_sorted k (BVal v) es))"

definition create_entry :: "bytes \<Rightarrow> nat \<Rightarrow> (bytes \<times> bolt_item) list \<Rightarrow> (nat \<times> (bytes \<times> bolt_item) list) option" where
  "create_entry k s es =
     (if k = [] \<or> map_of es k \<noteq> None then None else Some (s, put_sorted k (BBucket 0 []) es))"

record 'db bolt =
  bo_list :: "'db \<Rightarrow> (bytes \<times> bolt_item) list"
  bo_fresh :: 'db
  bo_CreateBucket :: "bytes list \<Rightarrow> bytes \<Rightarrow> 'db \<Rightarrow> 'db option"
  bo_SetSequence :: "bytes list \<Rightarrow> nat \<Rightarrow> 'db \<Rightarrow> 'db option"
  bo_Put :: "bytes list \<Rightarrow> bytes \<Rightarrow> bytes \<Rightarrow> 'db \<Rightarrow> 'db option"

definition bolt_ok :: "'db bolt \<Rightarrow> bool" where
  "bolt_ok B \<longleftrightarrow>
     bo_list B (bo_fresh B) = [] \<and>
     (\<forall>p k db. map_option (bo_list B) (bo_CreateBucket B p k db) =
        map_option snd (at_path (create_entry k) p 0 (bo_list B db))) \<and>
     (\<forall>p n db. p \<noteq> [] \<longrightarrow> map_option (bo_list B) (bo_SetSequence B p n db) =
        map_option snd (at_path (\<lambda>_ es. Some (n, es)) p 0 (bo_list B db))) \<and>
     (\<forall>p k v db. p \<noteq> [] \<longrightarrow> map_option (bo_list B) (bo_Put B p k v db) =
        map_option snd (at_path (put_entry k v) p 0 (bo_list B db))) \<and>
     (\<forall>db. sorted_item (BBucket 0 (bo_list B db)))"

text \<open>\<^verbatim>\<open>tx.Bucket(name)\<close>, and \<^verbatim>\<open>Get\<close> in it, which gives nil for a key that is not there or is a bucket.\<close>

definition bo_Bucket :: "'db bolt \<Rightarrow> bytes \<Rightarrow> 'db \<Rightarrow> (bytes \<times> bolt_item) list option" where
  "bo_Bucket B name db = (case map_of (bo_list B db) name of Some (BBucket _ es) \<Rightarrow> Some es | _ \<Rightarrow> None)"

definition bucket_Get :: "(bytes \<times> bolt_item) list \<Rightarrow> bytes \<Rightarrow> bytes" where
  "bucket_Get es k = (case map_of es k of Some (BVal v) \<Rightarrow> v | _ \<Rightarrow> [])"

section \<open>The saver\<close>

definition BoltDataBucketName :: bytes where "BoltDataBucketName = ''data''"
definition BoltMetaBucketName :: bytes where "BoltMetaBucketName = ''meta''"
definition BoltSizeBucketName :: bytes where "BoltSizeBucketName = ''size''"

lemmas bucket_names = BoltDataBucketName_def BoltMetaBucketName_def BoltSizeBucketName_def

text \<open>
  The database is the content of the file; \<open>sv_open\<close> is false when the field of the open database is
  nil.
\<close>

record 'db BoltSaver =
  sv_db :: 'db
  sv_open :: bool
  sv_whoami :: bytes
  sv_compactTxMaxSizeBytes :: int
  sv_numSetsBeforeCompact :: int
  sv_setCount :: int

text \<open>What the serialisation and the operating system contribute to one call.\<close>

record store_env =
  se_enc :: "KeyInv \<Rightarrow> bytes"
  se_dec :: "bytes \<Rightarrow> KeyInv option"
  se_blake :: "bytes \<Rightarrow> bytes"
  se_update :: bool
  se_stat :: bool
  se_open_dst :: bool
  se_commits :: "bool list"
  se_stat_dst :: bool
  se_rename :: bool
  se_reopen :: bool

datatype store_err = ErrNoBucket | ErrPut | ErrCommit | ErrNoKey | ErrDecode | ErrCompact | ErrReopen | ErrPath

datatype 'a store_res = SOk 'a | SErr store_err | SPanic

text \<open>\<^verbatim>\<open>db.Update\<close>: the changes of a function that fails, or whose commit fails, are rolled back.\<close>

definition bolt_Update :: "bool \<Rightarrow> ('db \<Rightarrow> store_err + 'db) \<Rightarrow> 'db \<Rightarrow> store_err option \<times> 'db" where
  "bolt_Update commits f db =
     (case f db of Inl e \<Rightarrow> (Some e, db) | Inr db' \<Rightarrow> if commits then (None, db') else (Some ErrCommit, db))"

definition CreateBucketIfNotExists :: "'db bolt \<Rightarrow> bytes \<Rightarrow> 'db \<Rightarrow> store_err + 'db" where
  "CreateBucketIfNotExists B name db =
     (if bo_Bucket B name db \<noteq> None then Inr db
      else case bo_CreateBucket B [] name db of None \<Rightarrow> Inl ErrPut | Some db' \<Rightarrow> Inr db')"

definition InitDbIfNeeded :: "'db bolt \<Rightarrow> bool \<Rightarrow> 'db \<Rightarrow> store_err option \<times> 'db" where
  "InitDbIfNeeded B commits db =
     bolt_Update commits (\<lambda>db.
       case CreateBucketIfNotExists B BoltDataBucketName db of Inl e \<Rightarrow> Inl e
       | Inr db1 \<Rightarrow> (case CreateBucketIfNotExists B BoltMetaBucketName db1 of Inl e \<Rightarrow> Inl e
         | Inr db2 \<Rightarrow> CreateBucketIfNotExists B BoltSizeBucketName db2)) db"

text \<open>The argument \<open>opened\<close> is the database that the file holds, \<open>None\<close> when it cannot be opened.\<close>

definition NewBoltSaver ::
  "'db bolt \<Rightarrow> bool \<Rightarrow> bytes \<Rightarrow> 'db option \<Rightarrow> bytes \<Rightarrow> int \<Rightarrow> store_err option \<times> 'db BoltSaver option" where
  "NewBoltSaver B commits filepath opened who numSets =
     (if filepath = [] then (Some ErrPath, None)
      else case opened of None \<Rightarrow> (Some ErrReopen, None)
      | Some db \<Rightarrow>
          let (err, db') = InitDbIfNeeded B commits db
          in (err, Some \<lparr>sv_db = db', sv_open = True, sv_whoami = who, sv_compactTxMaxSizeBytes = 1024 * 1024 * 4,
                sv_numSetsBeforeCompact = numSets, sv_setCount = 0\<rparr>))"

section \<open>Compaction\<close>

text \<open>The calls that \<open>walk\<close> makes: the path of the bucket, the key, the value unless it is a bucket, the sequence.\<close>

type_synonym walk_call = "bytes list \<times> bytes \<times> bytes option \<times> nat"

fun walkBucket :: "bytes list \<Rightarrow> nat \<Rightarrow> bytes \<times> bolt_item \<Rightarrow> walk_call list" where
  "walkBucket path s (k, BVal v) = [(path, k, Some v, s)]"
| "walkBucket path s (k, BBucket n es) =
     (path, k, None, n) # concat (map (walkBucket (path @ [k]) n) es)"

definition walk :: "'db bolt \<Rightarrow> 'db \<Rightarrow> walk_call list" where
  "walk B db = concat (map (walkBucket [] 0) (bo_list B db))"

text \<open>One call copied into the new database; a bucket keeps its sequence.\<close>

definition copy_call :: "'db bolt \<Rightarrow> walk_call \<Rightarrow> 'db \<Rightarrow> 'db option" where
  "copy_call B = (\<lambda>(path, k, v, s) db.
     case v of
       None \<Rightarrow> (case bo_CreateBucket B path k db of None \<Rightarrow> None | Some db' \<Rightarrow> bo_SetSequence B (path @ [k]) s db')
     | Some v \<Rightarrow> bo_Put B path k v db)"

text \<open>
  The copying in transactions of bounded size. The transaction is committed, with the next outcome
  of \<open>commits\<close>, when it would get too big, and at the end.
\<close>

fun compactInBatches :: "'db bolt \<Rightarrow> int \<Rightarrow> bool list \<Rightarrow> int \<Rightarrow> walk_call list \<Rightarrow> 'db \<Rightarrow> 'db option" where
  "compactInBatches B mx commits acc [] tx = (if commits = [] \<or> hd commits then Some tx else None)"
| "compactInBatches B mx commits acc ((path, k, v, s) # calls) tx =
     (let sz = int (length k) + int (length (case v of None \<Rightarrow> [] | Some v \<Rightarrow> v));
          full = acc + sz > mx \<and> mx \<noteq> 0
      in if full \<and> commits \<noteq> [] \<and> \<not> hd commits then None
         else case copy_call B (path, k, v, s) tx of
           None \<Rightarrow> None
         | Some tx' \<Rightarrow>
             compactInBatches B mx (if full then tl commits else commits) ((if full then 0 else acc) + sz) calls tx')"

text \<open>
  \<^verbatim>\<open>Compact\<close>: the old database is closed before the new file is renamed to its name, and opened
  again afterwards, also when renaming failed.
\<close>

definition reOpen :: "store_env \<Rightarrow> 'db BoltSaver \<Rightarrow> store_err option \<times> 'db BoltSaver" where
  "reOpen E b = (if se_reopen E then (None, b\<lparr>sv_open := True\<rparr>) else (Some ErrReopen, b))"

definition Compact :: "'db bolt \<Rightarrow> store_env \<Rightarrow> 'db BoltSaver \<Rightarrow> store_err option \<times> 'db BoltSaver" where
  "Compact B E b =
     (if \<not> se_stat E \<or> \<not> se_open_dst E then (Some ErrCompact, b)
      else case compactInBatches B (sv_compactTxMaxSizeBytes b) (se_commits E) 0 (walk B (sv_db b)) (bo_fresh B) of
        None \<Rightarrow> (Some ErrCompact, b)
      | Some dst \<Rightarrow>
          if \<not> se_stat_dst E then (Some ErrCompact, b)
          else
            let b1 = b\<lparr>sv_open := False\<rparr>
            in if \<not> se_rename E then (Some ErrCompact, snd (reOpen E b1))
               else reOpen E (b1\<lparr>sv_db := dst\<rparr>))"

section \<open>Setting and getting\<close>

text \<open>The fields of a checkpoint that the saver sets.\<close>

definition stamped :: "store_env \<Rightarrow> 'db BoltSaver \<Rightarrow> KeyInv \<Rightarrow> KeyInv" where
  "stamped E b ki = ki\<lparr>ki_Size := int (length (ki_Val ki)), ki_Blake2b := se_blake E (ki_Val ki), ki_Who := sv_whoami b\<rparr>"

definition set_tx :: "'db bolt \<Rightarrow> store_env \<Rightarrow> KeyInv \<Rightarrow> 'db \<Rightarrow> store_err + 'db" where
  "set_tx B E ki db =
     (if bo_Bucket B BoltMetaBucketName db = None then Inl ErrNoBucket
      else case bo_Put B [BoltMetaBucketName] (ki_Key ki) (se_enc E (ki\<lparr>ki_Val := []\<rparr>)) db of
        None \<Rightarrow> Inl ErrPut
      | Some db1 \<Rightarrow>
          if bo_Bucket B BoltDataBucketName db1 = None then Inl ErrNoBucket
          else case bo_Put B [BoltDataBucketName] (ki_Key ki) (ki_Val ki) db1 of
            None \<Rightarrow> Inl ErrPut | Some db2 \<Rightarrow> Inr db2)"

definition LocalSet :: "'db bolt \<Rightarrow> store_env \<Rightarrow> KeyInv \<Rightarrow> 'db BoltSaver \<Rightarrow> KeyInv store_res \<times> 'db BoltSaver" where
  "LocalSet B E ki b =
     (let ki1 = stamped E b ki in
      if \<not> sv_open b then (SPanic, b)
      else
        let (err, db) = bolt_Update (se_update E) (set_tx B E ki1) (sv_db b);
            b1 = b\<lparr>sv_db := db\<rparr>
        in case err of Some e \<Rightarrow> (SErr e, b1)
        | None \<Rightarrow>
            let n = sv_setCount b1 + 1;
                b2 = b1\<lparr>sv_setCount := n\<rparr>
            in if sv_numSetsBeforeCompact b2 > 0 \<and> (n mod sv_numSetsBeforeCompact b2 = 0 \<or> n = 1)
               then (let (e, b3) = Compact B E b2 in (case e of None \<Rightarrow> SOk ki1 | Some e \<Rightarrow> SErr e, b3))
               else (SOk ki1, b2))"

definition LocalGet :: "'db bolt \<Rightarrow> store_env \<Rightarrow> bytes \<Rightarrow> bool \<Rightarrow> 'db BoltSaver \<Rightarrow> KeyInv store_res" where
  "LocalGet B E key includeValue b =
     (if \<not> sv_open b then SPanic
      else case bo_Bucket B BoltMetaBucketName (sv_db b) of None \<Rightarrow> SErr ErrNoBucket
      | Some metabuck \<Rightarrow>
          let metabytes = bucket_Get metabuck key in
          if metabytes = [] then SErr ErrNoKey
          else case se_dec E metabytes of None \<Rightarrow> SErr ErrDecode
          | Some meta \<Rightarrow>
              let ki = \<lparr>ki_Key = key, ki_Who = sv_whoami b, ki_When = ki_When meta, ki_Size = ki_Size meta,
                        ki_Blake2b = ki_Blake2b meta, ki_Val = []\<rparr>
              in if \<not> includeValue then SOk ki
                 else case bo_Bucket B BoltDataBucketName (sv_db b) of None \<Rightarrow> SErr ErrNoBucket
                 | Some databuck \<Rightarrow> SOk (ki\<lparr>ki_Val := bucket_Get databuck key\<rparr>))"

end
