(* ===== verification/Peer_Transfer.thy ===== *)
theory Peer_Transfer
  imports Peer_Store
begin

text \<open>
  The transfer of a checkpoint between peers: the client of src/peer/gcli/client.go cuts the bytes
  into chunks with checksums, the server of src/peer/gserv/server.go checks them and puts them
  together. The stream of gRPC, the hash function and the serialisation are arguments; a hasher is
  the bytes that were written to it.
\<close>

section \<open>Chunks\<close>

record BigFileChunk =
  bc_Filepath :: bytes
  bc_SizeInBytes :: int
  bc_IsBcastSet :: bool
  bc_Blake2B :: bytes
  bc_Blake2BCumulative :: bytes
  bc_Data :: bytes
  bc_ChunkNumber :: int
  bc_IsLastChunk :: bool

record BigFileAck =
  ack_Filepath :: bytes
  ack_SizeInBytes :: int
  ack_WholeFileBlake2B :: bytes
  ack_failed :: bool

section \<open>The client\<close>

text \<open>
  The loop over the chunks: \<open>left\<close> chunks from number \<open>i\<close> on, with the position of the next byte and
  the bytes that the hasher has seen.
\<close>

fun send_loop :: "(bytes \<Rightarrow> bytes) \<Rightarrow> bytes \<Rightarrow> bool \<Rightarrow> nat \<Rightarrow> bytes \<Rightarrow> nat \<Rightarrow> nat \<Rightarrow> nat \<Rightarrow> nat \<Rightarrow> bytes \<Rightarrow> BigFileChunk list" where
  "send_loop blake path isSet mx data num 0 i nextByte hashed = []"
| "send_loop blake path isSet mx data num (Suc left) i nextByte hashed =
     (let sendLen = min mx (length data - i * mx);
          chunk = take sendLen (drop nextByte data);
          hashed' = hashed @ chunk
      in \<lparr>bc_Filepath = path, bc_SizeInBytes = int sendLen, bc_IsBcastSet = isSet, bc_Blake2B = blake chunk,
          bc_Blake2BCumulative = blake hashed', bc_Data = chunk, bc_ChunkNumber = int i, bc_IsLastChunk = (i = num - 1)\<rparr>
         # send_loop blake path isSet mx data num left (i + 1) (nextByte + sendLen) hashed')"

definition num_chunks :: "nat \<Rightarrow> nat \<Rightarrow> nat" where
  "num_chunks n mx = n div mx + (if n mod mx > 0 then 1 else 0)"

definition file_chunks :: "(bytes \<Rightarrow> bytes) \<Rightarrow> bytes \<Rightarrow> bool \<Rightarrow> nat \<Rightarrow> bytes \<Rightarrow> BigFileChunk list" where
  "file_chunks blake path isSet mx data =
     (let num = num_chunks (length data) mx in send_loop blake path isSet mx data num num 0 0 [])"

datatype send_res = SendOk | SendEOF | SendErr

datatype transfer = TOk | TErr | TPanic

text \<open>
  The sending of the chunks, with the outcomes of the calls; an end of the stream before the last
  chunk, and any other error, is a panic.
\<close>

fun send_all :: "send_res list \<Rightarrow> BigFileChunk list \<Rightarrow> bool \<times> BigFileChunk list" where
  "send_all rs [] = (True, [])"
| "send_all rs (nk # nks) =
     (case (if rs = [] then SendOk else hd rs) of
        SendOk \<Rightarrow> (let (ok, sent) = send_all (tl rs) nks in (ok, nk # sent))
      | SendEOF \<Rightarrow> (bc_IsLastChunk nk, [])
      | SendErr \<Rightarrow> (False, []))"

text \<open>The attempts to open the stream: six of them.\<close>

definition opens_stream :: "bool list \<Rightarrow> bool" where
  "opens_stream tries \<longleftrightarrow> True \<in> set (take 6 tries)"

definition runSendFile ::
  "(bytes \<Rightarrow> bytes) \<Rightarrow> bool list \<Rightarrow> send_res list \<Rightarrow> (BigFileChunk list \<Rightarrow> BigFileAck option) \<Rightarrow>
    bytes \<Rightarrow> bytes \<Rightarrow> nat \<Rightarrow> bool \<Rightarrow> transfer" where
  "runSendFile blake tries rs peer path data mx isSet =
     (if \<not> opens_stream tries then TErr
      else
        let (ok, sent) = send_all rs (file_chunks blake path isSet mx data) in
        if \<not> ok then TPanic
        else case peer sent of None \<Rightarrow> TErr
        | Some ack \<Rightarrow> if int (length data) \<noteq> ack_SizeInBytes ack then TPanic else TOk)"

definition chunkSz :: nat where "chunkSz = 1048576"

section \<open>The server\<close>

record recv_state =
  rv_path :: bytes
  rv_hashed :: bytes
  rv_bytesSeen :: int
  rv_first :: bool
  rv_isSet :: bool
  rv_all :: bytes

definition recv_start :: recv_state where
  "recv_start = \<lparr>rv_path = [], rv_hashed = [], rv_bytesSeen = 0, rv_first = True, rv_isSet = False, rv_all = []\<rparr>"

datatype stream_item = Chunk BigFileChunk | RecvErr

datatype recv_end =
    REof
  | RErr
  | RPanic
  | RSet BcastSetRequest
  | RGet BcastGetReply

record codec =
  cd_encSet :: "BcastSetRequest \<Rightarrow> bytes"
  cd_decSet :: "bytes \<Rightarrow> BcastSetRequest option"
  cd_encGet :: "BcastGetReply \<Rightarrow> bytes"
  cd_decGet :: "bytes \<Rightarrow> BcastGetReply option"

text \<open>The checks of one chunk, in their order: \<open>Inl\<close> ends the call.\<close>

definition recv_chunk :: "(bytes \<Rightarrow> bytes) \<Rightarrow> BigFileChunk \<Rightarrow> recv_state \<Rightarrow> (recv_end + recv_state) \<times> recv_state" where
  "recv_chunk blake nk st =
     (let st1 = (if rv_first st then st\<lparr>rv_isSet := bc_IsBcastSet nk, rv_first := False\<rparr> else st);
          st2 = st1\<lparr>rv_hashed := rv_hashed st1 @ bc_Data nk\<rparr>
      in if blake (rv_hashed st2) \<noteq> bc_Blake2BCumulative nk then (Inl RErr, st2)
         else
           let st3 = (if rv_path st2 = [] then st2\<lparr>rv_path := bc_Filepath nk\<rparr> else st2)
           in if rv_path st3 \<noteq> [] \<and> rv_path st3 \<noteq> bc_Filepath nk then (Inl RPanic, st3)
              else if bc_SizeInBytes nk \<noteq> int (length (bc_Data nk)) then (Inl RErr, st3)
              else if blake (bc_Data nk) \<noteq> bc_Blake2B nk then (Inl RErr, st3)
              else
                let st4 = st3\<lparr>rv_bytesSeen := rv_bytesSeen st3 + int (length (bc_Data nk)), rv_all := rv_all st3 @ bc_Data nk\<rparr>
                in (Inr st4, st4))"

text \<open>
  The end of a file: the log line reads the key of the request or of the reply, which is a nil
  pointer when the other side had nothing to send. The record is then handed to the peer over a
  channel, and the files are counted.
\<close>

definition recv_last :: "codec \<Rightarrow> recv_state \<Rightarrow> recv_end" where
  "recv_last D st =
     (if rv_isSet st
      then (case cd_decSet D (rv_all st) of None \<Rightarrow> RErr
            | Some req \<Rightarrow> if bs_Ki req = None then RPanic else RSet req)
      else (case cd_decGet D (rv_all st) of None \<Rightarrow> RErr
            | Some reply \<Rightarrow> if br_Ki reply = None then RPanic else RGet reply))"

fun recv_loop :: "(bytes \<Rightarrow> bytes) \<Rightarrow> codec \<Rightarrow> stream_item list \<Rightarrow> recv_state \<Rightarrow> recv_end \<times> recv_state" where
  "recv_loop blake D [] st = (REof, st)"
| "recv_loop blake D (RecvErr # items) st = (RErr, st)"
| "recv_loop blake D (Chunk nk # items) st =
     (case recv_chunk blake nk st of
        (Inl e, st') \<Rightarrow> (e, st')
      | (Inr st', _) \<Rightarrow> if bc_IsLastChunk nk then (recv_last D st', st') else recv_loop blake D items st')"

text \<open>The acknowledgement is sent on every return; a panic sends it too, while it unwinds.\<close>

definition SendFile :: "(bytes \<Rightarrow> bytes) \<Rightarrow> codec \<Rightarrow> stream_item list \<Rightarrow> recv_end \<times> BigFileAck" where
  "SendFile blake D items =
     (let (e, st) = recv_loop blake D items recv_start
      in (e, \<lparr>ack_Filepath = rv_path st, ack_SizeInBytes = rv_bytesSeen st,
              ack_WholeFileBlake2B = blake (rv_hashed st), ack_failed = (e = RErr)\<rparr>))"

section \<open>A transfer\<close>

text \<open>What a server has received when the stream ends or a last chunk comes.\<close>

lemma recv_chunk_ok:
  assumes "recv_chunk blake nk st = (Inr st', st'')"
  shows "rv_hashed st' = rv_hashed st @ bc_Data nk" "rv_all st' = rv_all st @ bc_Data nk"
    "rv_bytesSeen st' = rv_bytesSeen st + int (length (bc_Data nk))" "\<not> rv_first st'"
    "blake (rv_hashed st') = bc_Blake2BCumulative nk" "blake (bc_Data nk) = bc_Blake2B nk"
    "rv_isSet st' = (if rv_first st then bc_IsBcastSet nk else rv_isSet st)"
  using assms by (auto simp: recv_chunk_def Let_def split: if_splits)

lemma recv_chunk_good:
  assumes "bc_Blake2BCumulative nk = blake (rv_hashed st @ bc_Data nk)" "rv_path st = [] \<or> rv_path st = bc_Filepath nk"
    and "bc_SizeInBytes nk = int (length (bc_Data nk))" "bc_Blake2B nk = blake (bc_Data nk)"
  shows "\<exists>st'. recv_chunk blake nk st = (Inr st', st') \<and> rv_path st' = bc_Filepath nk"
  using assms by (auto simp: recv_chunk_def Let_def)

lemma send_loop_received:
  assumes "left > 0" "num = i + left" "nextByte = i * mx" "(num - 1) * mx < length data" "length data \<le> num * mx"
    and "hashed = take nextByte data" "rv_hashed st = hashed" "rv_all st = hashed" "rv_bytesSeen st = int (length hashed)"
    and "rv_path st = [] \<or> rv_path st = path" "rv_first st \<or> rv_isSet st = isSet"
  shows "\<exists>st'. recv_loop blake D (map Chunk (send_loop blake path isSet mx data num left i nextByte hashed)) st =
      (recv_last D st', st') \<and> rv_all st' = data \<and> rv_hashed st' = data \<and>
      rv_bytesSeen st' = int (length data) \<and> rv_isSet st' = isSet \<and> rv_path st' = path"
  using assms
proof (induction left arbitrary: i nextByte hashed st)
  case 0
  then show ?case by simp
next
  case (Suc left)
  let ?sl = "min mx (length data - i * mx)"
  let ?chunk = "take ?sl (drop nextByte data)"
  have "i * mx \<le> (num - 1) * mx" using Suc.prems(2) by simp
  then have pos: "i * mx < length data" using Suc.prems(4) by linarith
  have len: "length ?chunk = ?sl" using Suc.prems(3) by simp
  let ?nk = "\<lparr>bc_Filepath = path, bc_SizeInBytes = int ?sl, bc_IsBcastSet = isSet, bc_Blake2B = blake ?chunk,
    bc_Blake2BCumulative = blake (hashed @ ?chunk), bc_Data = ?chunk, bc_ChunkNumber = int i, bc_IsLastChunk = (i = num - 1)\<rparr>"
  obtain st1 where st1: "recv_chunk blake ?nk st = (Inr st1, st1)" "rv_path st1 = path"
    using recv_chunk_good [of ?nk blake st] Suc.prems(7,10) len by auto
  note r = recv_chunk_ok [OF st1(1)]
  have seen: "hashed @ ?chunk = take (nextByte + ?sl) data" using Suc.prems(6) by (simp add: take_add)
  show ?case
  proof (cases "left = 0")
    case True
    then have last: "i = num - 1" using Suc.prems(2) by simp
    then have "length data \<le> nextByte + mx" using Suc.prems(2,3,5) True by simp
    then have "hashed @ ?chunk = data" using seen Suc.prems(3) pos by simp
    then have all: "rv_all st1 = data" "rv_hashed st1 = data" using r(1,2) Suc.prems(7,8) by simp_all
    have "rv_bytesSeen st1 = int (length (rv_all st1))" using r(2,3) Suc.prems(8,9) by simp
    moreover have "rv_isSet st1 = isSet" using r(7) Suc.prems(11) by auto
    moreover have "recv_loop blake D (map Chunk (send_loop blake path isSet mx data num (Suc left) i nextByte hashed)) st =
        (recv_last D st1, st1)"
      using st1(1) last by (simp add: Let_def)
    ultimately show ?thesis using st1(2) all by metis
  next
    case False
    have "(i + 1) * mx \<le> (num - 1) * mx" using Suc.prems(2) False by (intro mult_le_mono1) simp
    then have full: "?sl = mx" using Suc.prems(4) by simp
    have "\<exists>st'. recv_loop blake D (map Chunk (send_loop blake path isSet mx data num left (i + 1) (nextByte + ?sl) (hashed @ ?chunk))) st1 =
      (recv_last D st', st') \<and> rv_all st' = data \<and> rv_hashed st' = data \<and>
      rv_bytesSeen st' = int (length data) \<and> rv_isSet st' = isSet \<and> rv_path st' = path"
    proof (rule Suc.IH)
      show "hashed @ ?chunk = take (nextByte + ?sl) data" by (rule seen)
      show "nextByte + ?sl = (i + 1) * mx" using Suc.prems(3) full by simp
      show "rv_first st1 \<or> rv_isSet st1 = isSet" using r(7) Suc.prems(11) by auto
      show "rv_hashed st1 = hashed @ ?chunk" "rv_all st1 = hashed @ ?chunk" using r(1,2) Suc.prems(7,8) by simp_all
      show "rv_bytesSeen st1 = int (length (hashed @ ?chunk))" using r(3) Suc.prems(9) by simp
      show "rv_path st1 = [] \<or> rv_path st1 = path" using st1(2) by simp
      show "num = i + 1 + left" "0 < left" using Suc.prems(2) False by simp_all
    qed (rule Suc.prems(4,5))+
    then show ?thesis using st1(1) False Suc.prems(2) by (simp add: Let_def)
  qed
qed

end
