(* ===== verification/Peer_Cluster.thy ===== *)
theory Peer_Cluster
  imports Peer_Transfer Proto_Args Health_Rank
begin

text \<open>
  The replication of checkpoints among the peers of a cluster (src/peer/peer.go and bcast.go): who
  leads and who follows, asking all peers for a key, finding the latest checkpoint, and sending a
  checkpoint to the followers. The messages of NATS that arrive during a call, the membership list
  that is seen, and the outcome of gRPC transfers are arguments.
\<close>

section \<open>Leader and followers\<close>

record LeadAndFollowList =
  lf_Members :: "AgentLoc list"
  lf_LeadID :: bytes
  lf_MyID :: bytes

record peerDetail =
  pd_loc :: AgentLoc
  pd_subj :: bytes

record clusterStatus =
  cs_follow :: "peerDetail list"
  cs_lead :: "peerDetail option"
  cs_myfollowSubj :: bytes
  cs_amLead :: bool

definition agentLoc2RecvCpSubj :: "AgentLoc \<Rightarrow> bytes" where
  "agentLoc2RecvCpSubj a =
     ''recv-chkpt;id:'' @ a_ID a @ '';nats-host:'' @ a_NatsHost a @ '';nats-client-port:'' @ fmt_int (a_NatsClientPort a) @
     '';rank:'' @ fmt_int (a_Rank a) @ '';pid:'' @ fmt_int (a_Pid a) @ '';grpc.ext='' @ hp_Host (External (a_Grpc a)) @
     '':'' @ fmt_int (hp_Port (External (a_Grpc a)))"

definition status_member :: "LeadAndFollowList \<Rightarrow> AgentLoc \<Rightarrow> clusterStatus \<Rightarrow> clusterStatus" where
  "status_member laf m cs =
     (let subj = agentLoc2RecvCpSubj m; d = \<lparr>pd_loc = m, pd_subj = subj\<rparr>
      in if a_ID m = lf_LeadID laf then cs\<lparr>cs_lead := Some d, cs_myfollowSubj := subj\<rparr>
         else let cs1 = cs\<lparr>cs_follow := cs_follow cs @ [d]\<rparr>
              in if a_ID m = lf_MyID laf then cs1\<lparr>cs_myfollowSubj := subj\<rparr> else cs1)"

definition list2status :: "LeadAndFollowList \<Rightarrow> clusterStatus \<times> bytes" where
  "list2status laf =
     (let cs = fold (status_member laf) (lf_Members laf)
        \<lparr>cs_follow = [], cs_lead = None, cs_myfollowSubj = [], cs_amLead = (lf_LeadID laf = lf_MyID laf)\<rparr>
      in (cs, cs_myfollowSubj cs))"

section \<open>Peers\<close>

record 'db Peer =
  p_loc :: AgentLoc
  p_saver :: "'db BoltSaver"
  p_lastSeen :: "(bytes \<times> AgentLoc) list"
  p_hostDbPath :: bytes

datatype 'a peer_res = PROk 'a | PRErr bytes | PRPanic

text \<open>\<open>None\<close> for the list is a time-out, or the channel of the shutdown.\<close>

definition AmFollow :: "LeadAndFollowList option \<Rightarrow> bool" where
  "AmFollow lafo = (case lafo of None \<Rightarrow> True | Some laf \<Rightarrow> lf_MyID laf \<noteq> lf_LeadID laf)"

text \<open>\<^verbatim>\<open>WaitForPeerCount\<close> over the lists that arrive before its time-out.\<close>

fun WaitForPeerCount :: "nat \<Rightarrow> LeadAndFollowList list \<Rightarrow> LeadAndFollowList peer_res" where
  "WaitForPeerCount n [] = PRErr ''timed out''"
| "WaitForPeerCount n (laf # lafs) = (if length (lf_Members laf) \<ge> n then PROk laf else WaitForPeerCount n lafs)"

section \<open>Asking the peers\<close>

text \<open>A peer answers a request that names nobody or names it, by its id or by the name of its saver.\<close>

definition ServerHandleBcastGet :: "'db bolt \<Rightarrow> store_env \<Rightarrow> BcastGetRequest \<Rightarrow> 'db Peer \<Rightarrow> BcastGetReply option peer_res" where
  "ServerHandleBcastGet B E bgr p =
     (if bg_Who bgr \<noteq> [] \<and> bg_Who bgr \<noteq> a_ID (p_loc p) \<and> bg_Who bgr \<noteq> sv_whoami (p_saver p) then PROk None
      else case LocalGet B E (bg_Key bgr) (bg_IncludeValue bgr) (p_saver p) of
        SPanic \<Rightarrow> PRPanic
      | SErr _ \<Rightarrow> PROk (Some \<lparr>br_FromID = a_ID (p_loc p), br_Ki = None, br_Err = ''does not exist''\<rparr>)
      | SOk ki \<Rightarrow> PROk (Some \<lparr>br_FromID = a_ID (p_loc p), br_Ki = Some (ki\<lparr>ki_Who := a_ID (p_loc p)\<rparr>), br_Err = []\<rparr>))"

datatype get_event = GReply BcastGetReply | GTimeout | GHalt

text \<open>
  The collection of \<open>n\<close> replies. An error of one peer ends it. Only the loop that waits for gRPC
  looks at the channel of the shutdown.
\<close>

fun collect :: "bool \<Rightarrow> nat \<Rightarrow> get_event list \<Rightarrow> KeyInv list \<Rightarrow> KeyInv list peer_res" where
  "collect grpc 0 evs tree = PROk tree"
| "collect grpc (Suc n) [] tree = PRErr ''timed out''"
| "collect grpc (Suc n) (GTimeout # evs) tree = PRErr ''timed out''"
| "collect grpc (Suc n) (GHalt # evs) tree = (if grpc then PRErr ''shutting down'' else collect grpc (Suc n) evs tree)"
| "collect grpc (Suc n) (GReply r # evs) tree =
     (if br_Err r \<noteq> [] then PRErr (br_Err r)
      else case br_Ki r of None \<Rightarrow> PRPanic | Some ki \<Rightarrow> collect grpc n evs (Upsert ki tree))"

text \<open>Without peers, and for a request to itself, a peer looks into its own saver.\<close>

definition local_get :: "'db bolt \<Rightarrow> store_env \<Rightarrow> bytes \<Rightarrow> bool \<Rightarrow> 'db Peer \<Rightarrow> KeyInv list peer_res" where
  "local_get B E key includeValue p =
     (case LocalGet B E key includeValue (p_saver p) of
        SOk ki \<Rightarrow> PROk [ki] | SErr _ \<Rightarrow> PRErr ''store'' | SPanic \<Rightarrow> PRPanic)"

definition ClientInitiateBcastGet ::
  "'db bolt \<Rightarrow> store_env \<Rightarrow> LeadAndFollowList option \<Rightarrow> get_event list \<Rightarrow> bytes \<Rightarrow> bool \<Rightarrow> bytes \<Rightarrow> 'db Peer \<Rightarrow>
    KeyInv list peer_res" where
  "ClientInitiateBcastGet B E peers evs key includeValue who p =
     (case peers of
        Some laf \<Rightarrow>
          if length (lf_Members laf) \<le> 1 \<or> who = a_ID (p_loc p)
          then local_get B E key includeValue p
          else collect includeValue (if who \<noteq> [] then 1 else length (lf_Members laf)) evs []
      | None \<Rightarrow>
          local_get B E key includeValue p)"

text \<open>The latest is the last of the sorted replies; its value is then fetched from the peer that has it.\<close>

definition GetLatest ::
  "'db bolt \<Rightarrow> store_env \<Rightarrow> LeadAndFollowList option \<Rightarrow> get_event list \<Rightarrow> LeadAndFollowList option \<Rightarrow> get_event list \<Rightarrow>
    bytes \<Rightarrow> bool \<Rightarrow> 'db Peer \<Rightarrow> KeyInv peer_res" where
  "GetLatest B E peers1 evs1 peers2 evs2 key includeValue p =
     (case ClientInitiateBcastGet B E peers1 evs1 key False [] p of
        PRErr e \<Rightarrow> PRErr e | PRPanic \<Rightarrow> PRPanic
      | PROk kis \<Rightarrow>
          if kis = [] then PRPanic
          else if \<not> includeValue then PROk (last kis)
          else case ClientInitiateBcastGet B E peers2 evs2 key True (ki_Who (last kis)) p of
            PRErr e \<Rightarrow> PRErr e | PRPanic \<Rightarrow> PRPanic
          | PROk kisData \<Rightarrow> if kisData = [] then PRPanic else PROk (hd kisData))"

section \<open>Setting a checkpoint everywhere\<close>

text \<open>
  The requests that are sent: one to each follower whose location is known. The errors of the
  transfers are not looked at.
\<close>

definition set_requests :: "BcastSetRequest \<Rightarrow> clusterStatus \<Rightarrow> 'db Peer \<Rightarrow> (bytes \<times> BcastSetRequest) list" where
  "set_requests req cs p =
     map (\<lambda>d. (a_ID (pd_loc d), req)) (filter (\<lambda>d. map_of (p_lastSeen p) (a_ID (pd_loc d)) \<noteq> None) (cs_follow cs))"

definition BcastSet ::
  "'db bolt \<Rightarrow> store_env \<Rightarrow> LeadAndFollowList option \<Rightarrow> KeyInv \<Rightarrow> 'db Peer \<Rightarrow>
    unit peer_res \<times> (bytes \<times> BcastSetRequest) list \<times> 'db Peer" where
  "BcastSet B E peers ki p =
     (let (r, b) = LocalSet B E ki (p_saver p); p1 = p\<lparr>p_saver := b\<rparr>
      in case r of SPanic \<Rightarrow> (PRPanic, [], p1) | SErr _ \<Rightarrow> (PRErr ''store'', [], p1)
         | SOk ki1 \<Rightarrow>
             (case peers of
                None \<Rightarrow> (PROk (), [], p1)
              | Some laf \<Rightarrow>
                  if length (lf_Members laf) \<le> 1 then (PROk (), [], p1)
                  else (PROk (), set_requests \<lparr>bs_FromID = lf_MyID laf, bs_Ki = Some ki1\<rparr> (fst (list2status laf)) p1, p1)))"

text \<open>The loop that writes what the server of gRPC received.\<close>

definition receive_set :: "'db bolt \<Rightarrow> store_env \<Rightarrow> BcastSetRequest \<Rightarrow> 'db Peer \<Rightarrow> KeyInv store_res \<times> 'db Peer" where
  "receive_set B E req p =
     (case bs_Ki req of None \<Rightarrow> (SPanic, p)
      | Some ki \<Rightarrow>
          if ki_Val ki = [] then (SPanic, p)
          else let (r, b) = LocalSet B E ki (p_saver p) in (r, p\<lparr>p_saver := b\<rparr>))"

definition LeadTransferCheckpoint ::
  "'db bolt \<Rightarrow> store_env \<Rightarrow> LeadAndFollowList option \<Rightarrow> LeadAndFollowList option \<Rightarrow> get_event list \<Rightarrow>
    LeadAndFollowList option \<Rightarrow> get_event list \<Rightarrow> bytes \<Rightarrow> bytes \<Rightarrow> int \<Rightarrow> 'db Peer \<Rightarrow>
    unit peer_res \<times> (bytes \<times> BcastSetRequest) list \<times> 'db Peer" where
  "LeadTransferCheckpoint B E lafo peers1 evs1 peers2 evs2 key chkptData when p =
     (case lafo of
        None \<Rightarrow> (PRErr ''shutting down'', [], p)
      | Some laf \<Rightarrow>
          if chkptData = [] then
            (case GetLatest B E peers1 evs1 peers2 evs2 key True p of
               PRErr e \<Rightarrow> (PRErr e, [], p) | PRPanic \<Rightarrow> (PRPanic, [], p)
             | PROk ki \<Rightarrow>
                 if ki_Who ki \<noteq> a_ID (p_loc p) \<and> ki_Who ki \<noteq> p_hostDbPath p
                 then (let (r, b) = LocalSet B E ki (p_saver p); p1 = p\<lparr>p_saver := b\<rparr>
                       in (case r of SOk _ \<Rightarrow> PROk () | SErr _ \<Rightarrow> PRErr ''store'' | SPanic \<Rightarrow> PRPanic, [], p1))
                 else (PROk (), [], p))
          else if lf_MyID laf \<noteq> lf_LeadID laf then (PRErr ''I am follower'', [], p)
          else BcastSet B E peers1
            \<lparr>ki_Key = key, ki_Who = [], ki_When = when, ki_Size = 0, ki_Blake2b = [], ki_Val = chkptData\<rparr> p)"

end
