(* ===== verification/Peer_Store_Props.thy ===== *)
theory Peer_Store_Props
  imports Peer_Store
begin

text \<open>
  The saver keeps what it is given: a checkpoint that was set is what is read back, whether or not
  the set compacted the database, and the other checkpoints stay as they are. The inventory is
  sorted, so that its last item is the newest.
\<close>

section \<open>Sorted entries\<close>

lemma map_of_put_sorted [simp]: "map_of (put_sorted k v es) = (map_of es)(k \<mapsto> v)"
  by (induction k v es rule: put_sorted.induct) (auto simp: fun_eq_iff)

lemma put_sorted_twice [simp]: "put_sorted k v (put_sorted k u es) = put_sorted k v es"
  by (induction k u es rule: put_sorted.induct) auto

lemma put_sorted_last: "\<forall>e \<in> set es. fst e < k \<Longrightarrow> put_sorted k v es = es @ [(k, v)]"
  by (induction es) auto

lemma set_put_sorted: "set (put_sorted k v es) \<subseteq> insert (k, v) (set es)"
  by (induction k v es rule: put_sorted.induct) auto

lemma keys_put_sorted: "fst ` set (put_sorted k v es) = insert k (fst ` set es)"
  by (induction k v es rule: put_sorted.induct) auto

lemma sorted_put_sorted: "sorted_wrt (<) (map fst es) \<Longrightarrow> sorted_wrt (<) (map fst (put_sorted k v es))"
proof (induction k v es rule: put_sorted.induct)
  case (2 k v k' v' es)
  have "\<forall>x \<in> fst ` set (put_sorted k v es). k' < x" if "k' < k"
    unfolding keys_put_sorted using 2 that by auto
  with 2 show ?case by auto
qed simp

lemma sorted_item_put:
  assumes "sorted_item (BBucket s es)" "sorted_item v"
  shows "sorted_item (BBucket s' (put_sorted k v es))"
  using assms set_put_sorted [of k v es] by (fastforce simp: sorted_put_sorted)

lemma at_path_sorted:
  assumes "sorted_item (BBucket s es)" "at_path f p s es = Some (s', es')"
    and "\<And>s es s' es'. sorted_item (BBucket s es) \<Longrightarrow> f s es = Some (s', es') \<Longrightarrow> sorted_item (BBucket s' es')"
  shows "sorted_item (BBucket s' es')"
  using assms(1,2)
proof (induction p arbitrary: s es s' es')
  case Nil
  then show ?case using assms(3) [of s es s' es'] by simp
next
  case (Cons q p)
  from Cons.prems(2) obtain s1 es1 s2 es2 where in1: "map_of es q = Some (BBucket s1 es1)"
      "at_path f p s1 es1 = Some (s2, es2)" "s' = s" "es' = put_sorted q (BBucket s2 es2) es"
    by (auto split: option.splits bolt_item.splits)
  have "sorted_item (BBucket s1 es1)" using Cons.prems(1) map_of_SomeD [OF in1(1)] by force
  from Cons.IH [OF this in1(2)] Cons.prems(1) show ?case
    unfolding in1(3,4) by (intro sorted_item_put)
qed

section \<open>What the database package promises\<close>

lemma bolt_okD:
  assumes "bolt_ok B"
  shows "bo_list B (bo_fresh B) = []"
    and "bo_CreateBucket B p k db = Some db' \<Longrightarrow> \<exists>s. at_path (create_entry k) p 0 (bo_list B db) = Some (s, bo_list B db')"
    and "p \<noteq> [] \<Longrightarrow> bo_SetSequence B p n db = Some db' \<Longrightarrow>
      \<exists>s. at_path (\<lambda>_ es. Some (n, es)) p 0 (bo_list B db) = Some (s, bo_list B db')"
    and "p \<noteq> [] \<Longrightarrow> bo_Put B p k v db = Some db' \<Longrightarrow> \<exists>s. at_path (put_entry k v) p 0 (bo_list B db) = Some (s, bo_list B db')"
    and "sorted_item (BBucket 0 (bo_list B db))"
proof -
  note laws = assms [unfolded bolt_ok_def]
  have pick: "\<exists>s. y = Some (s, g z)" if "map_option g x = map_option snd y" "x = Some z" for g x y z
    using that by (cases y) auto
  show "bo_list B (bo_fresh B) = []" by (rule laws [THEN conjunct1])
  show "bo_CreateBucket B p k db = Some db' \<Longrightarrow> \<exists>s. at_path (create_entry k) p 0 (bo_list B db) = Some (s, bo_list B db')"
    by (rule pick [OF laws [THEN conjunct2, THEN conjunct1, rule_format]])
  show "p \<noteq> [] \<Longrightarrow> bo_SetSequence B p n db = Some db' \<Longrightarrow>
      \<exists>s. at_path (\<lambda>_ es. Some (n, es)) p 0 (bo_list B db) = Some (s, bo_list B db')"
    by (rule pick [OF laws [THEN conjunct2, THEN conjunct2, THEN conjunct1, rule_format]])
  show "p \<noteq> [] \<Longrightarrow> bo_Put B p k v db = Some db' \<Longrightarrow> \<exists>s. at_path (put_entry k v) p 0 (bo_list B db) = Some (s, bo_list B db')"
    by (rule pick [OF laws [THEN conjunct2, THEN conjunct2, THEN conjunct2, THEN conjunct1, rule_format]])
  show "sorted_item (BBucket 0 (bo_list B db))"
    by (rule laws [THEN conjunct2, THEN conjunct2, THEN conjunct2, THEN conjunct2, rule_format])
qed

text \<open>A value put into a bucket of the root.\<close>

lemma Put_root:
  assumes "bolt_ok B" "bo_Put B [name] k v db = Some db'"
  shows "\<exists>n es. map_of (bo_list B db) name = Some (BBucket n es) \<and>
    bo_list B db' = put_sorted name (BBucket n (put_sorted k (BVal v) es)) (bo_list B db)"
  using bolt_okD(4) [OF assms(1) _ assms(2)]
  by (auto simp: put_entry_def split: option.splits bolt_item.splits if_splits)

lemma Create_root:
  assumes "bolt_ok B" "bo_CreateBucket B [] k db = Some db1" "bo_SetSequence B [k] n db1 = Some db2"
  shows "bo_list B db2 = put_sorted k (BBucket n []) (bo_list B db)"
proof -
  have "bo_list B db1 = put_sorted k (BBucket 0 []) (bo_list B db)"
    using bolt_okD(2) [OF assms(1,2)] by (auto simp: create_entry_def split: if_splits)
  then show ?thesis using bolt_okD(3) [OF assms(1) _ assms(3)] by auto
qed

section \<open>Compaction\<close>

fun copy_all :: "'db bolt \<Rightarrow> walk_call list \<Rightarrow> 'db \<Rightarrow> 'db option" where
  "copy_all B [] db = Some db"
| "copy_all B (c # cs) db = (case copy_call B c db of None \<Rightarrow> None | Some db' \<Rightarrow> copy_all B cs db')"

lemma copy_all_append:
  "copy_all B (xs @ ys) db = (case copy_all B xs db of None \<Rightarrow> None | Some db' \<Rightarrow> copy_all B ys db')"
  by (induction xs arbitrary: db) (auto split: option.split)

text \<open>Where the transactions are cut does not matter.\<close>

lemma compactInBatches_copies:
  "compactInBatches B mx commits acc calls tx = Some tx' \<Longrightarrow> copy_all B calls tx = Some tx'"
  by (induction B mx commits acc calls tx rule: compactInBatches.induct)
    (auto simp: Let_def split: if_splits option.splits)

definition flat :: "(bytes \<times> bolt_item) list \<Rightarrow> bool" where
  "flat es \<longleftrightarrow> (\<forall>e \<in> set es. \<exists>n vs. snd e = BBucket n vs \<and> (\<forall>x \<in> set vs. \<exists>v. snd x = BVal v))"

definition put_all :: "(bytes \<times> bolt_item) list \<Rightarrow> (bytes \<times> bolt_item) list \<Rightarrow> (bytes \<times> bolt_item) list" where
  "put_all vs es = fold (\<lambda>(k, i). put_sorted k i) vs es"

lemma put_all_sorted:
  "sorted_wrt (<) (map fst (es @ vs)) \<Longrightarrow> put_all vs es = es @ vs"
proof (induction vs arbitrary: es)
  case Nil
  then show ?case by (simp add: put_all_def)
next
  case (Cons x vs)
  obtain k i where x: "x = (k, i)" by fastforce
  have "put_sorted k i es = es @ [x]"
    using Cons.prems unfolding x by (intro put_sorted_last) (auto simp: sorted_wrt_append)
  then show ?case using Cons.IH [of "es @ [x]"] Cons.prems by (simp add: put_all_def x)
qed

lemma copy_values:
  assumes "bolt_ok B" "\<forall>x \<in> set vs. \<exists>v. snd x = BVal v"
    and "bo_list B db = put_sorted name (BBucket n es) es0"
    and "copy_all B (concat (map (walkBucket [name] n) vs)) db = Some db'"
  shows "bo_list B db' = put_sorted name (BBucket n (put_all vs es)) es0"
  using assms(2-4)
proof (induction vs arbitrary: db es)
  case Nil
  then show ?case by (simp add: put_all_def)
next
  case (Cons x vs)
  then obtain k v where x: "x = (k, BVal v)" by (cases x) auto
  from Cons.prems(3) x obtain db1 where db1: "bo_Put B [name] k v db = Some db1"
      "copy_all B (concat (map (walkBucket [name] n) vs)) db1 = Some db'"
    by (auto simp: copy_call_def split: option.splits)
  have "bo_list B db1 = put_sorted name (BBucket n (put_sorted k (BVal v) es)) es0"
    using Put_root [OF assms(1) db1(1)] Cons.prems(2) by auto
  from Cons.IH [OF _ this db1(2)] Cons.prems(1) show ?case by (simp add: put_all_def x)
qed

lemma copy_buckets:
  assumes "bolt_ok B" "flat es" "\<forall>e \<in> set es. sorted_item (snd e)"
    and "copy_all B (concat (map (walkBucket [] 0) es)) db = Some db'"
  shows "bo_list B db' = put_all es (bo_list B db)"
  using assms(2-4)
proof (induction es arbitrary: db)
  case Nil
  then show ?case by (simp add: put_all_def)
next
  case (Cons e es)
  from Cons.prems(1) obtain k n vs where e: "e = (k, BBucket n vs)" "\<forall>x \<in> set vs. \<exists>v. snd x = BVal v"
    by (cases e) (auto simp: flat_def)
  from Cons.prems(3) e obtain db1 db2 db3 where d: "bo_CreateBucket B [] k db = Some db1"
      "bo_SetSequence B [k] n db1 = Some db2" "copy_all B (concat (map (walkBucket [k] n) vs)) db2 = Some db3"
      "copy_all B (concat (map (walkBucket [] 0) es)) db3 = Some db'"
    by (auto simp: copy_call_def copy_all_append split: option.splits)
  have "put_all vs [] = vs" using Cons.prems(2) e put_all_sorted [of "[]" vs] by simp
  then have "bo_list B db3 = put_sorted k (BBucket n vs) (bo_list B db)"
    using copy_values [OF assms(1) e(2) Create_root [OF assms(1) d(1,2)] d(3)] by simp
  then show ?case using Cons.IH [OF _ _ d(4)] Cons.prems(1,2) by (simp add: flat_def put_all_def e(1))
qed

lemma compaction_keeps:
  assumes "bolt_ok B" "flat (bo_list B db)"
    and "compactInBatches B mx commits acc (walk B db) (bo_fresh B) = Some dst"
  shows "bo_list B dst = bo_list B db"
proof -
  have s: "sorted_item (BBucket 0 (bo_list B db))" by (rule bolt_okD(5) [OF assms(1)])
  have "bo_list B dst = put_all (bo_list B db) (bo_list B (bo_fresh B))"
    using compactInBatches_copies [OF assms(3)] s unfolding walk_def
    by (intro copy_buckets [OF assms(1,2)]) auto
  then show ?thesis using put_all_sorted [of "[]" "bo_list B db"] s bolt_okD(1) [OF assms(1)] by simp
qed



section \<open>Setting and getting\<close>

definition saver_ok :: "'db bolt \<Rightarrow> 'db BoltSaver \<Rightarrow> bool" where
  "saver_ok B b \<longleftrightarrow> sv_open b \<and> flat (bo_list B (sv_db b)) \<and>
     bo_Bucket B BoltDataBucketName (sv_db b) \<noteq> None \<and> bo_Bucket B BoltMetaBucketName (sv_db b) \<noteq> None"

lemma flat_put:
  assumes "flat es" "map_of es name = Some (BBucket n vs)"
  shows "flat (put_sorted name (BBucket n (put_sorted k (BVal v) vs)) es)"
proof -
  have "\<forall>x \<in> set vs. \<exists>v. snd x = BVal v" using assms(1) map_of_SomeD [OF assms(2)] by (force simp: flat_def)
  then have "\<forall>x \<in> set (put_sorted k (BVal v) vs). \<exists>v. snd x = BVal v" using set_put_sorted [of k "BVal v" vs] by auto
  then have "\<forall>e \<in> insert (name, BBucket n (put_sorted k (BVal v) vs)) (set es).
      \<exists>n vs. snd e = BBucket n vs \<and> (\<forall>x \<in> set vs. \<exists>v. snd x = BVal v)"
    using assms(1) by (simp add: flat_def)
  then show ?thesis unfolding flat_def using set_put_sorted by (meson subsetD)
qed

lemma Put_bucket:
  assumes "bolt_ok B" "flat (bo_list B db)" "bo_Put B [name] k v db = Some db'"
  shows "flat (bo_list B db')"
    and "bo_Bucket B other db' = (if other = name then map_option (put_sorted k (BVal v)) (bo_Bucket B name db) else bo_Bucket B other db)"
  using Put_root [OF assms(1,3)] flat_put [OF assms(2)] by (auto simp: bo_Bucket_def)

lemma set_tx_buckets:
  assumes "bolt_ok B" "flat (bo_list B db)" "set_tx B E ki db = Inr db'"
  shows "flat (bo_list B db')"
    and "bo_Bucket B BoltMetaBucketName db' =
      map_option (put_sorted (ki_Key ki) (BVal (se_enc E (ki\<lparr>ki_Val := []\<rparr>)))) (bo_Bucket B BoltMetaBucketName db)"
    and "bo_Bucket B BoltDataBucketName db' =
      map_option (put_sorted (ki_Key ki) (BVal (ki_Val ki))) (bo_Bucket B BoltDataBucketName db)"
proof -
  from assms(3) obtain db1 where p:
      "bo_Put B [BoltMetaBucketName] (ki_Key ki) (se_enc E (ki\<lparr>ki_Val := []\<rparr>)) db = Some db1"
      "bo_Put B [BoltDataBucketName] (ki_Key ki) (ki_Val ki) db1 = Some db'"
    by (auto simp: set_tx_def split: if_splits option.splits)
  note one = Put_bucket [OF assms(1,2) p(1)]
  note two = Put_bucket [OF assms(1) one(1) p(2)]
  have "BoltMetaBucketName \<noteq> BoltDataBucketName" by (simp add: bucket_names)
  then show "bo_Bucket B BoltMetaBucketName db' =
      map_option (put_sorted (ki_Key ki) (BVal (se_enc E (ki\<lparr>ki_Val := []\<rparr>)))) (bo_Bucket B BoltMetaBucketName db)"
    "bo_Bucket B BoltDataBucketName db' =
      map_option (put_sorted (ki_Key ki) (BVal (ki_Val ki))) (bo_Bucket B BoltDataBucketName db)"
    "flat (bo_list B db')"
    using one two by simp_all
qed

lemma Compact_sel:
  "sv_whoami (snd (Compact B E b)) = sv_whoami b"
  "fst (Compact B E b) = None \<Longrightarrow> sv_open (snd (Compact B E b))"
  by (auto simp: Compact_def reOpen_def Let_def split: option.split)

lemma bo_Bucket_cong: "bo_list B db' = bo_list B db \<Longrightarrow> bo_Bucket B name db' = bo_Bucket B name db"
  by (simp add: bo_Bucket_def)

text \<open>A set that succeeds leaves an open saver whose database has the transaction done.\<close>

lemma LocalSet_ok:
  assumes "bolt_ok B" "flat (bo_list B (sv_db b))" "LocalSet B E ki b = (SOk ki', b')"
  shows "ki' = stamped E b ki" "sv_open b'" "sv_whoami b' = sv_whoami b"
    and "\<exists>db. set_tx B E (stamped E b ki) (sv_db b) = Inr db \<and> bo_list B (sv_db b') = bo_list B db"
proof -
  let ?k = "stamped E b ki"
  from assms(3) obtain db where db: "set_tx B E ?k (sv_db b) = Inr db" and o: "sv_open b"
    by (auto simp: LocalSet_def Let_def bolt_Update_def split: if_splits sum.splits option.splits)
  define b2 where "b2 = b\<lparr>sv_db := db, sv_setCount := sv_setCount b + 1\<rparr>"
  have r: "ki' = ?k \<and> (b' = b2 \<or> fst (Compact B E b2) = None \<and> b' = snd (Compact B E b2))"
    using assms(3) db o unfolding b2_def
    by (auto simp: LocalSet_def Let_def bolt_Update_def split: if_splits option.splits prod.splits)
  have "flat (bo_list B (sv_db b2))" using set_tx_buckets(1) [OF assms(1,2) db] by (simp add: b2_def)
  from compaction_keeps [OF assms(1) this] have c: "bo_list B (sv_db (snd (Compact B E b2))) = bo_list B (sv_db b2)"
    by (auto simp: Compact_def reOpen_def Let_def split: option.split)
  have "sv_db b2 = db" "sv_open b2" "sv_whoami b2 = sv_whoami b" using o by (simp_all add: b2_def)
  with r c db Compact_sel [of B E b2] show "ki' = ?k" "sv_open b'" "sv_whoami b' = sv_whoami b"
    "\<exists>db. set_tx B E ?k (sv_db b) = Inr db \<and> bo_list B (sv_db b') = bo_list B db"
    by auto
qed

lemma stored_read_back:
  assumes "bolt_ok B" "saver_ok B b" "\<And>m. se_dec E (se_enc E m) = Some m" "\<And>m. se_enc E m \<noteq> []"
    and "LocalSet B E ki b = (SOk ki', b')"
  shows "ki' = stamped E b ki \<and> LocalGet B E (ki_Key ki) True b' = SOk ki' \<and> saver_ok B b' \<and>
    (\<forall>k v. k \<noteq> ki_Key ki \<longrightarrow> LocalGet B E k v b' = LocalGet B E k v b)"
proof -
  have ok: "sv_open b" "flat (bo_list B (sv_db b))" using assms(2) by (simp_all add: saver_ok_def)
  obtain dv mv where old: "bo_Bucket B BoltDataBucketName (sv_db b) = Some dv" "bo_Bucket B BoltMetaBucketName (sv_db b) = Some mv"
    using assms(2) by (auto simp: saver_ok_def)
  note r = LocalSet_ok [OF assms(1) ok(2) assms(5)]
  then obtain db where db: "set_tx B E ki' (sv_db b) = Inr db" "bo_list B (sv_db b') = bo_list B db" by auto
  note t = set_tx_buckets [OF assms(1) ok(2) db(1)]
  have key: "ki_Key ki' = ki_Key ki" "ki_Who ki' = sv_whoami b" using r(1) by (simp_all add: stamped_def)
  have new: "bo_Bucket B BoltDataBucketName (sv_db b') = Some (put_sorted (ki_Key ki) (BVal (ki_Val ki')) dv)"
    "bo_Bucket B BoltMetaBucketName (sv_db b') = Some (put_sorted (ki_Key ki) (BVal (se_enc E (ki'\<lparr>ki_Val := []\<rparr>))) mv)"
    using t(2,3) old key bo_Bucket_cong [OF db(2)] by simp_all
  have "LocalGet B E (ki_Key ki) True b' = SOk ki'"
    using new r(2,3) key assms(3,4) by (simp add: LocalGet_def bucket_Get_def Let_def)
  moreover have "LocalGet B E k v b' = LocalGet B E k v b" if "k \<noteq> ki_Key ki" for k v
    using that new old r(2,3) ok(1) by (auto simp: LocalGet_def bucket_Get_def Let_def split: option.split)
  moreover have "saver_ok B b'" using new r(2) t(1) db(2) by (simp add: saver_ok_def)
  ultimately show ?thesis using r(1) by blast
qed

text \<open>
  (C27) A checkpoint that was set, with or without a compaction on the way, is what is read back,
  stamped with its size, its checksum and the name of the saver. All other checkpoints are read as
  before, and the saver stays usable.
\<close>

theorem set_get_roundtrip:
  assumes "bolt_ok B" "saver_ok B b" "\<And>m. se_dec E (se_enc E m) = Some m" "\<And>m. se_enc E m \<noteq> []"
    and "LocalSet B E ki b = (SOk ki', b')"
  shows "ki' = stamped E b ki \<and> LocalGet B E (ki_Key ki) True b' = SOk ki' \<and> saver_ok B b' \<and>
    (\<forall>k v. k \<noteq> ki_Key ki \<longrightarrow> LocalGet B E k v b' = LocalGet B E k v b)"
  by (rule stored_read_back [OF assms])

section \<open>A database in memory\<close>

text \<open>The promises of the database package can be kept: the sorted listing itself is a database.\<close>

definition mem_list :: "(bytes \<times> bolt_item) list \<Rightarrow> (bytes \<times> bolt_item) list" where
  "mem_list es = (if sorted_item (BBucket 0 es) then es else [])"

definition mem_bolt :: "(bytes \<times> bolt_item) list bolt" where
  "mem_bolt =
     \<lparr>bo_list = mem_list, bo_fresh = [],
      bo_CreateBucket = (\<lambda>p k db. map_option snd (at_path (create_entry k) p 0 (mem_list db))),
      bo_SetSequence = (\<lambda>p n db. map_option snd (at_path (\<lambda>_ es. Some (n, es)) p 0 (mem_list db))),
      bo_Put = (\<lambda>p k v db. map_option snd (at_path (put_entry k v) p 0 (mem_list db)))\<rparr>"

lemma mem_list_sorted: "sorted_item (BBucket 0 (mem_list es))"
  by (simp add: mem_list_def)

lemma sorted_item_seq: "sorted_item (BBucket n es) = sorted_item (BBucket m es)"
  by simp

lemma mem_list_at_path:
  assumes "\<And>s es s' es'. sorted_item (BBucket s es) \<Longrightarrow> f s es = Some (s', es') \<Longrightarrow> sorted_item (BBucket s' es')"
  shows "map_option mem_list (map_option snd (at_path f p 0 (mem_list db))) = map_option snd (at_path f p 0 (mem_list db))"
proof (cases "at_path f p 0 (mem_list db)")
  case (Some r)
  obtain s es where "r = (s, es)" by fastforce
  with Some have "at_path f p 0 (mem_list db) = Some (s, es)" by simp
  then have "sorted_item (BBucket s es)" by (rule at_path_sorted [OF mem_list_sorted]) (rule assms)
  then have "mem_list es = es" using sorted_item_seq [of s es 0] by (simp add: mem_list_def del: sorted_item.simps)
  then show ?thesis using Some \<open>r = (s, es)\<close> by simp
qed simp

lemma create_sorted: "sorted_item (BBucket s es) \<Longrightarrow> create_entry k s es = Some (s', es') \<Longrightarrow> sorted_item (BBucket s' es')"
  using sorted_item_put [of s es "BBucket 0 []" s' k] by (auto simp: create_entry_def split: if_splits)

lemma put_entry_sorted: "sorted_item (BBucket s es) \<Longrightarrow> put_entry k v s es = Some (s', es') \<Longrightarrow> sorted_item (BBucket s' es')"
  using sorted_item_put [of s es "BVal v" s' k] by (auto simp: put_entry_def split: if_splits option.splits bolt_item.splits)

lemma mem_bolt_ok: "bolt_ok mem_bolt"
  unfolding bolt_ok_def
proof (intro conjI allI impI)
  show "bo_list mem_bolt (bo_fresh mem_bolt) = []" by (simp add: mem_bolt_def mem_list_def)
  show "sorted_item (BBucket 0 (bo_list mem_bolt db))" for db
    using mem_list_sorted by (simp add: mem_bolt_def del: sorted_item.simps)
  show "map_option (bo_list mem_bolt) (bo_CreateBucket mem_bolt p k db) =
      map_option snd (at_path (create_entry k) p 0 (bo_list mem_bolt db))" for p k db
    using mem_list_at_path [of "create_entry k" p db, OF create_sorted] by (simp add: mem_bolt_def)
  show "map_option (bo_list mem_bolt) (bo_SetSequence mem_bolt p n db) =
      map_option snd (at_path (\<lambda>_ es. Some (n, es)) p 0 (bo_list mem_bolt db))" for p n db
    using mem_list_at_path [of "\<lambda>_ es. Some (n, es)" p db] by (simp add: mem_bolt_def)
  show "map_option (bo_list mem_bolt) (bo_Put mem_bolt p k v db) =
      map_option snd (at_path (put_entry k v) p 0 (bo_list mem_bolt db))" for p k v db
    using mem_list_at_path [of "put_entry k v" p db, OF put_entry_sorted] by (simp add: mem_bolt_def)
qed


text \<open>The serialisation of the example writes the fields one after the other, each with its length in unary.\<close>

definition unary :: "nat \<Rightarrow> bytes" where
  "unary n = replicate n (CHR ''1'') @ ''0''"

definition read_unary :: "bytes \<Rightarrow> nat \<times> bytes" where
  "read_unary s = (length (takeWhile ((=) (CHR ''1'')) s), tl (dropWhile ((=) (CHR ''1'')) s))"

definition enc_field :: "bytes \<Rightarrow> bytes" where
  "enc_field f = unary (length f) @ f"

definition dec_field :: "bytes \<Rightarrow> bytes \<times> bytes" where
  "dec_field s = (let (n, r) = read_unary s in (take n r, drop n r))"

definition enc_int :: "int \<Rightarrow> bytes" where
  "enc_int i = unary (nat i) @ unary (nat (- i))"

definition dec_int :: "bytes \<Rightarrow> int \<times> bytes" where
  "dec_int s = (let (p, r) = read_unary s; (n, r') = read_unary r in (int p - int n, r'))"

lemma read_unary_unary: "read_unary (unary n @ r) = (n, r)"
  by (induction n) (simp_all add: read_unary_def unary_def)

lemma dec_enc: "dec_field (enc_field f @ r) = (f, r)" "dec_int (enc_int i @ r) = (i, r)"
  by (simp_all add: dec_field_def enc_field_def dec_int_def enc_int_def read_unary_unary)

definition enc_KeyInv :: "KeyInv \<Rightarrow> bytes" where
  "enc_KeyInv m = enc_field (ki_Key m) @ enc_field (ki_Who m) @ enc_int (ki_When m) @ enc_int (ki_Size m) @
     enc_field (ki_Blake2b m) @ enc_field (ki_Val m)"

definition dec_KeyInv :: "bytes \<Rightarrow> KeyInv option" where
  "dec_KeyInv s0 =
     (let (k, s1) = dec_field s0; (w, s2) = dec_field s1; (t, s3) = dec_int s2; (n, s4) = dec_int s3;
          (h, s5) = dec_field s4; (v, s6) = dec_field s5
      in Some \<lparr>ki_Key = k, ki_Who = w, ki_When = t, ki_Size = n, ki_Blake2b = h, ki_Val = v\<rparr>)"

lemma dec_enc_KeyInv: "dec_KeyInv (enc_KeyInv m) = Some m"
  using dec_enc(1) [of "ki_Val m" "[]"] by (simp add: dec_KeyInv_def enc_KeyInv_def dec_enc)

lemma enc_KeyInv_ne: "enc_KeyInv m \<noteq> []"
  by (simp add: enc_KeyInv_def enc_field_def unary_def)

definition demo_store_env :: store_env where
  "demo_store_env = \<lparr>se_enc = enc_KeyInv, se_dec = dec_KeyInv, se_blake = take 2, se_update = True, se_stat = True,
     se_open_dst = True, se_commits = [], se_stat_dst = True, se_rename = True, se_reopen = True\<rparr>"

text \<open>A new saver that compacts with every set.\<close>

definition demo_saver :: "(bytes \<times> bolt_item) list BoltSaver" where
  "demo_saver = the (snd (NewBoltSaver mem_bolt True ''p0.boltdb'' (Some []) ''p0'' 1))"

definition demo_ki :: KeyInv where
  "demo_ki = \<lparr>ki_Key = ''chk'', ki_Who = [], ki_When = 5, ki_Size = 0, ki_Blake2b = [], ki_Val = ''state''\<rparr>"

lemma demo_saver_ok: "saver_ok mem_bolt demo_saver"
proof -
  have "sv_open demo_saver" "bo_list mem_bolt (sv_db demo_saver) = [(''data'', BBucket 0 []), (''meta'', BBucket 0 []), (''size'', BBucket 0 [])]"
    by code_simp+
  then show ?thesis by (simp add: saver_ok_def flat_def bo_Bucket_def bucket_names)
qed


theorem set_get_roundtrip_witness:
  "\<exists>ki' b'. LocalSet mem_bolt demo_store_env demo_ki demo_saver = (SOk ki', b') \<and> ki' = stamped demo_store_env demo_saver demo_ki \<and>
     LocalGet mem_bolt demo_store_env ''chk'' True b' = SOk ki'"
proof -
  let ?r = "LocalSet mem_bolt demo_store_env demo_ki demo_saver"
  have "case fst ?r of SOk _ \<Rightarrow> True | _ \<Rightarrow> False" by code_simp
  then obtain ki' where "?r = (SOk ki', snd ?r)" by (cases "fst ?r") (auto simp: prod_eq_iff)
  with set_get_roundtrip [OF mem_bolt_ok demo_saver_ok _ _ this] show ?thesis
    by (auto simp: demo_store_env_def dec_enc_KeyInv enc_KeyInv_ne demo_ki_def)
qed

end
