(* ===== verification/Spec2Isabelle.thy ===== *)
theory Spec2Isabelle
  imports Delivery_Props Parser_Safe Options_Props Monitor_Props Health_Props Swp_Props Peer_Props
begin

text \<open>
  A verification development for the gnatsd message server with its health agent, its sliding window
  protocol and its replicating peers, as in the Go sources under src/.

  \<^bold>\<open>The program.\<close> A client connects over TCP and sends lines of a text protocol. The read loop
  feeds what it reads to the parser, which calls the handlers of the connection: CONNECT
  authenticates it, SUB and UNSUB change the subject list, PUB looks up the subscribers of a subject
  and delivers the message to their connections. Servers join into a cluster over routes, which carry
  the interest of their clients and their messages. Options come from the command line and a
  configuration file, and HTTP endpoints report the state. The health agent elects a leader among the
  servers with leases. The sliding window protocol gives two clients an ordered stream over lossy
  messages. Peers embed a server and replicate checkpoints from the elected leader to the followers.

  \<^bold>\<open>Conventions.\<close> A byte string is a list of \<^typ>\<open>char\<close>. Go's int is \<^typ>\<open>int\<close> with \<open>wrap64\<close> written
  where it can overflow; counters that wrap are words of their width. A Go map is an association
  list, and the order in which it is visited is an argument. Objects shared by pointer are kept in a
  store under their id (\<open>heap\<close> of the server). A panic is \<open>None\<close>, \<open>PPanic\<close>, \<open>SPanic\<close>, \<open>RPanic\<close>,
  \<open>PRPanic\<close> or \<open>HPanic\<close>; errors are values. What the operating system, the network, a clock, a random
  choice or a library outside src/ contributes is an argument or a field of an environment record.
  Every mutex section is one step of the model.

  \<^bold>\<open>Theories.\<close>

  \<^item> \<open>Prelude\<close>: byte strings, signed 64-bit arithmetic, association lists, reachable states, and the
    locale \<open>inductive_invariant\<close>, which the subject list, the server, the health agent and the sessions
    interpret.

  \<^item> \<open>Subject\<close>, \<open>Sublist_Trie\<close>, \<open>Sublist_Cache\<close> (server/sublist.go): subjects, the trie with insertion,
    removal and matching, and the list with its cache of results. The abstraction is a multiset of
    paths with subscriptions. Insert, Remove and Match refine it, and the cache stays coherent for
    subjects that are canonical. Two theorems show where it does not: a subject that ends in a dot, and
    wildcards inside a token.

  \<^item> \<open>Proto_Args\<close>, \<open>Auth\<close> (server/util.go, the argument loops, auth/*.go): splitting of arguments, decimal
    numbers with wrap-around, printing of numbers, and the three ways of authentication.

  \<^item> \<open>Server_State\<close>, \<open>Client_Ops\<close>, \<open>Server_Ops\<close> (server/client.go, route.go, server.go): the state and one
    function per handler. \<open>Server_Inv\<close>, \<open>Server_Steps\<close>, \<open>Route_Steps\<close> prove that every handler keeps the
    invariant \<open>winv\<close>; \<open>Server_Props\<close> has the step relation \<open>server_step\<close> and shows that the subject list
    holds exactly the subscriptions of the open connections. \<open>Delivery_Props\<close> treats limits on
    deliveries, permissions and authentication.

  \<^item> \<open>Parser\<close> (server/parser.go, readLoop): the state machine with its jumps and split buffers.
    \<open>Parser_Split\<close> relates it to a machine that reads one byte at a time, \<open>Parser_Props\<close> shows that the
    cutting of a stream into reads does not matter and that frames arrive as written, \<open>Parser_Safe\<close>
    that no input of a client makes it panic. \<open>Parser_Keeps\<close> has what it relies on of the handlers.

  \<^item> \<open>Conf_Lex\<close>, \<open>Conf_Parse\<close> (conf/lex.go, parse.go): every state function of the lexer, and the parser.
    \<open>Conf_Lex_Props\<close>, \<open>Conf_Props\<close>, \<open>Conf_Settings\<close>: when they return, that values are well formed, and
    that settings are read back.

  \<^item> \<open>Server_Options\<close>, \<open>Options_Process\<close>, \<open>Options_Props\<close> (server/opts.go, ciphersuites_1.8.go, main.go):
    every section of a file, the merging with the flags and their order in main. Configured users are
    complete; some flags are lost when there is a file.

  \<^item> \<open>Monitor\<close>, \<open>Monitor_Props\<close> (server/monitor.go, monitor_sort_opts.go): the endpoints. The reported
    counts are those of the invariant, pages cover all connections, lists stay sorted.

  \<^item> \<open>Health_Rank\<close>, \<open>Health_Ring\<close>, \<open>Health_Agent\<close>, \<open>Health_Props\<close> (health/*.go): the order of candidates
    and their trees (locale \<open>ordered_tree\<close>), the ring of past leaders, and the loop of the agent. Terms
    of the leaders that an agent accepts do not overlap, leases are honoured, agents with the same view
    elect the same leader, and a heartbeat after a lease elects.

  \<^item> \<open>Swp_Tcp\<close>, \<open>Swp_Window\<close>, \<open>Swp_Recv\<close>, \<open>Swp_Session\<close> (swp/*.go): connection states, sender, receiver,
    and two ends with a network that loses, duplicates and reorders packets. \<open>Swp_Send_Inv\<close>, \<open>Swp_Inv\<close>
    and \<open>Swp_Props\<close> show that what is read is a prefix of what was written.

  \<^item> \<open>Peer_Store\<close>, \<open>Peer_Transfer\<close>, \<open>Peer_Cluster\<close> (peer/*.go, peer/gcli/client.go, peer/gserv/server.go):
    the saver of checkpoints and its compaction, the transfer in chunks, and the replication.
    \<open>Peer_Store_Props\<close> and \<open>Peer_Props\<close> show that what is set is read back, that compaction loses nothing,
    that a transfer delivers what was sent and accepts only data with the right checksums, that the
    latest checkpoint is the newest, and that a checkpoint of the leader is read on a follower.

  \<^bold>\<open>Loops and fuel.\<close> Loops that always end are total functions with a termination proof, the parser and
  the delivery of packets among them. The lexer and the loop of the configuration parser can run for
  ever: they are \<open>partial_function (option)\<close>, \<open>None\<close> is the endless run, and \<open>Conf_Props\<close> gives
  texts on which they return. The number given to \<open>Parse\<close> bounds the depth of included files and of
  variables that are parsed again; one is enough for a text without them. The fuel of
  \<open>HandleStacksz\<close> is the number of buffers tried, and \<open>stacksz_returns_whole_dump\<close> says how many are
  enough. The four digits of \<open>fmt_x\<close> are enough for the 16-bit numbers it prints.

  \<^bold>\<open>Assumptions.\<close> The database package is known through \<open>bolt_ok\<close>, and \<open>mem_bolt\<close> shows that its laws
  can hold. The serialisation generated by msgp is assumed to read back what it wrote where a theorem
  says so. Delivery of a message is a step only while the subject list still knows the receivers
  (\<open>result_known\<close>). The two trees of third-party packages are the sorted sequences of their items.

  \<^bold>\<open>Not modelled.\<close> Goroutines below the level of a mutex section, deadlines and the buffering of
  writes; accept loops, dialling, TLS handshakes and certificates, of which the outcomes are
  arguments; JSON; the flag package; logging, signals and process usage; the estimator of round-trip
  times, which uses floating point numbers; the as-soon-as-possible helper, the unused event ring, the
  simulated network and the file helpers of swp; the start and stop of a peer, its NATS client and its
  ssh tunnels; the code that msgp, protoc and stringer generate; test helpers and example programs.
\<close>

end
